(* ===== verification/Prelude.thy ===== *)
theory Prelude
  imports Main "HOL-Library.Sublist"
begin

section \<open>Prelude: results, clocks, faults and SQL tables\<close>

text \<open>
  What every component shares: Go's \<open>(value, error)\<close> results as a sum, instants and
  durations as integers (nanoseconds), the schedule of database faults, and the meaning of the
  conditional SQL statements the repositories issue (a table is the list of its rows in
  primary-key order).  The collections \<open>table_simps\<close> and \<open>res_simps\<close> carry the
  automation of the component proofs.
\<close>

named_theorems table_simps \<open>laws of the SQL statements on tables\<close>
named_theorems res_simps \<open>unfolding of results\<close>

type_synonym time = int  \<comment> \<open>an instant, in nanoseconds\<close>
type_synonym dur = int   \<comment> \<open>a \<open>time.Duration\<close>, in nanoseconds\<close>
type_synonym ('e, 'a) result = "'e + 'a"

text \<open>
  A fault schedule: \<open>flt k\<close> says that the \<open>k\<close>-th database call of an operation fails
  (connection lost, context cancelled, deadlock victim, ...).
\<close>
type_synonym fault = "nat \<Rightarrow> bool"

abbreviation no_fault :: fault where "no_fault \<equiv> (\<lambda>_. False)"

definition second :: dur where "second = 1000000000"
definition minute :: dur where "minute = 60 * second"
definition hour :: dur where "hour = 60 * minute"

lemmas dur_defs = second_def minute_def hour_def

text \<open>The zero \<open>time.Time\<close> (1 January of year 1), in nanoseconds of the Unix clock.\<close>
definition zero_time :: time where "zero_time = - 62135596800000000000"

fun ok :: "('e, 'a) result \<Rightarrow> bool" where
  "ok (Inl _) = False"
| "ok (Inr _) = True"

lemma ok_iff [res_simps]: "ok r \<longleftrightarrow> (\<exists>v. r = Inr v)"
  by (cases r) auto

definition bind_res :: "('e, 'a) result \<Rightarrow> ('a \<Rightarrow> ('e, 'b) result) \<Rightarrow> ('e, 'b) result" where
  "bind_res r f = (case r of Inl e \<Rightarrow> Inl e | Inr v \<Rightarrow> f v)"

lemma bind_res_simps [simp]:
  "bind_res (Inl e) f = Inl e" "bind_res (Inr v) f = f v"
  by (simp_all add: bind_res_def)

lemma bind_res_Inr [res_simps]:
  "bind_res r f = Inr y \<longleftrightarrow> (\<exists>v. r = Inr v \<and> f v = Inr y)"
  by (cases r) auto

subsection \<open>Tables\<close>

text \<open>
  \<open>UPDATE t SET u WHERE p\<close>, \<open>DELETE FROM t WHERE p\<close>, \<open>SELECT ... WHERE p\<close>.  The MySQL
  connection does not set \<open>clientFoundRows\<close>, so \<open>RowsAffected\<close> of an update counts the rows
  the statement really changed.
\<close>

definition update_where :: "('r \<Rightarrow> bool) \<Rightarrow> ('r \<Rightarrow> 'r) \<Rightarrow> 'r list \<Rightarrow> 'r list" where
  "update_where p u rs = map (\<lambda>r. if p r then u r else r) rs"

definition rows_affected :: "('r \<Rightarrow> bool) \<Rightarrow> ('r \<Rightarrow> 'r) \<Rightarrow> 'r list \<Rightarrow> nat" where
  "rows_affected p u rs = length (filter (\<lambda>r. p r \<and> u r \<noteq> r) rs)"

definition delete_where :: "('r \<Rightarrow> bool) \<Rightarrow> 'r list \<Rightarrow> 'r list" where
  "delete_where p rs = filter (\<lambda>r. \<not> p r) rs"

text \<open>\<open>First\<close>: the matching row with the least primary key.\<close>
definition first_where :: "('r \<Rightarrow> bool) \<Rightarrow> 'r list \<Rightarrow> 'r option" where
  "first_where p rs = find p rs"

lemma update_where_Nil [simp, table_simps]: "update_where p u [] = []"
  by (simp add: update_where_def)

lemma update_where_Cons [simp, table_simps]:
  "update_where p u (r # rs) = (if p r then u r else r) # update_where p u rs"
  by (simp add: update_where_def)

lemma set_update_where [table_simps]:
  "set (update_where p u rs) = (\<lambda>r. if p r then u r else r) ` set rs"
  by (simp add: update_where_def)

lemma length_update_where [simp, table_simps]: "length (update_where p u rs) = length rs"
  by (simp add: update_where_def)

lemma update_where_cong_map:
  "(\<And>r. f (u r) = f r) \<Longrightarrow> map f (update_where p u rs) = map f rs"
  by (simp add: update_where_def)

lemma update_where_none: "(\<And>r. r \<in> set rs \<Longrightarrow> \<not> p r) \<Longrightarrow> update_where p u rs = rs"
  by (induction rs) auto

lemma rows_affected_0: "rows_affected p u rs = 0 \<Longrightarrow> update_where p u rs = rs"
  by (induction rs) (auto simp: rows_affected_def split: if_splits)

lemma rows_affected_pos:
  "0 < rows_affected p u rs \<longleftrightarrow> (\<exists>r \<in> set rs. p r \<and> u r \<noteq> r)"
  by (induction rs) (auto simp: rows_affected_def)

lemma set_delete_where [simp, table_simps]: "set (delete_where p rs) = {r \<in> set rs. \<not> p r}"
  by (auto simp: delete_where_def)

lemma distinct_delete_where:
  "distinct (map f rs) \<Longrightarrow> distinct (map f (delete_where p rs))"
  by (simp add: delete_where_def distinct_map_filter)

lemma delete_where_update_where:
  "(\<And>r. p (u r) = p r) \<Longrightarrow>
    delete_where p (update_where q u rs) = update_where q u (delete_where p rs)"
  by (induction rs) (auto simp: delete_where_def)

lemma first_where_Some:
  "first_where p rs = Some r \<Longrightarrow> r \<in> set rs \<and> p r"
  by (induction rs) (auto simp: first_where_def split: if_splits)

lemma first_where_None:
  "first_where p rs = None \<longleftrightarrow> (\<forall>r \<in> set rs. \<not> p r)"
  by (auto simp: first_where_def find_None_iff)

subsection \<open>Rows looked up by a unique key\<close>

text \<open>With distinct keys a row is determined by its key, and a keyed update moves one row.\<close>

lemma key_unique:
  "distinct (map key rs) \<Longrightarrow> r \<in> set rs \<Longrightarrow> r' \<in> set rs \<Longrightarrow> key r = key r' \<Longrightarrow> r = r'"
  by (auto simp: distinct_map inj_on_def)

lemma first_where_key:
  assumes "distinct (map key rs)" "r \<in> set rs"
  shows "first_where (\<lambda>x. key x = key r) rs = Some r"
proof (cases "first_where (\<lambda>x. key x = key r) rs")
  case None
  then show ?thesis using assms(2) by (auto simp: first_where_None)
next
  case (Some x)
  then have "x \<in> set rs" "key x = key r" by (auto dest: first_where_Some)
  with assms have "x = r" by (blast intro: key_unique)
  with Some show ?thesis by simp
qed

lemma first_where_update_key:
  assumes "\<And>r. key (u r) = key r"
  shows "first_where (\<lambda>x. key x = k) (update_where p u rs)
       = map_option (\<lambda>r. if p r then u r else r) (first_where (\<lambda>x. key x = k) rs)"
  using assms by (induction rs) (auto simp: first_where_def)

lemma first_where_delete_key:
  assumes "distinct (map key rs)"
  shows "first_where (\<lambda>x. key x = k) (delete_where p rs)
       = (case first_where (\<lambda>x. key x = k) rs of
            None \<Rightarrow> None | Some r \<Rightarrow> if p r then None else Some r)"
proof (cases "first_where (\<lambda>x. key x = k) rs")
  case None
  then have "first_where (\<lambda>x. key x = k) (delete_where p rs) = None"
    by (auto simp: first_where_None)
  with None show ?thesis by simp
next
  case (Some r)
  then have r: "r \<in> set rs" "key r = k" by (auto dest: first_where_Some)
  show ?thesis
  proof (cases "p r")
    case True
    then have "\<forall>x \<in> set (delete_where p rs). key x \<noteq> k"
      using key_unique[OF assms r(1)] r(2) by (metis (no_types, lifting) mem_Collect_eq set_delete_where)
    with Some True show ?thesis by (auto simp: first_where_None)
  next
    case False
    with r have "r \<in> set (delete_where p rs)" by simp
    from first_where_key[OF distinct_delete_where[OF assms] this] r(2) Some False
    show ?thesis by simp
  qed
qed

lemma rows_affected_key:
  assumes "distinct (map key rs)"
  shows "rows_affected (\<lambda>r. key r = k \<and> q r) u rs
       = (case first_where (\<lambda>r. key r = k) rs of
            None \<Rightarrow> 0 | Some r \<Rightarrow> if q r \<and> u r \<noteq> r then 1 else 0)"
  using assms
proof (induction rs)
  case Nil
  then show ?case by (simp add: rows_affected_def first_where_def)
next
  case (Cons x rs)
  show ?case
  proof (cases "key x = k")
    case True
    with Cons.prems have "\<forall>r \<in> set rs. key r \<noteq> k"
      by (metis distinct.simps(2) image_eqI list.set_map list.simps(9))
    then have "filter (\<lambda>r. (key r = k \<and> q r) \<and> u r \<noteq> r) rs = []"
      by (simp add: filter_empty_conv)
    with True show ?thesis by (simp add: rows_affected_def first_where_def)
  next
    case False
    with Cons show ?thesis by (simp add: rows_affected_def first_where_def)
  qed
qed

subsection \<open>Bounded batches\<close>

text \<open>
  The loop \<open>for start := 0; start < len(xs); start += batchSize\<close> that the repositories use to
  bound one statement: the slices \<open>xs[start:min(start+n, len)]\<close> in order.
\<close>

function batches :: "nat \<Rightarrow> 'a list \<Rightarrow> 'a list list" where
  "batches n xs = (if xs = [] \<or> n = 0 then [] else take n xs # batches n (drop n xs))"
  by pat_completeness auto
termination
  by (relation "measure (\<lambda>(n, xs). length xs)") auto

declare batches.simps [simp del]

lemma batches_Nil [simp]: "batches n [] = []"
  by (simp add: batches.simps)

lemma concat_batches: "0 < n \<Longrightarrow> concat (batches n xs) = xs"
proof (induction n xs rule: batches.induct)
  case (1 n xs)
  then show ?case
    by (cases "xs = []") (auto simp: batches.simps[of n xs])
qed

lemma batches_bounded: "b \<in> set (batches n xs) \<Longrightarrow> b \<noteq> [] \<and> length b \<le> n"
proof (induction n xs rule: batches.induct)
  case (1 n xs)
  show ?case
  proof (cases "xs = [] \<or> n = 0")
    case True
    then show ?thesis using "1.prems" by (simp add: batches.simps[of n xs])
  next
    case False
    with "1.prems" have "b = take n xs \<or> b \<in> set (batches n (drop n xs))"
      by (simp add: batches.simps[of n xs])
    then show ?thesis using "1.IH" False by auto
  qed
qed

text \<open>The default batch size every batched statement falls back to.\<close>
definition effective_batch :: "int \<Rightarrow> nat" where
  "effective_batch n = (if n \<le> 0 then 500 else nat n)"

lemma effective_batch_pos [simp]: "0 < effective_batch n"
  by (simp add: effective_batch_def)

subsection \<open>Lists\<close>

lemma find_key_None: "find (\<lambda>r. key r = k) rs = None \<longleftrightarrow> k \<notin> key ` set rs"
  by (auto simp: find_None_iff)

lemma find_key_Some: "find (\<lambda>r. key r = k) rs = Some r \<Longrightarrow> r \<in> set rs \<and> key r = k"
  by (induction rs) (auto split: if_splits)

lemma length_filter_partition:
  "length (filter P xs) + length (filter (\<lambda>x. \<not> P x) xs) = length xs"
  by (induction xs) auto

lemma sum_list_filter_split:
  "(\<Sum>x\<leftarrow>xs. f x) = (\<Sum>x\<leftarrow>filter P xs. f x) + (\<Sum>x\<leftarrow>filter (\<lambda>x. \<not> P x) xs. (f x :: int))"
  by (induction xs) auto

end
