(* ===== verification/GoStrings.thy ===== *)
theory GoStrings
  imports Prelude
begin

section \<open>Go strings\<close>

text \<open>
  The functions of package \<open>strings\<close> the program calls.  A Go string is its sequence of bytes, so
  it is a list of \<open>char\<close> and \<open>len\<close> is \<open>length\<close>; a literal with non-ASCII text is its UTF-8 bytes.
\<close>

subsection \<open>TrimSpace\<close>

text \<open>
  \<open>strings.TrimSpace\<close> cuts every rune of the Unicode property \<open>White_Space\<close> from both ends.  These
  are the UTF-8 encodings of those runes; a prefix of bytes equal to one of them decodes to it, and
  so does a suffix.
\<close>

abbreviation byte :: "nat \<Rightarrow> char" where "byte n \<equiv> char_of n"

definition space_runes :: "string list" where
  "space_runes =
     map (\<lambda>n. [byte n]) [9, 10, 11, 12, 13, 32]
   @ [[byte 0xC2, byte 0x85], [byte 0xC2, byte 0xA0], [byte 0xE1, byte 0x9A, byte 0x80]]
   @ map (\<lambda>n. [byte 0xE2, byte 0x80, byte n])
       [0x80, 0x81, 0x82, 0x83, 0x84, 0x85, 0x86, 0x87, 0x88, 0x89, 0x8A, 0xA8, 0xA9, 0xAF]
   @ [[byte 0xE2, byte 0x81, byte 0x9F], [byte 0xE3, byte 0x80, byte 0x80]]"

definition strip1 :: "string list \<Rightarrow> string \<Rightarrow> string option" where
  "strip1 seqs s = map_option (\<lambda>q. drop (length q) s) (find (\<lambda>q. q \<noteq> [] \<and> prefix q s) seqs)"

lemma strip1_shorter: "strip1 seqs s = Some s' \<Longrightarrow> length s' < length s"
  by (auto simp: strip1_def find_Some_iff prefix_def)

function trim_left :: "string list \<Rightarrow> string \<Rightarrow> string" where
  "trim_left seqs s = (case strip1 seqs s of None \<Rightarrow> s | Some s' \<Rightarrow> trim_left seqs s')"
  by pat_completeness auto
termination
  by (relation "measure (\<lambda>(seqs, s). length s)") (auto dest: strip1_shorter)

declare trim_left.simps [simp del]

definition trim_right :: "string list \<Rightarrow> string \<Rightarrow> string" where
  "trim_right seqs s = rev (trim_left (map rev seqs) (rev s))"

definition TrimSpace :: "string \<Rightarrow> string" where
  "TrimSpace s = trim_right space_runes (trim_left space_runes s)"

definition starts_with_any :: "string list \<Rightarrow> string \<Rightarrow> bool" where
  "starts_with_any seqs s \<longleftrightarrow> (\<exists>q \<in> set seqs. q \<noteq> [] \<and> prefix q s)"

lemma strip1_None: "strip1 seqs s = None \<longleftrightarrow> \<not> starts_with_any seqs s"
  by (auto simp: strip1_def starts_with_any_def find_None_iff)

lemma trim_left_done: "\<not> starts_with_any seqs (trim_left seqs s)"
proof (induction seqs s rule: trim_left.induct)
  case (1 seqs s)
  show ?case
  proof (cases "strip1 seqs s")
    case None
    then have "trim_left seqs s = s" by (simp add: trim_left.simps[of seqs s])
    with None show ?thesis by (simp add: strip1_None)
  next
    case (Some s')
    with "1"[OF Some] show ?thesis by (simp add: trim_left.simps[of seqs s])
  qed
qed

lemma trim_left_id: "\<not> starts_with_any seqs s \<Longrightarrow> trim_left seqs s = s"
  by (subst trim_left.simps) (simp add: strip1_None[THEN iffD2])

lemma trim_left_suffix: "suffix (trim_left seqs s) s"
proof (induction seqs s rule: trim_left.induct)
  case (1 seqs s)
  show ?case
  proof (cases "strip1 seqs s")
    case None
    then show ?thesis by (simp add: trim_left.simps[of seqs s])
  next
    case (Some s')
    then have "suffix s' s" by (auto simp: strip1_def suffix_drop)
    moreover from "1"[OF Some] have "suffix (trim_left seqs s') s'" .
    ultimately show ?thesis using Some
      by (simp add: trim_left.simps[of seqs s] suffix_order.trans)
  qed
qed

lemma trim_right_prefix: "prefix (trim_right seqs s) s"
  using trim_left_suffix[of "map rev seqs" "rev s"]
  by (metis rev_rev_ident suffix_to_prefix trim_right_def)

lemma trim_right_id:
  "\<not> starts_with_any (map rev seqs) (rev s) \<Longrightarrow> trim_right seqs s = s"
  by (simp add: trim_right_def trim_left_id)

lemma trim_right_done: "\<not> starts_with_any (map rev seqs) (rev (trim_right seqs s))"
  by (simp add: trim_right_def trim_left_done)

lemma starts_with_any_prefix:
  "prefix t s \<Longrightarrow> starts_with_any seqs t \<Longrightarrow> starts_with_any seqs s"
  unfolding starts_with_any_def by (meson prefix_order.trans)

lemma TrimSpace_idem [simp]: "TrimSpace (TrimSpace s) = TrimSpace s"
proof -
  let ?l = "trim_left space_runes s"
  have "\<not> starts_with_any space_runes (TrimSpace s)"
    using trim_left_done[of space_runes s] trim_right_prefix[of space_runes ?l]
      starts_with_any_prefix unfolding TrimSpace_def by blast
  then have "trim_left space_runes (TrimSpace s) = TrimSpace s" by (rule trim_left_id)
  then show ?thesis
    using trim_right_done[of space_runes ?l] trim_right_id
    by (simp add: TrimSpace_def)
qed

lemma length_TrimSpace: "length (TrimSpace s) \<le> length s"
  using trim_right_prefix[of space_runes "trim_left space_runes s"]
    trim_left_suffix[of space_runes s]
  unfolding TrimSpace_def by (meson le_trans prefix_length_le suffix_length_le)

lemma set_TrimSpace: "set (TrimSpace s) \<subseteq> set s"
  using trim_right_prefix[of space_runes "trim_left space_runes s"]
    trim_left_suffix[of space_runes s]
  unfolding TrimSpace_def by (meson order_trans set_mono_prefix set_mono_suffix)

lemma TrimSpace_Nil [simp]: "TrimSpace [] = []"
  using length_TrimSpace[of "[]"] by simp

text \<open>A string that starts and ends with a visible ASCII byte is already trimmed.\<close>

definition visible :: "char \<Rightarrow> bool" where
  "visible c \<longleftrightarrow> c \<notin> set (concat space_runes)"

lemma visible_not_head: "visible c \<Longrightarrow> \<not> starts_with_any space_runes (c # s)"
  by (auto simp: starts_with_any_def visible_def prefix_Cons)

lemma visible_not_last:
  "visible c \<Longrightarrow> \<not> starts_with_any (map rev space_runes) (c # s)"
  by (fastforce simp: starts_with_any_def visible_def prefix_Cons dest: arg_cong[where f = set])

lemma TrimSpace_visible:
  assumes "s \<noteq> []" "visible (hd s)" "visible (last s)"
  shows "TrimSpace s = s"
proof -
  have "\<not> starts_with_any space_runes s"
    using assms visible_not_head by (metis list.collapse)
  moreover have "\<not> starts_with_any (map rev space_runes) (rev s)"
    using assms visible_not_last by (metis hd_rev list.collapse rev_is_Nil_conv)
  ultimately show ?thesis by (simp add: TrimSpace_def trim_left_id trim_right_id)
qed

definition printable :: "char \<Rightarrow> bool" where
  "printable c \<longleftrightarrow> 33 \<le> (of_char c :: nat) \<and> (of_char c :: nat) \<le> 126"

lemma printable_visible: "printable c \<Longrightarrow> visible c"
  by (auto simp: printable_def visible_def space_runes_def)

lemma TrimSpace_printable: "s \<noteq> [] \<Longrightarrow> printable (hd s) \<Longrightarrow> printable (last s) \<Longrightarrow> TrimSpace s = s"
  by (simp add: TrimSpace_visible printable_visible)

subsection \<open>Prefixes, suffixes, substrings\<close>

abbreviation HasPrefix :: "string \<Rightarrow> string \<Rightarrow> bool" where
  "HasPrefix s p \<equiv> prefix p s"

abbreviation HasSuffix :: "string \<Rightarrow> string \<Rightarrow> bool" where
  "HasSuffix s p \<equiv> suffix p s"

definition TrimPrefix :: "string \<Rightarrow> string \<Rightarrow> string" where
  "TrimPrefix s p = (if prefix p s then drop (length p) s else s)"

definition TrimSuffix :: "string \<Rightarrow> string \<Rightarrow> string" where
  "TrimSuffix s p = (if suffix p s then take (length s - length p) s else s)"

text \<open>\<open>strings.Trim(s, c)\<close> for a cut set of one byte.\<close>
definition Trim1 :: "char \<Rightarrow> string \<Rightarrow> string" where
  "Trim1 c s = rev (dropWhile (\<lambda>x. x = c) (rev (dropWhile (\<lambda>x. x = c) s)))"

fun Contains :: "string \<Rightarrow> string \<Rightarrow> bool" where
  "Contains [] q = (q = [])"
| "Contains (c # s) q = (prefix q (c # s) \<or> Contains s q)"

lemma Contains_sublist: "Contains s q \<longleftrightarrow> sublist q s"
  by (induction s) (auto simp: sublist_Cons_right)

definition ContainsAny :: "string \<Rightarrow> char list \<Rightarrow> bool" where
  "ContainsAny s cs = list_ex (\<lambda>c. c \<in> set cs) s"

text \<open>\<open>strings.ReplaceAll\<close> for one byte by one byte, and for CR LF by LF.\<close>
definition ReplaceByte :: "char \<Rightarrow> char \<Rightarrow> string \<Rightarrow> string" where
  "ReplaceByte a b s = map (\<lambda>c. if c = a then b else c) s"

fun ReplaceCRLF :: "string \<Rightarrow> string" where
  "ReplaceCRLF (c # d # s) =
     (if c = byte 13 \<and> d = byte 10 then byte 10 # ReplaceCRLF s
      else c # ReplaceCRLF (d # s))"
| "ReplaceCRLF s = s"

lemma ReplaceByte_gone: "a \<noteq> b \<Longrightarrow> a \<notin> set (ReplaceByte a b s)"
  by (auto simp: ReplaceByte_def)

lemma ReplaceByte_id: "a \<notin> set s \<Longrightarrow> ReplaceByte a b s = s"
  by (induction s) (auto simp: ReplaceByte_def)

lemma length_ReplaceByte [simp]: "length (ReplaceByte a b s) = length s"
  by (simp add: ReplaceByte_def)

lemma Trim1_set: "set (Trim1 c s) \<subseteq> set s"
  by (auto simp: Trim1_def dest!: set_dropWhileD)

lemma Trim1_hd: "Trim1 c s \<noteq> [] \<Longrightarrow> hd (Trim1 c s) \<noteq> c"
proof -
  assume ne: "Trim1 c s \<noteq> []"
  let ?d = "dropWhile (\<lambda>x. x = c) s"
  have "prefix (Trim1 c s) ?d"
    unfolding Trim1_def
    by (metis (no_types, lifting) rev_rev_ident suffix_dropWhile suffix_to_prefix)
  then obtain zs where d: "?d = Trim1 c s @ zs" by (auto simp: prefix_def)
  then have "hd (Trim1 c s) = hd ?d" "?d \<noteq> []" using ne by simp_all
  then show ?thesis using hd_dropWhile[of "\<lambda>x. x = c" s] by auto
qed

lemma Trim1_id: "s = [] \<or> (hd s \<noteq> c \<and> last s \<noteq> c) \<Longrightarrow> Trim1 c s = s"
proof -
  assume a: "s = [] \<or> (hd s \<noteq> c \<and> last s \<noteq> c)"
  have id: "t = [] \<or> hd t \<noteq> c \<Longrightarrow> dropWhile (\<lambda>x. x = c) t = t" for t
    by (cases t) auto
  have 1: "dropWhile (\<lambda>x. x = c) s = s" using a id by blast
  have 2: "dropWhile (\<lambda>x. x = c) (rev s) = rev s" using a id[of "rev s"] by (auto simp: hd_rev)
  show ?thesis by (simp add: Trim1_def 1 2)
qed

subsection \<open>Split and Join on one byte\<close>

text \<open>\<open>strings.Split(s, sep)\<close> for a one-byte separator always yields at least one part.\<close>

fun Split :: "string \<Rightarrow> char \<Rightarrow> string list" where
  "Split [] c = [[]]"
| "Split (x # s) c =
     (if x = c then [] # Split s c
      else (case Split s c of [] \<Rightarrow> [[x]] | p # ps \<Rightarrow> (x # p) # ps))"

fun Join :: "string list \<Rightarrow> char \<Rightarrow> string" where
  "Join [] c = []"
| "Join [p] c = p"
| "Join (p # ps) c = p @ c # Join ps c"

lemma Split_ne [simp]: "Split s c \<noteq> []"
  by (induction s) (auto split: list.splits)

lemma Join_Cons: "ps \<noteq> [] \<Longrightarrow> Join (p # ps) c = p @ c # Join ps c"
  by (cases ps) auto

lemma Join_Split [simp]: "Join (Split s c) c = s"
proof (induction s)
  case Nil
  then show ?case by simp
next
  case (Cons x s)
  obtain p ps where ps: "Split s c = p # ps" by (cases "Split s c") auto
  show ?case
  proof (cases "x = c")
    case True
    then show ?thesis using Cons by (simp add: Join_Cons)
  next
    case False
    then show ?thesis using Cons ps by (cases ps) (auto simp: Join_Cons)
  qed
qed

lemma Split_no_sep: "p \<in> set (Split s c) \<Longrightarrow> c \<notin> set p"
  by (induction s arbitrary: p) (auto split: list.splits if_splits)

lemma Split_single: "c \<notin> set p \<Longrightarrow> Split p c = [p]"
  by (induction p) auto

lemma Split_append: "c \<notin> set p \<Longrightarrow> Split (p @ c # s) c = p # Split s c"
  by (induction p) (auto split: list.splits)

lemma Split_snoc: "Split (s @ c # t) c = Split s c @ Split t c"
  by (induction s) (auto split: list.splits)

lemma Split_Join:
  "ps \<noteq> [] \<Longrightarrow> \<forall>p \<in> set ps. c \<notin> set p \<Longrightarrow> Split (Join ps c) c = ps"
proof (induction ps)
  case Nil
  then show ?case by simp
next
  case (Cons p ps)
  then show ?case
    by (cases "ps = []") (auto simp: Split_single Join_Cons Split_append)
qed

lemma set_Join: "set (Join ps c) \<subseteq> (\<Union>p \<in> set ps. set p) \<union> {c}"
proof (induction ps)
  case Nil
  then show ?case by simp
next
  case (Cons p ps)
  then show ?case by (cases ps) auto
qed

lemma Join_append: "xs \<noteq> [] \<Longrightarrow> ys \<noteq> [] \<Longrightarrow> Join (xs @ ys) c = Join xs c @ c # Join ys c"
proof (induction xs)
  case Nil
  then show ?case by simp
next
  case (Cons x xs)
  then show ?case by (cases xs) (auto simp: Join_Cons)
qed

subsection \<open>Fields\<close>

text \<open>\<open>strings.Fields\<close> on ASCII white space: the maximal runs of other bytes.\<close>

definition ascii_space :: "char \<Rightarrow> bool" where
  "ascii_space c \<longleftrightarrow> [c] \<in> set space_runes"

function Fields :: "string \<Rightarrow> string list" where
  "Fields s =
     (let t = dropWhile ascii_space s in
      if t = [] then []
      else takeWhile (\<lambda>c. \<not> ascii_space c) t # Fields (dropWhile (\<lambda>c. \<not> ascii_space c) t))"
  by pat_completeness auto
termination
proof (relation "measure length")
  fix s t
  assume t: "t = dropWhile ascii_space s" "t \<noteq> []"
  then have "\<not> ascii_space (hd t)" using hd_dropWhile by metis
  with t(2) have "length (dropWhile (\<lambda>c. \<not> ascii_space c) t) < length t"
    by (cases t) (auto simp: le_imp_less_Suc length_dropWhile_le)
  also have "\<dots> \<le> length s" using t(1) by (simp add: length_dropWhile_le)
  finally show "(dropWhile (\<lambda>c. \<not> ascii_space c) t, s) \<in> measure length" by simp
qed simp

declare Fields.simps [simp del]

subsection \<open>Case mapping and decimal integers\<close>

definition to_lower_byte :: "char \<Rightarrow> char" where
  "to_lower_byte c = (let n = of_char c :: nat in if 65 \<le> n \<and> n \<le> 90 then byte (n + 32) else c)"

text \<open>\<open>strings.ToLower\<close> on ASCII text.\<close>
definition ToLower :: "string \<Rightarrow> string" where
  "ToLower s = map to_lower_byte s"

text \<open>
  \<open>strconv.ParseInt(s, 10, 64)\<close> and, on a 64-bit platform, \<open>strconv.Atoi\<close>: an optional sign, then at
  least one digit, in range.  White space and underscores are errors.
\<close>

definition digit_val :: "char \<Rightarrow> int option" where
  "digit_val c = (let n = of_char c :: nat in if 48 \<le> n \<and> n \<le> 57 then Some (int n - 48) else None)"

fun parse_digits :: "int \<Rightarrow> string \<Rightarrow> int option" where
  "parse_digits acc [] = Some acc"
| "parse_digits acc (c # s) =
     (case digit_val c of None \<Rightarrow> None | Some d \<Rightarrow> parse_digits (10 * acc + d) s)"

definition in_int64 :: "int \<Rightarrow> bool" where
  "in_int64 n \<longleftrightarrow> - (2 ^ 63) \<le> n \<and> n < 2 ^ 63"

definition ParseInt :: "string \<Rightarrow> int option" where
  "ParseInt s =
     (let (neg, body) = (case s of
            [] \<Rightarrow> (False, [])
          | c # t \<Rightarrow> if c = CHR ''-'' then (True, t) else if c = CHR ''+'' then (False, t)
                    else (False, s))
      in if body = [] then None
         else (case parse_digits 0 body of
                 None \<Rightarrow> None
               | Some n \<Rightarrow> let v = (if neg then - n else n) in if in_int64 v then Some v else None))"

lemma ParseInt_range: "ParseInt s = Some n \<Longrightarrow> in_int64 n"
  by (auto simp: ParseInt_def Let_def split: prod.splits if_splits option.splits)

subsection \<open>Decimal numerals and 64-bit integers\<close>

text \<open>\<open>%d\<close>: the decimal numeral of an integer.\<close>
function show_nat :: "nat \<Rightarrow> string" where
  "show_nat n = (if n < 10 then [byte (48 + n)] else show_nat (n div 10) @ [byte (48 + n mod 10)])"
  by pat_completeness auto
termination by (relation "measure id") auto

declare show_nat.simps [simp del]

definition show_int :: "int \<Rightarrow> string" where
  "show_int n = (if n < 0 then CHR ''-'' # show_nat (nat (- n)) else show_nat (nat n))"

text \<open>Go's signed 64-bit arithmetic wraps; its division truncates towards zero.\<close>
definition wrap64 :: "int \<Rightarrow> int" where
  "wrap64 n = (n + 2 ^ 63) mod 2 ^ 64 - 2 ^ 63"

definition go_div :: "int \<Rightarrow> int \<Rightarrow> int" where
  "go_div a b = sgn a * sgn b * (\<bar>a\<bar> div \<bar>b\<bar>)"

text \<open>A decimal numeral reads back as its integer.\<close>

lemma digit_char: "m < 10 \<Longrightarrow> printable (byte (48 + m)) \<and> digit_val (byte (48 + m)) = Some (int m)"
  by (simp add: printable_def digit_val_def Let_def)

lemma show_nat_digits: "c \<in> set (show_nat n) \<Longrightarrow> printable c \<and> digit_val c \<noteq> None"
proof (induction n rule: show_nat.induct)
  case (1 n)
  then show ?case
    using digit_char[of n] digit_char[of "n mod 10"]
    by (simp add: show_nat.simps[of n] split: if_splits) blast+
qed

lemma parse_digits_append:
  "parse_digits acc (s @ t) = Option.bind (parse_digits acc s) (\<lambda>n. parse_digits n t)"
  by (induction s arbitrary: acc) (auto split: option.splits)

lemma parse_digits_show_nat: "parse_digits 0 (show_nat n) = Some (int n)"
proof (induction n rule: show_nat.induct)
  case (1 n)
  show ?case
  proof (cases "n < 10")
    case True
    then show ?thesis using digit_char[of n] by (simp add: show_nat.simps[of n])
  next
    case False
    with 1 have "parse_digits 0 (show_nat n) = Some (10 * int (n div 10) + int (n mod 10))"
      using digit_char[of "n mod 10"] by (simp add: show_nat.simps[of n] parse_digits_append)
    moreover have "10 * int (n div 10) + int (n mod 10) = int n" by (simp add: of_nat_div of_nat_mod)
    ultimately show ?thesis by simp
  qed
qed

lemma show_nat_ne: "show_nat n \<noteq> []"
  by (subst show_nat.simps) simp

lemma show_nat_hd: "hd (show_nat n) \<noteq> CHR ''-'' \<and> hd (show_nat n) \<noteq> CHR ''+''"
proof -
  have "digit_val (hd (show_nat n)) \<noteq> None" using show_nat_digits[of "hd (show_nat n)" n] show_nat_ne by simp
  moreover have "digit_val (CHR ''-'') = None" "digit_val (CHR ''+'') = None" by (simp_all add: digit_val_def)
  ultimately show ?thesis by metis
qed

lemma ParseInt_show_int [simp]: "in_int64 n \<Longrightarrow> ParseInt (show_int n) = Some n"
proof (cases "n < 0")
  case True
  moreover assume "in_int64 n"
  ultimately show ?thesis by (simp add: ParseInt_def show_int_def show_nat_ne parse_digits_show_nat)
next
  case False
  moreover assume "in_int64 n"
  moreover obtain c s where "show_nat (nat n) = c # s" "c \<noteq> CHR ''-''" "c \<noteq> CHR ''+''"
    using show_nat_ne[of "nat n"] show_nat_hd[of "nat n"] by (cases "show_nat (nat n)") auto
  ultimately show ?thesis using parse_digits_show_nat[of "nat n"]
    by (simp add: ParseInt_def show_int_def)
qed

lemma TrimSpace_show_int [simp]: "TrimSpace (show_int n) = show_int n"
proof -
  have "show_int n \<noteq> []" by (simp add: show_int_def show_nat_ne)
  moreover have "printable c" if "c \<in> set (show_int n)" for c
    using that show_nat_digits by (auto simp: show_int_def printable_def split: if_splits)
  ultimately show ?thesis by (intro TrimSpace_printable) simp_all
qed

lemma show_int_ne [simp]: "show_int n \<noteq> []"
  by (simp add: show_int_def show_nat_ne)

lemma wrap64_id: "in_int64 n \<Longrightarrow> wrap64 n = n"
  by (simp add: wrap64_def in_int64_def)

lemma wrap64_range: "in_int64 (wrap64 n)"
proof -
  define m where "m = (n + 2 ^ 63) mod 2 ^ 64"
  have "0 \<le> m" "m < 2 ^ 64" by (simp_all add: m_def)
  then show ?thesis unfolding wrap64_def in_int64_def m_def[symmetric] by simp
qed

lemma go_div_nonneg: "0 \<le> a \<Longrightarrow> 0 < b \<Longrightarrow> go_div a b = a div b"
  by (cases "a = 0") (simp_all add: go_div_def)

text \<open>\<open>truncate\<close>, the same helper in two packages: at most \<open>m\<close> bytes of a message.\<close>
(* src/internal/worker/queue.go 559-564 truncate *)
definition truncate_bytes :: "string \<Rightarrow> nat \<Rightarrow> string" where
  "truncate_bytes v m = (if length v \<le> m then v else take m v)"

end
