(* ===== verification/Rclone.thy ===== *)
theory Rclone
  imports GoStrings
begin

section \<open>The rclone client\<close>

text \<open>
  \<open>internal/rclone/client.go\<close>: what the client makes of an rclone process's exit and output.  The
  process itself is a parameter of each operation (its exit, its output lines, the answers of
  successive \<open>lsjson --stat\<close> calls).  The properties say that a directory creation or a move is
  reported successful only when it was verified on the remote, and that the diagnostic buffer keeps
  exactly the last bytes.
\<close>

subsection \<open>The capped buffer\<close>

(* src/internal/rclone/client.go 228-231 cappedBuffer *)
record cappedBuffer =
  cb_data :: string
  cb_max :: int

(* src/internal/rclone/client.go 233-247 cappedBuffer.Append *)
definition Append :: "string \<Rightarrow> cappedBuffer \<Rightarrow> cappedBuffer" where
  "Append incoming b =
     (if cb_max b \<le> 0 \<or> incoming = '''' then b
      else let max = nat (cb_max b) in
        if length incoming \<ge> max then b\<lparr>cb_data := drop (length incoming - max) incoming\<rparr>
        else let overflow = int (length (cb_data b)) + int (length incoming) - cb_max b;
                 kept = (if overflow > 0 then drop (nat overflow) (cb_data b) else cb_data b)
             in b\<lparr>cb_data := kept @ incoming\<rparr>)"

definition last_bytes :: "nat \<Rightarrow> string \<Rightarrow> string" where
  "last_bytes n s = drop (length s - n) s"

lemma last_bytes_append_long: "n \<le> length t \<Longrightarrow> last_bytes n (s @ t) = last_bytes n t"
  by (simp add: last_bytes_def)

lemma Append_last:
  assumes "0 < cb_max b" "cb_data b = last_bytes (nat (cb_max b)) s"
  shows "cb_data (Append t b) = last_bytes (nat (cb_max b)) (s @ t) \<and> cb_max (Append t b) = cb_max b"
proof (cases "t = ''''")
  case True
  with assms show ?thesis by (simp add: Append_def)
next
  case ne: False
  let ?m = "nat (cb_max b)"
  show ?thesis
  proof (cases "length t \<ge> ?m")
    case True
    with ne assms(1) show ?thesis
      by (simp add: Append_def Let_def last_bytes_append_long) (simp add: last_bytes_def)
  next
    case False
    show ?thesis
    proof (cases "length s + length t \<le> ?m")
      case True
      with ne assms False show ?thesis by (simp add: Append_def Let_def last_bytes_def)
    next
      case long: False
      have len: "length (cb_data b) = min (length s) ?m" using assms(2) by (simp add: last_bytes_def)
      show ?thesis
      proof (cases "length s \<le> ?m")
        case True
        then have "cb_data b = s" using assms(2) by (simp add: last_bytes_def)
        moreover have "nat (int (length s) + int (length t) - cb_max b) = length s + length t - ?m"
          using assms(1) by arith
        ultimately show ?thesis using ne assms(1) False long True
          by (simp add: Append_def Let_def last_bytes_def)
      next
        case big: False
        then have "length (cb_data b) = ?m" using len by simp
        then have "nat (int (length (cb_data b)) + int (length t) - cb_max b) = length t"
          "int (length (cb_data b)) + int (length t) - cb_max b > 0"
          using assms(1) ne by simp_all
        moreover have "drop (length t) (cb_data b) @ t = last_bytes ?m (s @ t)"
          using assms(2) big False by (simp add: last_bytes_def add.commute)
        ultimately show ?thesis using ne assms(1) False by (simp add: Append_def Let_def)
      qed
    qed
  qed
qed

lemma Append_fold:
  "0 < cb_max b \<Longrightarrow> cb_data b = last_bytes (nat (cb_max b)) s \<Longrightarrow>
     cb_data (fold Append ts b) = last_bytes (nat (cb_max b)) (s @ concat ts)"
proof (induction ts arbitrary: b s)
  case (Cons t ts)
  have "cb_data (Append t b) = last_bytes (nat (cb_max b)) (s @ t)" "cb_max (Append t b) = cb_max b"
    using Append_last[OF Cons.prems] by auto
  with Cons.IH[of "Append t b" "s @ t"] Cons.prems(1) show ?case by simp
qed simp

subsection \<open>Names and messages\<close>

(* src/internal/rclone/client.go 337-339 remoteSpec *)
definition remoteSpec :: "string \<Rightarrow> string \<Rightarrow> string" where
  "remoteSpec remoteName remotePath = remoteName @ '':'' @ TrimPrefix remotePath ''/''"

(* src/internal/rclone/client.go 341-350 remoteCommandError *)
definition remoteCommandError :: "string \<Rightarrow> string \<Rightarrow> string \<Rightarrow> string" where
  "remoteCommandError operation output err =
     (let message = TrimSpace output;
          message' = (if length message > 4096 then drop (length message - 4096) message else message);
          message'' = (if message' = '''' then err else message')
      in ''rclone '' @ operation @ '': '' @ message'')"

(* src/internal/rclone/client.go 39-43 Remote *)
record remote =
  rem_Name :: string
  rem_Type :: string

(* src/internal/rclone/client.go 45-53 RemoteObject *)
record remote_object =
  ro_Path :: string
  ro_Name :: string
  ro_Size :: int
  ro_MimeType :: string
  ro_ModTime :: time
  ro_IsDir :: bool

(* src/internal/rclone/client.go 21-31 Progress *)
record progress =
  pr_Percent :: int
  pr_BytesDone :: int
  pr_BytesTotal :: int
  pr_Speed :: int
  pr_Message :: string
  pr_ETA :: string
  pr_CurrentStr :: string
  pr_TotalStr :: string

text \<open>One turn of the loop: a line without fields, or whose first field is a bare colon, is skipped.\<close>
fun parse_remote_line :: "string \<Rightarrow> remote option" where
  "parse_remote_line raw =
     (case Fields (TrimSpace raw) of
        [] \<Rightarrow> None
      | f # fs \<Rightarrow>
          let name = TrimSuffix f '':'' in
          if name = '''' then None
          else Some \<lparr>rem_Name = name, rem_Type = (case fs of [] \<Rightarrow> '''' | t # _ \<Rightarrow> t)\<rparr>)"

(* src/internal/rclone/client.go 427-445 parseListRemotesLong *)
definition parseListRemotesLong :: "string \<Rightarrow> remote list" where
  "parseListRemotesLong text = List.map_filter parse_remote_line (Split text (byte 10))"

text \<open>\<open>listremotes --long\<close>: its output, or the error of the command.\<close>
(* src/internal/rclone/client.go 253-261 client.ListRemotes *)
definition ListRemotes :: "(string, string) result \<Rightarrow> (string, remote list) result" where
  "ListRemotes run = (case run of
      Inl e \<Rightarrow> Inl (''rclone listremotes: '' @ e)
    | Inr out \<Rightarrow> Inr (parseListRemotesLong out))"

subsection \<open>Copy\<close>

text \<open>
  A process as \<open>Copy\<close> meets it: the pipes or the start may fail; the lines of its two streams, in
  the order in which the two readers take the buffer's mutex; a reader may end with an error; the
  exit.  \<open>parseProgress\<close> is the verdict of \<open>parseProgressLine\<close> on a line (two regular expressions
  and floating point, left out).
\<close>
datatype stream_event =
    StdoutLine string
  | StderrLine string
  | ReadFailed string

record copy_process =
  cp_startError :: "string option"
  cp_output :: "stream_event list"
  cp_waitError :: "string option"
  cp_ctxError :: "string option"

(* src/internal/rclone/client.go 33-37 Result *)
record copy_result =
  res_Success :: bool
  res_Error :: string

fun scanStream :: "(string \<Rightarrow> 'p option) \<Rightarrow> stream_event \<Rightarrow> 'p list \<times> cappedBuffer \<Rightarrow> 'p list \<times> cappedBuffer" where
  "scanStream parseProgress (StdoutLine line) (emitted, errMsg) =
     (case parseProgress line of
        Some p \<Rightarrow> (emitted @ [p], errMsg)
      | None \<Rightarrow> (emitted, errMsg))"
| "scanStream parseProgress (StderrLine line) (emitted, errMsg) =
     (case parseProgress line of
        Some p \<Rightarrow> (emitted @ [p], errMsg)
      | None \<Rightarrow> (emitted, Append (line @ [byte 10]) errMsg))"
| "scanStream parseProgress (ReadFailed e) (emitted, errMsg) =
     (emitted, Append (''read rclone output: '' @ e @ [byte 10]) errMsg)"

text \<open>The progress reports handed to \<open>onProgress\<close>, the result and the error.\<close>
(* src/internal/rclone/client.go 96-175 client.Copy *)
definition Copy :: "(string \<Rightarrow> 'p option) \<Rightarrow> copy_process \<Rightarrow> 'p list \<times> copy_result \<times> string option" where
  "Copy parseProgress p =
     (case cp_startError p of
        Some e \<Rightarrow> ([], \<lparr>res_Success = False, res_Error = e\<rparr>, Some e)
      | None \<Rightarrow>
          let (emitted, errMsg) =
                fold (scanStream parseProgress) (cp_output p) ([], \<lparr>cb_data = '''', cb_max = 64 * 1024\<rparr>) in
          case cp_waitError p of
            Some waitErr \<Rightarrow>
              let message = TrimSpace (cb_data errMsg);
                  message' = (case cp_ctxError p of
                                Some c \<Rightarrow> if message = '''' then c else message
                              | None \<Rightarrow> message)
              in (emitted, \<lparr>res_Success = False, res_Error = message'\<rparr>, Some (''rclone copyto: '' @ waitErr))
          | None \<Rightarrow> (emitted, \<lparr>res_Success = True, res_Error = ''''\<rparr>, None))"

text \<open>What the diagnostics of a run are: all lines that no progress report was read from.\<close>
fun diagnostic :: "(string \<Rightarrow> 'p option) \<Rightarrow> stream_event \<Rightarrow> string" where
  "diagnostic parseProgress (StdoutLine line) = ''''"
| "diagnostic parseProgress (StderrLine line) = (if parseProgress line = None then line @ [byte 10] else '''')"
| "diagnostic parseProgress (ReadFailed e) = ''read rclone output: '' @ e @ [byte 10]"

lemma Append_Nil [simp]: "Append '''' b = b"
  by (simp add: Append_def)

lemma scanStream_buffer: "snd (scanStream pp ev st) = Append (diagnostic pp ev) (snd st)"
  by (cases st; cases ev) (auto split: option.splits)

lemma fold_scanStream_buffer:
  "snd (fold (scanStream pp) evs st) = fold Append (map (diagnostic pp) evs) (snd st)"
  by (induction evs arbitrary: st) (simp_all add: scanStream_buffer)

subsection \<open>Walking a remote\<close>

text \<open>
  The standard output of \<open>lsjson --recursive\<close> as the decoder reads it, token by token: the opening
  token, then entries up to one that cannot be decoded or to the end of the array, whose closing
  token may be missing.
\<close>
datatype open_token = OpenError string | OpenArray | OpenOther

record walk_process =
  wp_startError :: "string option"
  wp_opening :: open_token
  wp_entries :: "(string, remote_object) result list"
  wp_closing :: "string option"
  wp_stderr :: "string list"
  wp_waitError :: "string option"

datatype 'v walk_error =
    WalkStart string
  | WalkOpening string
  | WalkNonArray
  | WalkEntry string
  | WalkVisit 'v
  | WalkClosing string
  | WalkExit string

fun walk_entries ::
    "(remote_object \<Rightarrow> 's \<Rightarrow> 's \<times> 'v option) \<Rightarrow> (string, remote_object) result list \<Rightarrow> 's \<Rightarrow> 's \<times> 'v walk_error option" where
  "walk_entries visit [] s = (s, None)"
| "walk_entries visit (Inl e # es) s = (s, Some (WalkEntry e))"
| "walk_entries visit (Inr obj # es) s =
     (case visit obj s of
        (s', None) \<Rightarrow> walk_entries visit es s'
      | (s', Some v) \<Rightarrow> (s', Some (WalkVisit v)))"

text \<open>\<open>visit\<close> changes the state it closes over and may refuse an object.\<close>
(* src/internal/rclone/client.go 263-335 client.WalkRemote *)
definition WalkRemote ::
    "walk_process \<Rightarrow> (remote_object \<Rightarrow> 's \<Rightarrow> 's \<times> 'v option) \<Rightarrow> 's \<Rightarrow> 's \<times> 'v walk_error option" where
  "WalkRemote p visit s =
     (case wp_startError p of
        Some e \<Rightarrow> (s, Some (WalkStart e))
      | None \<Rightarrow>
          let diagnostics = fold Append (map (\<lambda>l. l @ [byte 10]) (wp_stderr p)) \<lparr>cb_data = '''', cb_max = 64 * 1024\<rparr>;
              (s', walkErr) =
                (case wp_opening p of
                   OpenError e \<Rightarrow> (s, Some (WalkOpening e))
                 | OpenOther \<Rightarrow> (s, Some WalkNonArray)
                 | OpenArray \<Rightarrow>
                     (case walk_entries visit (wp_entries p) s of
                        (s', Some e) \<Rightarrow> (s', Some e)
                      | (s', None) \<Rightarrow> (s', map_option WalkClosing (wp_closing p)))) in
          case walkErr of
            Some e \<Rightarrow> (s', Some e)
          | None \<Rightarrow>
              (case wp_waitError p of
                 None \<Rightarrow> (s', None)
               | Some e \<Rightarrow>
                   let message = TrimSpace (cb_data diagnostics) in
                   (s', Some (WalkExit (if message = '''' then e else message)))))"

text \<open>All objects visited in order, none refused.\<close>
fun visit_all :: "('o \<Rightarrow> 's \<Rightarrow> 's \<times> 'v option) \<Rightarrow> 'o list \<Rightarrow> 's \<Rightarrow> 's option" where
  "visit_all visit [] s = Some s"
| "visit_all visit (x # xs) s =
     (case visit x s of (s', None) \<Rightarrow> visit_all visit xs s' | (s', Some v) \<Rightarrow> None)"

lemma walk_entries_None:
  "walk_entries visit es s = (s', None) \<longleftrightarrow>
     (\<exists>objs. es = map Inr objs \<and> visit_all visit objs s = Some s')"
proof (induction es arbitrary: s)
  case (Cons e es)
  show ?case
  proof (cases e)
    case (Inr obj)
    obtain s1 r where v: "visit obj s = (s1, r)" by fastforce
    show ?thesis
    proof (cases r)
      case None
      then show ?thesis using v Inr Cons.IH[of s1] by (auto simp: Cons_eq_map_conv)
    next
      case (Some v')
      then show ?thesis using v Inr by (auto simp: Cons_eq_map_conv)
    qed
  qed auto
qed auto

subsection \<open>Verified remote operations\<close>

text \<open>The answer of one \<open>lsjson --stat\<close>; \<open>StatExit None\<close>: the process did not exit by itself.\<close>
datatype stat_answer =
    StatFound remote_object
  | StatExit "int option" string string
  | StatUndecodable string

datatype remote_error =
    CommandFailed string
  | DecodeFailed string
  | NotADirectory
  | DirectoryMissing
  | WaitCanceled
  | MoveUnverified

(* src/internal/rclone/client.go 352-359 isRemoteNotFound *)
definition isRemoteNotFound :: "int option \<Rightarrow> bool" where
  "isRemoteNotFound code = (case code of None \<Rightarrow> False | Some c \<Rightarrow> c = 3 \<or> c = 4)"

text \<open>\<open>Inr None\<close>: the object does not exist.\<close>
(* src/internal/rclone/client.go 361-375 client.StatRemote *)
definition StatRemote :: "stat_answer \<Rightarrow> (remote_error, remote_object option) result" where
  "StatRemote a =
     (case a of
        StatExit code output err \<Rightarrow>
          if isRemoteNotFound code then Inr None
          else Inl (CommandFailed (remoteCommandError ''lsjson --stat'' output err))
      | StatUndecodable e \<Rightarrow> Inl (DecodeFailed e)
      | StatFound obj \<Rightarrow> Inr (Some obj))"

definition verificationAttempts :: nat where "verificationAttempts = 3"

text \<open>
  The verification loop: \<open>stat k\<close> answers the \<open>k\<close>-th look, \<open>canceled k\<close> says that the context ends
  during the pause after it.
\<close>
function verify_directory ::
    "(nat \<Rightarrow> stat_answer) \<Rightarrow> (nat \<Rightarrow> bool) \<Rightarrow> nat \<Rightarrow> (remote_error, unit) result" where
  "verify_directory stat canceled attempt =
     (if attempt < verificationAttempts then
        (case StatRemote (stat attempt) of
           Inl e \<Rightarrow> Inl e
         | Inr (Some obj) \<Rightarrow> if ro_IsDir obj then Inr () else Inl NotADirectory
         | Inr None \<Rightarrow>
             if attempt + 1 < verificationAttempts \<and> canceled attempt then Inl WaitCanceled
             else verify_directory stat canceled (attempt + 1))
      else Inl DirectoryMissing)"
  by pat_completeness auto
termination by (relation "measure (\<lambda>(_, _, a). verificationAttempts - a)") auto

declare verify_directory.simps [simp del]

(* src/internal/rclone/client.go 377-405 client.MakeRemoteDirectory *)
definition MakeRemoteDirectory ::
    "(string \<times> string) option \<Rightarrow> (nat \<Rightarrow> stat_answer) \<Rightarrow> (nat \<Rightarrow> bool) \<Rightarrow> (remote_error, unit) result" where
  "MakeRemoteDirectory mkdirError stat canceled =
     (case mkdirError of
        Some (output, err) \<Rightarrow> Inl (CommandFailed (remoteCommandError ''mkdir'' output err))
      | None \<Rightarrow> verify_directory stat canceled 0)"

(* src/internal/rclone/client.go 407-425 client.MoveRemoteObject *)
definition MoveRemoteObject ::
    "(string \<times> string) option \<Rightarrow> stat_answer \<Rightarrow> stat_answer \<Rightarrow> (remote_error, unit) result" where
  "MoveRemoteObject moveError sourceAnswer destinationAnswer =
     (case moveError of
        Some (output, err) \<Rightarrow> Inl (CommandFailed (remoteCommandError ''moveto'' output err))
      | None \<Rightarrow>
          bind_res (StatRemote sourceAnswer) (\<lambda>source.
            bind_res (StatRemote destinationAnswer) (\<lambda>destination.
              if source \<noteq> None \<or> destination = None then Inl MoveUnverified else Inr ())))"

lemma first_hit:
  "(\<exists>k\<ge>a. Q k \<and> (\<forall>j. a \<le> j \<and> j < k \<longrightarrow> P j)) \<longleftrightarrow>
     Q a \<or> (P a \<and> (\<exists>k\<ge>Suc a. Q k \<and> (\<forall>j. Suc a \<le> j \<and> j < k \<longrightarrow> P j)))"
    (is "?L \<longleftrightarrow> ?R")
proof
  assume ?L
  then obtain k where k: "a \<le> k" "Q k" "\<And>j. a \<le> j \<Longrightarrow> j < k \<Longrightarrow> P j" by blast
  show ?R
  proof (cases "k = a")
    case False
    with k have "P a" "Suc a \<le> k" by auto
    then show ?thesis using k(2,3) by (meson Suc_leD)
  qed (use k in simp)
next
  assume ?R
  then show ?L
  proof
    assume "P a \<and> (\<exists>k\<ge>Suc a. Q k \<and> (\<forall>j. Suc a \<le> j \<and> j < k \<longrightarrow> P j))"
    then obtain k where "P a" "Suc a \<le> k" "Q k" "\<And>j. Suc a \<le> j \<Longrightarrow> j < k \<Longrightarrow> P j" by blast
    moreover from this have "P j" if "a \<le> j" "j < k" for j
      using that by (cases "j = a") auto
    ultimately show ?L by (meson Suc_leD)
  qed auto
qed

definition stat_missing :: "(nat \<Rightarrow> stat_answer) \<Rightarrow> (nat \<Rightarrow> bool) \<Rightarrow> nat \<Rightarrow> bool" where
  "stat_missing stat canceled j \<longleftrightarrow> StatRemote (stat j) = Inr None \<and> \<not> canceled j"

definition stat_directory :: "(nat \<Rightarrow> stat_answer) \<Rightarrow> nat \<Rightarrow> bool" where
  "stat_directory stat k \<longleftrightarrow> k < verificationAttempts \<and>
     (case StatRemote (stat k) of Inr (Some obj) \<Rightarrow> ro_IsDir obj | _ \<Rightarrow> False)"

lemma verify_directory_Inr:
  "verify_directory stat canceled a = Inr () \<longleftrightarrow>
     (\<exists>k\<ge>a. stat_directory stat k \<and> (\<forall>j. a \<le> j \<and> j < k \<longrightarrow> stat_missing stat canceled j))"
proof (induction stat canceled a rule: verify_directory.induct)
  case (1 stat canceled a)
  let ?ex = "\<lambda>a. \<exists>k\<ge>a. stat_directory stat k \<and> (\<forall>j. a \<le> j \<and> j < k \<longrightarrow> stat_missing stat canceled j)"
  have none: "\<not> ?ex (Suc a)" if "\<not> a + 1 < verificationAttempts"
    using that by (auto simp: stat_directory_def)
  show ?case
  proof (cases "a < verificationAttempts")
    case False
    then have "\<not> ?ex a" by (auto simp: stat_directory_def)
    then show ?thesis using False by (subst verify_directory.simps) simp
  next
    case lt: True
    show ?thesis
    proof (cases "StatRemote (stat a) = Inr None")
      case False
      then have "?ex a \<longleftrightarrow> stat_directory stat a"
        by (subst first_hit) (simp add: stat_missing_def)
      then show ?thesis using False lt
        by (subst verify_directory.simps) (auto simp: stat_directory_def split: sum.splits option.splits)
    next
      case missing: True
      then have ex: "?ex a \<longleftrightarrow> \<not> canceled a \<and> ?ex (Suc a)"
        by (subst first_hit) (simp add: stat_missing_def stat_directory_def)
      show ?thesis
      proof (cases "a + 1 < verificationAttempts \<and> canceled a")
        case True
        then show ?thesis using ex missing by (subst verify_directory.simps) simp
      next
        case False
        have "verify_directory stat canceled a = verify_directory stat canceled (a + 1)"
          using False missing lt by (subst verify_directory.simps) auto
        moreover have "verify_directory stat canceled (a + 1) = Inr () \<longleftrightarrow> ?ex (a + 1)"
          using "1.IH" lt missing False by blast
        moreover have "canceled a \<Longrightarrow> \<not> ?ex (Suc a)" using False none by blast
        ultimately show ?thesis using ex by auto
      qed
    qed
  qed
qed

subsection \<open>Properties\<close>

lemma fold_scanStream_emitted:
  "fst (fold (scanStream pp) evs st) = fst st @ List.map_filter
     (\<lambda>ev. case ev of StdoutLine l \<Rightarrow> pp l | StderrLine l \<Rightarrow> pp l | ReadFailed _ \<Rightarrow> None) evs"
proof (induction evs arbitrary: st)
  case (Cons ev evs)
  then show ?case by (cases st; cases ev) (auto simp: List.map_filter_simps split: option.splits)
qed (simp add: List.map_filter_simps)

text \<open>
  an upload succeeds exactly when \<open>rclone copyto\<close> starts and exits without an error; every
  progress line of either stream is reported, in order; and the message of a failed upload is the
  trimmed last 64 KiB of what was not progress (the cancellation's own message if that is blank).
\<close>
theorem Copy_outcome:
  "Copy pp p =
     (case cp_startError p of
        Some e \<Rightarrow> ([], \<lparr>res_Success = False, res_Error = e\<rparr>, Some e)
      | None \<Rightarrow>
          (List.map_filter (\<lambda>ev. case ev of StdoutLine l \<Rightarrow> pp l | StderrLine l \<Rightarrow> pp l | ReadFailed _ \<Rightarrow> None) (cp_output p),
           case cp_waitError p of
             None \<Rightarrow> (\<lparr>res_Success = True, res_Error = ''''\<rparr>, None)
           | Some e \<Rightarrow>
               (\<lparr>res_Success = False,
                 res_Error = (let m = TrimSpace (last_bytes 65536 (concat (map (diagnostic pp) (cp_output p))))
                              in if m = '''' then case_option m id (cp_ctxError p) else m)\<rparr>,
                Some (''rclone copyto: '' @ e))))"
proof -
  define b0 where "b0 = \<lparr>cb_data = '''', cb_max = 64 * 1024\<rparr>"
  define r where "r = fold (scanStream pp) (cp_output p) ([], b0)"
  have "cb_data (snd r) = last_bytes (nat (cb_max b0)) ('''' @ concat (map (diagnostic pp) (cp_output p)))"
    unfolding r_def fold_scanStream_buffer
    by (simp only: snd_conv, rule Append_fold) (simp_all add: b0_def last_bytes_def)
  then have 1: "cb_data (snd r) = last_bytes 65536 (concat (map (diagnostic pp) (cp_output p)))"
    by (simp add: b0_def)
  have 2: "fst r = List.map_filter (\<lambda>ev. case ev of StdoutLine l \<Rightarrow> pp l | StderrLine l \<Rightarrow> pp l | ReadFailed _ \<Rightarrow> None) (cp_output p)"
    unfolding r_def fold_scanStream_emitted by simp
  show ?thesis
    unfolding Copy_def b0_def[symmetric] r_def[symmetric] 2[symmetric] 1[symmetric]
    by (cases r) (simp add: Let_def split: option.splits)
qed

text \<open>
  a walk of a remote ends without an error exactly when \<open>rclone lsjson\<close> started, printed one
  complete JSON array of objects, exited without an error, and the visitor accepted every object; the
  visitor's state is then the one after all objects, in order.  A truncated listing is never taken
  for a complete one.
\<close>
theorem WalkRemote_complete:
  "WalkRemote p visit s = (s', None) \<longleftrightarrow>
     wp_startError p = None \<and> wp_opening p = OpenArray \<and> wp_closing p = None \<and> wp_waitError p = None \<and>
     (\<exists>objs. wp_entries p = map Inr objs \<and> visit_all visit objs s = Some s')"
proof -
  obtain t r where w: "walk_entries visit (wp_entries p) s = (t, r)" by fastforce
  have "(\<exists>objs. wp_entries p = map Inr objs \<and> visit_all visit objs s = Some s') \<longleftrightarrow> t = s' \<and> r = None"
    using walk_entries_None[of visit "wp_entries p" s s'] w by auto
  then show ?thesis
    by (cases "wp_startError p"; cases "wp_opening p"; cases r; cases "wp_closing p"; cases "wp_waitError p")
      (simp_all add: WalkRemote_def w Let_def)
qed

text \<open>
  C38: a directory creation is reported successful exactly when \<open>rclone mkdir\<close> succeeded and one of
  at most three looks, all earlier ones finding nothing and none of the pauses between them
  cancelled, found a directory there; a move exactly when \<open>rclone moveto\<close> succeeded, the source was
  found to be gone and the destination to exist.
\<close>
theorem remote_changes_verified:
  "(MakeRemoteDirectory mkdirError stat canceled = Inr () \<longleftrightarrow>
     mkdirError = None \<and>
     (\<exists>k<3. (\<exists>obj. stat k = StatFound obj \<and> ro_IsDir obj) \<and>
        (\<forall>j<k. (\<exists>code out err. stat j = StatExit (Some code) out err \<and> code \<in> {3, 4}) \<and> \<not> canceled j))) \<and>
   (MoveRemoteObject moveError sourceAnswer destinationAnswer = Inr () \<longleftrightarrow>
     moveError = None \<and>
     (\<exists>code out err. sourceAnswer = StatExit (Some code) out err \<and> code \<in> {3, 4}) \<and>
     (\<exists>obj. destinationAnswer = StatFound obj))"
proof (intro conjI)
  have none: "StatRemote a = Inr None \<longleftrightarrow> (\<exists>code out err. a = StatExit (Some code) out err \<and> code \<in> {3, 4})" for a
    by (auto simp: StatRemote_def isRemoteNotFound_def split: stat_answer.splits option.splits if_splits)
  have some: "StatRemote a = Inr (Some obj) \<longleftrightarrow> a = StatFound obj" for a obj
    by (auto simp: StatRemote_def split: stat_answer.splits if_splits)
  have dir: "stat_directory stat k \<longleftrightarrow> k < 3 \<and> (\<exists>obj. stat k = StatFound obj \<and> ro_IsDir obj)" for k
  proof (cases "stat k")
    case (StatFound obj)
    then show ?thesis by (simp add: stat_directory_def verificationAttempts_def StatRemote_def)
  qed (auto simp: stat_directory_def verificationAttempts_def StatRemote_def)
  show "MakeRemoteDirectory mkdirError stat canceled = Inr () \<longleftrightarrow>
     mkdirError = None \<and>
     (\<exists>k<3. (\<exists>obj. stat k = StatFound obj \<and> ro_IsDir obj) \<and>
        (\<forall>j<k. (\<exists>code out err. stat j = StatExit (Some code) out err \<and> code \<in> {3, 4}) \<and> \<not> canceled j))"
    by (cases mkdirError) (auto simp: MakeRemoteDirectory_def verify_directory_Inr dir stat_missing_def none)
  show "MoveRemoteObject moveError sourceAnswer destinationAnswer = Inr () \<longleftrightarrow>
     moveError = None \<and>
     (\<exists>code out err. sourceAnswer = StatExit (Some code) out err \<and> code \<in> {3, 4}) \<and>
     (\<exists>obj. destinationAnswer = StatFound obj)"
  proof (cases moveError)
    case None
    then show ?thesis
      unfolding none[symmetric] some[symmetric] MoveRemoteObject_def
      by (cases "StatRemote sourceAnswer"; cases "StatRemote destinationAnswer") auto
  qed (auto simp: MoveRemoteObject_def)
qed

definition sample_object :: remote_object where
  "sample_object = \<lparr>ro_Path = ''a'', ro_Name = ''a'', ro_Size = 0, ro_MimeType = '''', ro_ModTime = 0, ro_IsDir = True\<rparr>"

theorem remote_changes_verified_witness:
  "MakeRemoteDirectory None (\<lambda>k. if k = 0 then StatExit (Some 3) '''' '''' else StatFound sample_object) (\<lambda>_. False) = Inr ()
   \<and> MoveRemoteObject None (StatExit (Some 4) '''' '''') (StatFound sample_object) = Inr ()"
proof -
  have "\<exists>k<3. (\<exists>obj. (if k = (0::nat) then StatExit (Some 3) '''' '''' else StatFound sample_object) = StatFound obj \<and> ro_IsDir obj) \<and>
        (\<forall>j<k. \<exists>code out err. (if j = 0 then StatExit (Some 3) '''' '''' else StatFound sample_object) = StatExit (Some code) out err \<and> code \<in> {3, 4})"
    by (rule exI[of _ 1]) (simp add: sample_object_def)
  then show ?thesis
    using remote_changes_verified[of None "\<lambda>k. if k = 0 then StatExit (Some 3) '''' '''' else StatFound sample_object" "\<lambda>_. False"
        None "StatExit (Some 4) '''' ''''" "StatFound sample_object"]
    by simp
qed

end
