(* ===== verification/GoPath.thy ===== *)
theory GoPath
  imports GoStrings
begin

section \<open>Go paths\<close>

text \<open>
  Packages \<open>path\<close> and, on Unix, \<open>path/filepath\<close>: lexical operations on slash-separated names.
  \<open>path_Clean\<close> follows the documented rules of \<open>path.Clean\<close> on the list of elements with a stack;
  \<open>path_Rel\<close> follows \<open>filepath.Rel\<close>.  The lemmas give the canonical form of a cleaned path and
  say when \<open>Rel\<close> stays inside its base: this is what every path check of the program rests on.
\<close>

abbreviation slash :: char where "slash \<equiv> CHR ''/''"
abbreviation dot :: string where "dot \<equiv> ''.''"
abbreviation dotdot :: string where "dotdot \<equiv> ''..''"

fun rooted :: "string \<Rightarrow> bool" where
  "rooted [] = False"
| "rooted (c # s) = (c = slash)"

text \<open>The element stack (top first) while the elements are read left to right.\<close>
fun clean_segs :: "bool \<Rightarrow> string list \<Rightarrow> string list \<Rightarrow> string list" where
  "clean_segs r st [] = rev st"
| "clean_segs r st (x # xs) =
     (if x = [] \<or> x = dot then clean_segs r st xs
      else if x = dotdot then
        (case st of
           [] \<Rightarrow> if r then clean_segs r [] xs else clean_segs r [dotdot] xs
         | t # ts \<Rightarrow> if t = dotdot then clean_segs r (dotdot # st) xs else clean_segs r ts xs)
      else clean_segs r (x # st) xs)"

definition elems :: "string \<Rightarrow> string list" where
  "elems p = clean_segs (rooted p) [] (Split p slash)"

definition build :: "bool \<Rightarrow> string list \<Rightarrow> string" where
  "build r segs = (if r then slash # Join segs slash
                   else if segs = [] then dot else Join segs slash)"

definition path_Clean :: "string \<Rightarrow> string" where
  "path_Clean p = build (rooted p) (elems p)"

definition path_Dir :: "string \<Rightarrow> string" where
  "path_Dir p = path_Clean (rev (dropWhile (\<lambda>c. c \<noteq> slash) (rev p)))"

definition path_Base :: "string \<Rightarrow> string" where
  "path_Base p =
     (if p = [] then dot
      else (let q = rev (dropWhile (\<lambda>c. c = slash) (rev p));
                b = rev (takeWhile (\<lambda>c. c \<noteq> slash) (rev q))
            in if b = [] then [slash] else b))"

definition path_Join :: "string list \<Rightarrow> string" where
  "path_Join ps = (let qs = filter (\<lambda>p. p \<noteq> []) ps in if qs = [] then [] else path_Clean (Join qs slash))"

subsection \<open>The canonical form\<close>

text \<open>A proper element: not empty, not \<open>.\<close> or \<open>..\<close>, without a slash.\<close>
definition proper :: "string \<Rightarrow> bool" where
  "proper x \<longleftrightarrow> x \<noteq> [] \<and> x \<noteq> dot \<and> x \<noteq> dotdot \<and> slash \<notin> set x"

text \<open>A canonical element list: leading \<open>..\<close> (none if rooted), then proper elements.\<close>
definition canonical :: "bool \<Rightarrow> string list \<Rightarrow> bool" where
  "canonical r xs \<longleftrightarrow> (\<exists>n ys. xs = replicate n dotdot @ ys \<and> (\<forall>y \<in> set ys. proper y) \<and> (r \<longrightarrow> n = 0))"

lemma canonicalI:
  "\<forall>y \<in> set ys. proper y \<Longrightarrow> r \<longrightarrow> n = 0 \<Longrightarrow> canonical r (replicate n dotdot @ ys)"
  unfolding canonical_def by blast

lemma canonicalE:
  assumes "canonical r xs"
  obtains n ys where "xs = replicate n dotdot @ ys" "\<forall>y \<in> set ys. proper y" "r \<longrightarrow> n = 0"
  using assms unfolding canonical_def by blast

lemma canonical_proper: "\<forall>x \<in> set xs. proper x \<Longrightarrow> canonical r xs"
  using canonicalI[of xs r 0] by simp

lemma canonical_rooted: "canonical True xs \<longleftrightarrow> (\<forall>x \<in> set xs. proper x)"
  by (metis append_Nil canonicalE canonical_proper replicate_0)

lemma canonical_Nil [simp]: "canonical r []"
  by (simp add: canonical_proper)

lemma canonical_snoc_proper:
  assumes "canonical r xs" "proper x" shows "canonical r (xs @ [x])"
proof -
  from assms(1) obtain n ys where e: "xs = replicate n dotdot @ ys" "\<forall>y \<in> set ys. proper y"
    "r \<longrightarrow> n = 0" by (rule canonicalE)
  with assms(2) have "canonical r (replicate n dotdot @ (ys @ [x]))" by (intro canonicalI) auto
  with e(1) show ?thesis by simp
qed

lemma canonical_butlast:
  assumes "canonical r (xs @ [x])" "x \<noteq> dotdot" shows "canonical r xs"
proof -
  from assms(1) obtain n ys where e: "xs @ [x] = replicate n dotdot @ ys" "\<forall>y \<in> set ys. proper y"
    "r \<longrightarrow> n = 0" by (rule canonicalE)
  show ?thesis
  proof (cases ys rule: rev_cases)
    case Nil
    with e have "x \<in> set (replicate n dotdot)" by (metis append_Nil2 in_set_conv_decomp)
    then have "x = dotdot" by (simp only: in_set_replicate)
    with assms(2) show ?thesis by contradiction
  next
    case (snoc zs z)
    with e(1) have "xs = replicate n dotdot @ zs" by simp
    moreover have "canonical r (replicate n dotdot @ zs)"
      using e(2,3) snoc by (intro canonicalI) auto
    ultimately show ?thesis by simp
  qed
qed

lemma canonical_dotdots:
  assumes "canonical False (xs @ [dotdot])"
  shows "xs = replicate (length xs) dotdot"
proof -
  from assms obtain n ys where e: "xs @ [dotdot] = replicate n dotdot @ ys"
    "\<forall>y \<in> set ys. proper y" by (rule canonicalE)
  have "ys = []"
  proof (cases ys rule: rev_cases)
    case (snoc zs z)
    with e(1) have "z = dotdot" by simp
    with e(2) snoc show ?thesis by (simp add: proper_def)
  qed
  with e(1) have "set (xs @ [dotdot]) = set (replicate n dotdot)" by simp
  then have "\<forall>x \<in> set xs. x = dotdot" by (metis Un_iff in_set_replicate set_append)
  then show ?thesis by (metis replicate_length_same)
qed

lemma replicate_snoc: "replicate n x @ [x] = replicate (Suc n) x"
  by (induction n) auto

lemma clean_segs_canonical:
  assumes "canonical r (rev st)" "\<forall>x \<in> set xs. slash \<notin> set x"
  shows "canonical r (clean_segs r st xs)"
  using assms
proof (induction xs arbitrary: st)
  case Nil
  then show ?case by simp
next
  case (Cons x xs)
  show ?case
  proof (cases "x = [] \<or> x = dot")
    case True
    then show ?thesis using Cons.IH[of st] Cons.prems by simp
  next
    case nz: False
    show ?thesis
    proof (cases "x = dotdot")
      case dd: True
      show ?thesis
      proof (cases st)
        case Nil
        have "canonical False [dotdot]" using canonicalI[of "[]" False 1] by simp
        with Nil dd Cons.IH[of "[]"] Cons.IH[of "[dotdot]"] Cons.prems show ?thesis by (cases r) simp_all
      next
        case (Cons t ts)
        show ?thesis
        proof (cases "t = dotdot")
          case True
          have nr: "\<not> r"
            using Cons.prems(1) \<open>st = t # ts\<close> True by (auto simp: canonical_rooted proper_def)
          have "rev ts = replicate (length (rev ts)) dotdot"
            by (rule canonical_dotdots) (use Cons.prems(1) \<open>st = t # ts\<close> True nr in auto)
          then have "rev (dotdot # st) = (replicate (length ts) dotdot @ [dotdot]) @ [dotdot]"
            using \<open>st = t # ts\<close> True by simp
          then have "rev (dotdot # st) = replicate (length ts + 2) dotdot"
            by (simp only: replicate_snoc add_2_eq_Suc')
          then have "canonical r (rev (dotdot # st))"
            using nr canonicalI[of "[]" r "length ts + 2"] by simp
          then show ?thesis using Cons.IH[of "dotdot # st"] Cons.prems \<open>st = t # ts\<close> True dd by simp
        next
          case False
          have "canonical r (rev ts)"
            by (rule canonical_butlast[of _ _ t]) (use Cons.prems(1) \<open>st = t # ts\<close> False in auto)
          then show ?thesis using Cons.IH[of ts] Cons.prems \<open>st = t # ts\<close> False dd by simp
        qed
      qed
    next
      case False
      with nz Cons.prems have "proper x" by (auto simp: proper_def)
      with Cons.prems have "canonical r (rev (x # st))" by (simp add: canonical_snoc_proper)
      then show ?thesis using Cons.IH[of "x # st"] Cons.prems nz False by simp
    qed
  qed
qed

lemma elems_canonical: "canonical (rooted p) (elems p)"
  unfolding elems_def
  by (rule clean_segs_canonical) (auto simp: canonical_proper dest: Split_no_sep)

lemma canonical_no_slash:
  assumes "canonical r xs" "x \<in> set xs" shows "slash \<notin> set x \<and> x \<noteq> [] \<and> x \<noteq> dot"
proof -
  from assms(1) obtain n ys where e: "xs = replicate n dotdot @ ys" "\<forall>y \<in> set ys. proper y"
    by (rule canonicalE)
  with assms(2) have "x = dotdot \<or> proper x" by (auto simp only: set_append in_set_replicate Un_iff)
  then show ?thesis by (auto simp: proper_def)
qed

lemma clean_segs_proper:
  "\<forall>x \<in> set xs. proper x \<Longrightarrow> clean_segs r st xs = rev st @ xs"
  by (induction xs arbitrary: st) (auto simp: proper_def)

lemma clean_segs_dotdots:
  "clean_segs False (replicate m dotdot) (replicate n dotdot @ ys)
   = clean_segs False (replicate (m + n) dotdot) ys"
proof (induction n arbitrary: m)
  case 0
  then show ?case by simp
next
  case (Suc n)
  have "clean_segs False (replicate m dotdot) (dotdot # zs) = clean_segs False (replicate (Suc m) dotdot) zs" for zs
    by (cases m) simp_all
  with Suc[of "Suc m"] show ?case by simp
qed

lemma clean_segs_id: "canonical r xs \<Longrightarrow> clean_segs r [] xs = xs"
proof -
  assume c: "canonical r xs"
  then obtain n ys where e: "xs = replicate n dotdot @ ys" "\<forall>y \<in> set ys. proper y" "r \<longrightarrow> n = 0"
    by (auto elim!: canonicalE)
  show ?thesis
  proof (cases r)
    case True
    with e show ?thesis by (simp add: clean_segs_proper)
  next
    case False
    with e clean_segs_dotdots[of 0 n ys] show ?thesis
      by (simp add: clean_segs_proper)
  qed
qed

lemma rooted_Join:
  assumes "canonical False xs" "xs \<noteq> []" shows "\<not> rooted (Join xs slash)"
proof -
  obtain x ys where xs: "xs = x # ys" using assms(2) by (cases xs) auto
  with assms(1) have x: "x \<noteq> []" "slash \<notin> set x" using canonical_no_slash[of False xs x] by auto
  then obtain c t where "x = c # t" "c \<noteq> slash" by (cases x) auto
  then show ?thesis using xs by (cases ys) auto
qed

lemma rooted_build: "canonical r xs \<Longrightarrow> rooted (build r xs) = r"
  by (cases r) (auto simp: build_def rooted_Join)

lemma elems_build:
  assumes "canonical r xs" shows "elems (build r xs) = xs"
proof -
  have r: "rooted (build r xs) = r" by (rule rooted_build[OF assms])
  have ns: "\<forall>x \<in> set xs. slash \<notin> set x" using canonical_no_slash[OF assms] by blast
  show ?thesis
  proof (cases "xs = []")
    case True
    then show ?thesis by (cases r) (simp_all add: elems_def build_def)
  next
    case False
    have "Split (Join xs slash) slash = xs" by (rule Split_Join[OF False ns])
    then show ?thesis using r False clean_segs_id[OF assms]
      by (cases r) (simp_all add: elems_def build_def)
  qed
qed

theorem path_Clean_idem [simp]: "path_Clean (path_Clean p) = path_Clean p"
  using elems_canonical[of p] by (simp add: path_Clean_def rooted_build elems_build)

lemma elems_path_Clean [simp]: "elems (path_Clean p) = elems p"
  using elems_canonical[of p] by (simp add: path_Clean_def elems_build)

lemma rooted_path_Clean [simp]: "rooted (path_Clean p) = rooted p"
  using elems_canonical[of p] by (simp add: path_Clean_def rooted_build)

lemma path_Clean_eq_iff: "path_Clean p = path_Clean q \<longleftrightarrow> rooted p = rooted q \<and> elems p = elems q"
proof
  assume e: "path_Clean p = path_Clean q"
  from arg_cong[OF e, of rooted] arg_cong[OF e, of elems]
  show "rooted p = rooted q \<and> elems p = elems q" by simp
qed (simp add: path_Clean_def)

lemma path_Clean_ne [simp]: "path_Clean p \<noteq> []"
proof (cases "rooted p")
  case True
  then show ?thesis by (simp add: path_Clean_def build_def)
next
  case False
  show ?thesis
  proof (cases "elems p")
    case Nil
    with False show ?thesis by (simp add: path_Clean_def build_def)
  next
    case (Cons x xs)
    then have "x \<noteq> []" using canonical_no_slash[OF elems_canonical, of x p] by simp
    with Cons False show ?thesis by (cases xs) (auto simp: path_Clean_def build_def)
  qed
qed

text \<open>A proper name joined to a directory is one more element.\<close>

lemma clean_segs_snoc: "proper n \<Longrightarrow> clean_segs r st (xs @ [n]) = clean_segs r st xs @ [n]"
  by (induction r st xs rule: clean_segs.induct) (auto simp: proper_def split: list.splits)

lemma elems_child:
  assumes "rooted a" "proper n"
  shows "elems (path_Join [a, n]) = elems a @ [n]"
proof -
  have "Split (a @ slash # n) slash = Split a slash @ [n]"
    using assms(2) by (simp add: Split_snoc Split_single proper_def)
  moreover have "rooted (a @ slash # n)" using assms(1) by (cases a) simp_all
  ultimately have "elems (a @ slash # n) = elems a @ [n]"
    using assms by (simp add: elems_def clean_segs_snoc)
  moreover have "a \<noteq> []" "n \<noteq> []" using assms by (cases a; simp add: proper_def)+
  ultimately show ?thesis by (simp add: path_Join_def)
qed

text \<open>Cleaning introduces no byte that was not there, other than \<open>.\<close> for the empty path.\<close>

lemma clean_segs_set: "x \<in> set (clean_segs r st xs) \<Longrightarrow> x \<in> set st \<union> set xs"
  by (induction r st xs rule: clean_segs.induct) (auto split: if_splits list.splits)

lemma set_elems: "x \<in> set (elems p) \<Longrightarrow> set x \<subseteq> set p"
proof -
  assume "x \<in> set (elems p)"
  then have x: "x \<in> set (Split p slash)"
    unfolding elems_def using clean_segs_set[of x _ "[]"] by fastforce
  have "set x \<subseteq> set s" if "x \<in> set (Split s c)" for s c
  proof -
    have "\<forall>y \<in> set (Split s c). set y \<subseteq> set s"
      by (induction s) (force split: if_splits list.splits)+
    with that show ?thesis by blast
  qed
  with x show ?thesis by blast
qed

lemma set_path_Clean: "set (path_Clean p) \<subseteq> set p \<union> {slash, CHR ''.''}"
  using set_Join[of "elems p" slash] set_elems[of _ p]
  by (fastforce simp: path_Clean_def build_def split: if_splits)

subsection \<open>Rejecting traversal\<close>

text \<open>
  The test the program makes on a cleaned, unrooted path (not \<open>.\<close>, not \<open>..\<close>, no prefix \<open>../\<close>)
  holds exactly when there is at least one element and every element is proper.
\<close>

lemma unrooted_elems_proper:
  assumes "\<not> rooted p" "path_Clean p \<noteq> dotdot" "\<not> HasPrefix (path_Clean p) ''../''"
  shows "\<forall>x \<in> set (elems p). proper x"
proof -
  from elems_canonical[of p] obtain n ys where
    e: "elems p = replicate n dotdot @ ys" and ys: "\<forall>y \<in> set ys. proper y"
    by (rule canonicalE)
  have "n = 0"
  proof (rule ccontr)
    assume "n \<noteq> 0"
    then obtain m where n: "n = Suc m" by (cases n) auto
    have c: "path_Clean p = Join (dotdot # replicate m dotdot @ ys) slash"
      using assms(1) e n by (simp add: path_Clean_def build_def)
    show False
    proof (cases "replicate m dotdot @ ys = []")
      case True
      then show False using c assms(2) by simp
    next
      case False
      then have "path_Clean p = dotdot @ slash # Join (replicate m dotdot @ ys) slash"
        using c Join_Cons by simp
      then show False using assms(3) by simp
    qed
  qed
  with e ys show ?thesis by simp
qed

lemma safe_elems_no_dotdot:
  assumes "\<not> rooted p" "path_Clean p \<noteq> dot" "path_Clean p \<noteq> dotdot"
    "\<not> HasPrefix (path_Clean p) ''../''"
  shows "elems p \<noteq> [] \<and> (\<forall>x \<in> set (elems p). proper x) \<and> path_Clean p = Join (elems p) slash"
  using assms unrooted_elems_proper[OF assms(1,3,4)]
  by (auto simp: path_Clean_def build_def split: if_splits)

lemma Split_path_Clean:
  assumes "\<not> rooted p" "elems p \<noteq> []"
  shows "Split (path_Clean p) slash = elems p"
  using assms canonical_no_slash[OF elems_canonical, of _ p]
  by (simp add: path_Clean_def build_def Split_Join)

subsection \<open>filepath.Rel\<close>

text \<open>
  The elements \<open>Rel\<close> compares: those of the cleaned path, except that a target \<open>.\<close> under another
  base counts as an element and a base \<open>.\<close> counts as none.
\<close>

fun drop_common :: "string list \<Rightarrow> string list \<Rightarrow> string list \<times> string list" where
  "drop_common (b # bs) (t # ts) = (if b = t then drop_common bs ts else (b # bs, t # ts))"
| "drop_common bs ts = (bs, ts)"

definition targ_elems :: "string \<Rightarrow> string list" where
  "targ_elems t = (if path_Clean t = dot then [dot] else elems t)"

definition path_Rel :: "string \<Rightarrow> string \<Rightarrow> (unit, string) result" where
  "path_Rel base targ =
     (if path_Clean targ = path_Clean base then Inr dot
      else if rooted base \<noteq> rooted targ then Inl ()
      else (case drop_common (elems base) (targ_elems targ) of
              ([], ts) \<Rightarrow> Inr (Join ts slash)
            | (b # bs, ts) \<Rightarrow>
                if b = dotdot then Inl ()
                else Inr (Join (replicate (length (b # bs)) dotdot @ ts) slash)))"

text \<open>The check made on the result: the candidate is the base or lies below it.\<close>
definition rel_inside :: "(unit, string) result \<Rightarrow> bool" where
  "rel_inside r = (case r of
       Inl _ \<Rightarrow> False
     | Inr rel \<Rightarrow> rel = dot \<or> (rel \<noteq> dotdot \<and> \<not> HasPrefix rel ''../''))"

lemma drop_common_prefix: "drop_common bs ts = ([], us) \<longleftrightarrow> ts = bs @ us"
  by (induction bs ts rule: drop_common.induct) auto

lemma drop_common_rest:
  "drop_common bs ts = (c # cs, us) \<Longrightarrow> \<not> prefix bs ts \<and> suffix us ts"
proof (induction bs ts rule: drop_common.induct)
  case (1 b bs t ts)
  then show ?case by (auto split: if_splits simp: suffix_ConsI)
qed auto

lemma Join_dotdots_outside:
  "Join (dotdot # xs) slash = dotdot \<or> HasPrefix (Join (dotdot # xs) slash) ''../''"
  by (cases xs) auto

text \<open>A path whose first element is proper neither is nor starts with \<open>..\<close>.\<close>

lemma proper_head_inside:
  assumes "proper x"
  shows "Join (x # xs) slash \<noteq> dotdot" "\<not> HasPrefix (Join (x # xs) slash) ''../''"
proof -
  have x: "x \<noteq> []" "x \<noteq> dotdot" "slash \<notin> set x" using assms by (auto simp: proper_def)
  have hd: "Split (Join (x # xs) slash) slash = x # (if xs = [] then [] else Split (Join xs slash) slash)"
    using x(3) by (cases "xs = []") (auto simp: Split_single Join_Cons Split_append)
  show "Join (x # xs) slash \<noteq> dotdot"
  proof
    assume "Join (x # xs) slash = dotdot"
    then have "hd (Split (Join (x # xs) slash) slash) = dotdot" by (simp only:) simp
    with hd x(2) show False by (simp only: list.sel)
  qed
  show "\<not> HasPrefix (Join (x # xs) slash) ''../''"
  proof
    assume "HasPrefix (Join (x # xs) slash) ''../''"
    then obtain z where "Join (x # xs) slash = dotdot @ slash # z" by (auto simp: prefix_def)
    then have "hd (Split (Join (x # xs) slash) slash) = dotdot"
      by (simp only: Split_append) simp
    with hd x(2) show False by (simp only: list.sel)
  qed
qed

text \<open>
  For absolute paths the check is exactly: the elements of the root are a prefix of those of the
  candidate.
\<close>

theorem rel_inside_iff:
  assumes "rooted base" "rooted targ"
  shows "rel_inside (path_Rel base targ) \<longleftrightarrow> prefix (elems base) (elems targ)"
proof (cases "path_Clean targ = path_Clean base")
  case True
  then show ?thesis using assms by (simp add: path_Rel_def rel_inside_def path_Clean_eq_iff)
next
  case ne: False
  have t: "targ_elems targ = elems targ"
    using assms(2) by (simp add: targ_elems_def path_Clean_def build_def)
  have pr: "\<forall>x \<in> set (elems q). proper x" if "rooted q" for q
    using elems_canonical[of q] that by (simp add: canonical_rooted)
  show ?thesis
  proof (cases "drop_common (elems base) (elems targ)")
    case (Pair bs ts)
    show ?thesis
    proof (cases bs)
      case Nil
      with Pair have e: "elems targ = elems base @ ts" by (simp add: drop_common_prefix)
      from ne assms e have "ts \<noteq> []" by (auto simp: path_Clean_eq_iff)
      then obtain x xs where ts: "ts = x # xs" by (cases ts) auto
      with e pr[OF assms(2)] have x: "proper x" by auto
      then have "Join ts slash \<noteq> dotdot \<and> \<not> HasPrefix (Join ts slash) ''../''"
        using ts by (auto dest: proper_head_inside)
      with Pair Nil e t ne assms show ?thesis
        by (simp add: path_Rel_def rel_inside_def)
    next
      case (Cons b bs')
      with Pair have "\<not> prefix (elems base) (elems targ)" by (auto dest: drop_common_rest)
      moreover have "\<not> rel_inside (path_Rel base targ)"
        using Pair Cons t ne assms Join_dotdots_outside[of "replicate (length bs') dotdot @ ts"]
        by (auto simp: path_Rel_def rel_inside_def)
      ultimately show ?thesis by simp
    qed
  qed
qed

end
