(* ===== verification/Entities.thy ===== *)
theory Entities
  imports GoPath
begin

section \<open>Persistent model\<close>

text \<open>
  The structs and status constants of \<open>internal/model\<close> and the database they live in.  A status
  column holds one of its package's constants, so it is a datatype with those constants as
  constructors.  A \<open>*time.Time\<close> is a \<open>time option\<close>; a \<open>decimal(5,2)\<close> percentage is its number of
  hundredths.  Field names carry a prefix for the struct they belong to.
\<close>

subsection \<open>Upload tasks\<close>

(* src/internal/model/task.go 6-13 TaskStatus *)
datatype task_status =
    TaskStatusPending
  | TaskStatusRunning
  | TaskStatusSuccess
  | TaskStatusFailed
  | TaskStatusPaused
  | TaskStatusCanceled

(* src/internal/model/task.go 16-64 UploadTask *)
record upload_task =
  task_ID :: nat
  task_FileRecordID :: nat
  task_WatchFolderID :: nat
  task_WatchFolderName :: string
  task_FileName :: string
  task_LocalPath :: string
  task_RemoteName :: string
  task_RemotePath :: string
  task_Status :: task_status
  task_Progress :: int
  task_Speed :: int
  task_RetryCount :: nat
  task_Priority :: int
  task_ErrorMsg :: string
  task_DurationSeconds :: int
  task_StartedAt :: "time option"
  task_FinishedAt :: "time option"
  task_LastStatusAt :: "time option"
  task_LastProgressAt :: "time option"
  task_NextRetryAt :: "time option"
  task_LeaseOwner :: string
  task_LeaseExpiresAt :: "time option"
  task_HeartbeatAt :: "time option"
  task_CancelRequestedAt :: "time option"
  task_CanceledAt :: "time option"
  task_FileSize :: int
  task_FileFingerprint :: string
  task_IdempotencyKey :: "string option"
  task_AccumulatedFailures :: int
  task_CreatedAt :: time
  task_UpdatedAt :: time

subsection \<open>File snapshots\<close>

(* src/internal/model/file_record.go 5-23 FileRecord *)
record file_record =
  fr_ID :: nat
  fr_WatchFolderID :: nat
  fr_LocalPath :: string
  fr_RelativePath :: string
  fr_RemoteName :: string
  fr_RemotePath :: string
  fr_FileSize :: int
  fr_FileModTime :: time
  fr_Fingerprint :: string
  fr_FileHash :: string
  fr_LastSeenAt :: "time option"
  fr_MissingAt :: "time option"
  fr_UploadedAt :: "time option"
  fr_CreatedAt :: time
  fr_UpdatedAt :: time

subsection \<open>Watch folders\<close>

(* src/internal/model/watch_folder.go 6-12 WatchFolderStatus *)
datatype folder_status =
    WatchFolderStatusDetecting
  | WatchFolderStatusWatching
  | WatchFolderStatusStopped
  | WatchFolderStatusPaused
  | WatchFolderStatusError

(* src/internal/model/watch_folder.go 25-31 UploadPathPipelineStep *)
record pipeline_step =
  step_Type :: string
  step_Pattern :: string
  step_Group :: int

(* src/internal/model/watch_folder.go 48-97 WatchFolder *)
record watch_folder =
  wf_ID :: nat
  wf_Name :: string
  wf_LocalPath :: string
  wf_RemoteRouteID :: nat
  wf_RemoteName :: string
  wf_RemotePath :: string
  wf_SyncType :: string
  wf_MaxDepth :: int
  wf_FilterKeywords :: string
  wf_Enabled :: bool
  wf_Status :: folder_status
  wf_LastError :: string
  wf_LastScanAt :: "time option"
  wf_LastScanStartedAt :: "time option"
  wf_LastScanFinishedAt :: "time option"
  wf_LastScanSuccessAt :: "time option"
  wf_LastScanDurationMs :: int
  wf_LastSyncAt :: "time option"
  wf_NextScanAt :: "time option"
  wf_LastActiveAt :: "time option"
  wf_ScanLeaseOwner :: string
  wf_ScanLeaseExpiresAt :: "time option"
  wf_TotalFileCount :: int
  wf_TotalFileSize :: int
  wf_UploadedFileCount :: int
  wf_UploadedBytes :: int
  wf_FailedFileCount :: int
  wf_WindowUploadedFiles :: int
  wf_WindowUploadedBytes :: int
  wf_ScanIntervalSeconds :: int
  wf_PathPipeline :: "pipeline_step list"
  wf_CreatedAt :: time
  wf_UpdatedAt :: time

subsection \<open>Remote routes and their index\<close>

(* src/internal/model/remote_route.go 5-11 RemoteRouteStatus *)
datatype route_status =
    RemoteRouteStatusPending
  | RemoteRouteStatusScanning
  | RemoteRouteStatusReady
  | RemoteRouteStatusError
  | RemoteRouteStatusDisabled

(* src/internal/model/remote_route.go 13-42 RemoteRoute *)
record remote_route =
  rr_ID :: nat
  rr_Name :: string
  rr_RouteKey :: string
  rr_RemoteName :: string
  rr_RemotePath :: string
  rr_Enabled :: bool
  rr_Status :: route_status
  rr_ScanIntervalSeconds :: int
  rr_LastError :: string
  rr_LastScanStartedAt :: "time option"
  rr_LastScanFinishedAt :: "time option"
  rr_LastScanSuccessAt :: "time option"
  rr_LastScanDurationMs :: int
  rr_NextScanAt :: "time option"
  rr_ScanLeaseOwner :: string
  rr_ScanLeaseExpiresAt :: "time option"
  rr_TotalFileCount :: int
  rr_TotalFileSize :: int
  rr_CreatedAt :: time
  rr_UpdatedAt :: time

(* src/internal/model/remote_file_record.go 5-24 RemoteFileRecord *)
record remote_file =
  rf_ID :: nat
  rf_RemoteRouteID :: nat
  rf_PathHash :: string
  rf_Path :: string
  rf_ParentHash :: string
  rf_ParentPath :: string
  rf_Name :: string
  rf_IsDir :: bool
  rf_Size :: int
  rf_ModTime :: "time option"
  rf_MimeType :: string
  rf_LastSeenAt :: "time option"
  rf_MissingAt :: "time option"
  rf_CreatedAt :: time
  rf_UpdatedAt :: time

subsection \<open>Scan runs and logs\<close>

(* src/internal/model/scan_run.go 5-10 ScanRunStatus *)
datatype run_status =
    ScanRunStatusRunning
  | ScanRunStatusSuccess
  | ScanRunStatusFailed
  | ScanRunStatusCanceled

(* src/internal/model/scan_run.go 12-34 ScanRun *)
record scan_run =
  run_ID :: nat
  run_WatchFolderID :: nat
  run_WatchFolderName :: string
  run_Status :: run_status
  run_StartedAt :: time
  run_FinishedAt :: "time option"
  run_DurationMilliseconds :: int
  run_FilesSeen :: int
  run_TotalBytes :: int
  run_FilesUnchanged :: int
  run_FilesStableSkipped :: int
  run_FilesMissing :: int
  run_TasksCreated :: int
  run_ScanErrors :: int
  run_ErrorMessage :: string
  run_CreatedAt :: time

(* src/internal/model/upload_log.go 5-15 UploadLog *)
record upload_log =
  log_TaskID :: nat
  log_Percent :: int
  log_BytesDone :: int
  log_BytesTotal :: int
  log_Speed :: int
  log_Message :: string
  log_CreatedAt :: time

subsection \<open>The database\<close>

text \<open>
  One list of rows per table, in primary-key order, and the next auto-increment keys.  The
  pipeline steps of a watch folder, stored as JSON in a table of their own that every read of a
  folder joins back, are the folder's field \<open>wf_PathPipeline\<close>.
\<close>

record db =
  tasks :: "upload_task list"
  files :: "file_record list"
  folders :: "watch_folder list"
  routes :: "remote_route list"
  remote_files :: "remote_file list"
  scan_runs :: "scan_run list"
  upload_logs :: "upload_log list"
  next_task :: nat
  next_file :: nat
  next_folder :: nat
  next_route :: nat
  next_remote_file :: nat
  next_run :: nat

definition empty_db :: db where
  "empty_db = \<lparr>tasks = [], files = [], folders = [], routes = [], remote_files = [],
     scan_runs = [], upload_logs = [], next_task = 1, next_file = 1, next_folder = 1,
     next_route = 1, next_remote_file = 1, next_run = 1\<rparr>"

(* src/internal/repository/errors.go 10-17 ErrNotFound *)
datatype repo_error =
    ErrNotFound
  | ErrConflict
  | ErrRecordNotFound  \<comment> \<open>\<open>gorm.ErrRecordNotFound\<close>, passed on as it is\<close>
  | ErrDB nat  \<comment> \<open>the database call with this number failed\<close>

subsection \<open>Well-formed tables\<close>

text \<open>What the primary keys and unique indexes of the schema guarantee.\<close>

definition keys_ok :: "db \<Rightarrow> bool" where
  "keys_ok s \<longleftrightarrow>
     distinct (map task_ID (tasks s)) \<and> (\<forall>t \<in> set (tasks s). 0 < task_ID t \<and> task_ID t < next_task s) \<and>
     distinct (map fr_ID (files s)) \<and> (\<forall>f \<in> set (files s). 0 < fr_ID f \<and> fr_ID f < next_file s) \<and>
     distinct (map wf_ID (folders s)) \<and> (\<forall>f \<in> set (folders s). 0 < wf_ID f \<and> wf_ID f < next_folder s) \<and>
     distinct (map rr_ID (routes s)) \<and> (\<forall>r \<in> set (routes s). 0 < rr_ID r \<and> rr_ID r < next_route s) \<and>
     0 < next_task s \<and> 0 < next_file s \<and> 0 < next_folder s \<and> 0 < next_route s"

lemma keys_ok_empty: "keys_ok empty_db"
  by (simp add: keys_ok_def empty_db_def)

text \<open>The rows an index lookup by primary key finds.\<close>

definition task_by :: "nat \<Rightarrow> db \<Rightarrow> upload_task option" where
  "task_by i s = first_where (\<lambda>t. task_ID t = i) (tasks s)"

definition file_by :: "nat \<Rightarrow> db \<Rightarrow> file_record option" where
  "file_by i s = first_where (\<lambda>f. fr_ID f = i) (files s)"

definition folder_by :: "nat \<Rightarrow> db \<Rightarrow> watch_folder option" where
  "folder_by i s = first_where (\<lambda>f. wf_ID f = i) (folders s)"

definition route_by :: "nat \<Rightarrow> db \<Rightarrow> remote_route option" where
  "route_by i s = first_where (\<lambda>r. rr_ID r = i) (routes s)"

lemma task_by_Some: "task_by i s = Some t \<Longrightarrow> t \<in> set (tasks s) \<and> task_ID t = i"
  by (auto simp: task_by_def dest: first_where_Some)

lemma folder_by_Some: "folder_by i s = Some f \<Longrightarrow> f \<in> set (folders s) \<and> wf_ID f = i"
  by (auto simp: folder_by_def dest: first_where_Some)

lemma route_by_Some: "route_by i s = Some r \<Longrightarrow> r \<in> set (routes s) \<and> rr_ID r = i"
  by (auto simp: route_by_def dest: first_where_Some)

lemma task_by_in:
  "distinct (map task_ID (tasks s)) \<Longrightarrow> t \<in> set (tasks s) \<Longrightarrow> task_by (task_ID t) s = Some t"
  unfolding task_by_def by (rule first_where_key)

lemma task_by_update:
  assumes "\<And>t. task_ID (u t) = task_ID t"
  shows "task_by i (s\<lparr>tasks := update_where p u (tasks s)\<rparr>)
       = map_option (\<lambda>t. if p t then u t else t) (task_by i s)"
  using assms by (simp add: task_by_def first_where_update_key)

end
