(* ===== verification/PathPipeline.thy ===== *)
theory PathPipeline
  imports Entities
begin

section \<open>The upload-path pipeline\<close>

text \<open>
  \<open>internal/pathpipeline/pipeline.go\<close>: the validation of the configured steps, their compilation
  and the run of a pipeline on a file name.  The regular-expression engine is a record of the three
  functions the code calls.  The interface \<open>normaliser\<close> states what a validator that returns the
  canonical form promises; \<open>Normalize\<close> is one.  The properties say that a pipeline's directory can
  never leave the remote route.
\<close>

subsection \<open>Validators with a canonical form\<close>

locale normaliser =
  fixes norm :: "'a \<Rightarrow> ('e, 'a) result"
  assumes norm_stable: "norm x = Inr y \<Longrightarrow> norm y = Inr y"
begin

lemma canonical_iff: "(\<exists>x. norm x = Inr y) \<longleftrightarrow> norm y = Inr y"
  using norm_stable by blast

lemma norm_twice: "bind_res (norm x) norm = norm x"
  by (cases "norm x") (auto dest: norm_stable)

lemma same_canonical: "norm x = Inr z \<Longrightarrow> norm y = Inr z \<Longrightarrow> norm (if b then x else y) = Inr z \<and> norm z = Inr z"
  by (auto dest: norm_stable)

end

subsection \<open>The engine and the steps\<close>

text \<open>
  \<open>regexp.Compile\<close>, \<open>NumSubexp\<close> and \<open>FindStringSubmatch\<close>; a match lists the whole match and one
  string per group.
\<close>
record 'p regex_engine =
  rx_Compile :: "string \<Rightarrow> 'p option"
  rx_NumSubexp :: "'p \<Rightarrow> nat"
  rx_FindStringSubmatch :: "'p \<Rightarrow> string \<Rightarrow> string list"

definition maxSteps :: nat where "maxSteps = 16"
definition maxPatternLength :: nat where "maxPatternLength = 4096"
definition maxOutputLength :: nat where "maxOutputLength = 512"

datatype step_error = PatternRequired | PatternTooLong | InvalidPattern | GroupOutOfRange nat

datatype pipeline_error =
    TooManySteps
  | UnsupportedStep nat
  | InvalidStep nat step_error
  | EmptyDirectory
  | UnsafeDirectory
  | OutsideRoute
  | DirectoryTooLong
  | InvalidSegment

(* src/internal/pathpipeline/pipeline.go 105-108 regexExtractStep *)
record 'p regexExtractStep =
  rs_pattern :: 'p
  rs_group :: nat

(* src/internal/pathpipeline/pipeline.go 110-125 compileRegexExtract *)
definition compileRegexExtract ::
    "'p regex_engine \<Rightarrow> pipeline_step \<Rightarrow> (step_error, 'p regexExtractStep) result" where
  "compileRegexExtract rx step =
     (if step_Pattern step = '''' then Inl PatternRequired
      else if length (step_Pattern step) > maxPatternLength then Inl PatternTooLong
      else case rx_Compile rx (step_Pattern step) of
             None \<Rightarrow> Inl InvalidPattern
           | Some p \<Rightarrow>
               if step_Group step < 1 \<or> step_Group step > int (rx_NumSubexp rx p)
               then Inl (GroupOutOfRange (rx_NumSubexp rx p))
               else Inr \<lparr>rs_pattern = p, rs_group = nat (step_Group step)\<rparr>)"

(* src/internal/pathpipeline/pipeline.go 127-133 regexExtractStep.Apply *)
definition Apply_step :: "'p regex_engine \<Rightarrow> 'p regexExtractStep \<Rightarrow> string \<Rightarrow> string option" where
  "Apply_step rx st input =
     (let matches = rx_FindStringSubmatch rx (rs_pattern st) input in
      if length matches \<le> rs_group st then None else Some (matches ! rs_group st))"

(* src/internal/pathpipeline/pipeline.go 28-32 stepCompilers *)
definition stepCompilers ::
    "'p regex_engine \<Rightarrow> string \<Rightarrow> (pipeline_step \<Rightarrow> (step_error, 'p regexExtractStep) result) option" where
  "stepCompilers rx ty = (if ty = ''regex_extract'' then Some (compileRegexExtract rx) else None)"

fun normalize_steps ::
    "'p regex_engine \<Rightarrow> nat \<Rightarrow> pipeline_step list \<Rightarrow> (pipeline_error, pipeline_step list) result" where
  "normalize_steps rx index [] = Inr []"
| "normalize_steps rx index (step # steps) =
     (let step' = step\<lparr>step_Type := TrimSpace (step_Type step), step_Pattern := TrimSpace (step_Pattern step)\<rparr>
      in case stepCompilers rx (step_Type step') of
           None \<Rightarrow> Inl (UnsupportedStep (index + 1))
         | Some compiler \<Rightarrow>
             (case compiler step' of
                Inl e \<Rightarrow> Inl (InvalidStep (index + 1) e)
              | Inr _ \<Rightarrow> bind_res (normalize_steps rx (index + 1) steps) (\<lambda>rest. Inr (step' # rest))))"

(* src/internal/pathpipeline/pipeline.go 40-63 Normalize *)
definition Normalize ::
    "'p regex_engine \<Rightarrow> pipeline_step list \<Rightarrow> (pipeline_error, pipeline_step list) result" where
  "Normalize rx steps =
     (if length steps > maxSteps then Inl TooManySteps
      else if steps = [] then Inr [] else normalize_steps rx 0 steps)"

fun compile_steps ::
    "'p regex_engine \<Rightarrow> pipeline_step list \<Rightarrow> (pipeline_error, 'p regexExtractStep list) result" where
  "compile_steps rx [] = Inr []"
| "compile_steps rx (step # steps) =
     (case stepCompilers rx (step_Type step) of
        None \<Rightarrow> Inl (UnsupportedStep 0)
      | Some compiler \<Rightarrow>
          (case compiler step of
             Inl e \<Rightarrow> Inl (InvalidStep 0 e)
           | Inr item \<Rightarrow> bind_res (compile_steps rx steps) (\<lambda>rest. Inr (item # rest))))"

(* src/internal/pathpipeline/pipeline.go 65-82 Compile *)
definition Compile_pipeline ::
    "'p regex_engine \<Rightarrow> pipeline_step list \<Rightarrow> (pipeline_error, 'p regexExtractStep list) result" where
  "Compile_pipeline rx steps = bind_res (Normalize rx steps) (compile_steps rx)"

definition byte0 :: char where "byte0 = char_of (0::nat)"

(* src/internal/pathpipeline/pipeline.go 135-156 normalizeOutput *)
definition normalizeOutput :: "string \<Rightarrow> (pipeline_error, string) result" where
  "normalizeOutput raw =
     (let value = TrimSpace (ReplaceByte (CHR 0x5C) slash raw) in
      if value = '''' then Inl EmptyDirectory
      else if byte0 \<in> set value \<or> HasPrefix value ''/'' then Inl UnsafeDirectory
      else let cleaned = path_Clean value in
        if cleaned = ''.'' \<or> cleaned = ''..'' \<or> HasPrefix cleaned ''../'' then Inl OutsideRoute
        else if length cleaned > maxOutputLength then Inl DirectoryTooLong
        else if list_ex (\<lambda>segment. segment = '''' \<or> segment = ''.'' \<or> segment = ''..'' \<or> length segment > 255)
                  (Split cleaned slash)
        then Inl InvalidSegment
        else Inr cleaned)"

fun run_steps :: "'p regex_engine \<Rightarrow> 'p regexExtractStep list \<Rightarrow> string \<Rightarrow> string option" where
  "run_steps rx [] v = Some v"
| "run_steps rx (st # sts) v = (case Apply_step rx st v of None \<Rightarrow> None | Some v' \<Rightarrow> run_steps rx sts v')"

text \<open>\<open>Inr None\<close>: no match, the scanner keeps its normal target.\<close>
(* src/internal/pathpipeline/pipeline.go 84-103 Pipeline.Resolve *)
definition Resolve ::
    "'p regex_engine \<Rightarrow> 'p regexExtractStep list \<Rightarrow> string \<Rightarrow> (pipeline_error, string option) result" where
  "Resolve rx steps fileName =
     (if steps = [] then Inr None
      else case run_steps rx steps fileName of
             None \<Rightarrow> Inr None
           | Some value \<Rightarrow> bind_res (normalizeOutput value) (\<lambda>d. Inr (Some d)))"

subsection \<open>Normalisation\<close>

lemma normalize_steps_stable:
  "normalize_steps rx k steps = Inr steps' \<Longrightarrow>
     normalize_steps rx j steps' = Inr steps' \<and> length steps' = length steps"
  by (induction steps arbitrary: k j steps')
    (auto simp: Let_def bind_res_Inr split: option.splits sum.splits)

lemma normalize_steps_compiles:
  "normalize_steps rx k steps = Inr steps' \<Longrightarrow> \<exists>items. compile_steps rx steps' = Inr items"
  by (induction steps arbitrary: k steps')
    (force simp: Let_def bind_res_Inr split: option.splits sum.splits)+

interpretation pn: normaliser "Normalize rx" for rx
proof
  show "Normalize rx x = Inr y \<Longrightarrow> Normalize rx y = Inr y" for x y
    using normalize_steps_stable[of rx 0 x y 0] by (auto simp: Normalize_def split: if_splits)
qed

subsection \<open>Properties\<close>

text \<open>
  C30: Validation gives a canonical form that is stable under validation, has at most 16 steps, and
  always compiles: compiling a configuration fails exactly when validating it does, so a stored
  pipeline can never fail a later scan at compile time.
\<close>
theorem Normalize_canonical:
  shows "bind_res (Normalize rx steps) (Normalize rx) = Normalize rx steps
    \<and> ok (Compile_pipeline rx steps) = ok (Normalize rx steps)
    \<and> (case Normalize rx steps of Inl _ \<Rightarrow> True | Inr steps' \<Rightarrow> length steps' = length steps \<and> length steps' \<le> 16)"
proof (intro conjI)
  show "bind_res (Normalize rx steps) (Normalize rx) = Normalize rx steps" by (rule pn.norm_twice)
  show "ok (Compile_pipeline rx steps) = ok (Normalize rx steps)"
  proof (cases "Normalize rx steps")
    case (Inr steps')
    have "\<exists>items. compile_steps rx steps' = Inr items"
      using Inr normalize_steps_compiles[of rx 0 steps steps']
      by (auto simp: Normalize_def split: if_splits)
    with Inr show ?thesis by (auto simp: Compile_pipeline_def)
  qed (simp add: Compile_pipeline_def)
  show "case Normalize rx steps of Inl _ \<Rightarrow> True | Inr steps' \<Rightarrow> length steps' = length steps \<and> length steps' \<le> 16"
    using normalize_steps_stable[of rx 0 steps]
    by (auto simp: Normalize_def maxSteps_def split: sum.split)
qed

lemma normalizeOutput_safe:
  assumes "normalizeOutput raw = Inr d"
  obtains segs where "segs \<noteq> []" "\<forall>x \<in> set segs. proper x \<and> length x \<le> 255 \<and> byte0 \<notin> set x \<and> CHR 0x5C \<notin> set x"
    "d = Join segs slash" "length d \<le> 512" "path_Clean d = d" "elems d = segs" "\<not> rooted d"
proof -
  define v where "v = TrimSpace (ReplaceByte (CHR 0x5C) slash raw)"
  have ok: "v \<noteq> ''''" "byte0 \<notin> set v" "\<not> HasPrefix v ''/''"
    "path_Clean v \<noteq> dot" "path_Clean v \<noteq> dotdot" "\<not> HasPrefix (path_Clean v) ''../''"
    "length (path_Clean v) \<le> 512" "d = path_Clean v"
    "\<not> list_ex (\<lambda>s. s = '''' \<or> s = dot \<or> s = dotdot \<or> length s > 255) (Split (path_Clean v) slash)"
    using assms by (auto simp: normalizeOutput_def Let_def v_def maxOutputLength_def split: if_splits)
  have nr: "\<not> rooted v" using ok(3) by (cases v) auto
  from safe_elems_no_dotdot[OF nr ok(4-6)] have e: "elems v \<noteq> []" "\<forall>x \<in> set (elems v). proper x"
    "path_Clean v = Join (elems v) slash" by auto
  have "CHR 0x5C \<notin> set v"
    using set_TrimSpace[of "ReplaceByte (CHR 0x5C) slash raw"] ReplaceByte_gone[of "CHR 0x5C" slash raw]
    by (auto simp: v_def)
  moreover have "length x \<le> 255" if "x \<in> set (elems v)" for x
    using ok(9) that Split_path_Clean[OF nr e(1)] by (auto simp: list_ex_iff not_less)
  ultimately have "\<forall>x \<in> set (elems v). proper x \<and> length x \<le> 255 \<and> byte0 \<notin> set x \<and> CHR 0x5C \<notin> set x"
    using e(2) set_elems[of _ v] ok(2) by blast
  then show thesis
  proof (rule that[OF e(1)])
    show "d = Join (elems v) slash" using ok(8) e(3) by (rule trans)
    show "path_Clean d = d" "elems d = elems v" "\<not> rooted d" "length d \<le> 512"
      unfolding ok(8) using nr ok(7) by simp_all
  qed
qed

text \<open>
  C31: Whatever the regular expressions extract from a file name, the directory a pipeline yields is a
  clean relative path of at most 512 bytes: a non-empty sequence of segments, none of them empty,
  \<open>.\<close>, \<open>..\<close> or longer than 255 bytes, with no NUL and no backslash; so it lies below the route it
  is inserted under.
\<close>
theorem Resolve_stays_below_route:
  assumes "Resolve rx steps fileName = Inr (Some d)"
  shows "\<exists>segs. segs \<noteq> [] \<and> d = Join segs slash \<and> length d \<le> 512 \<and> path_Clean d = d
    \<and> (\<forall>x \<in> set segs. x \<noteq> '''' \<and> x \<noteq> ''.'' \<and> x \<noteq> ''..'' \<and> slash \<notin> set x \<and> length x \<le> 255
         \<and> byte0 \<notin> set x \<and> CHR 0x5C \<notin> set x)"
proof -
  from assms obtain v where "normalizeOutput v = Inr d"
    by (auto simp: Resolve_def bind_res_Inr split: if_splits option.splits)
  then show ?thesis
    by (rule normalizeOutput_safe) (auto simp: proper_def)
qed

definition demo_engine :: "string regex_engine" where
  "demo_engine = \<lparr>rx_Compile = Some, rx_NumSubexp = (\<lambda>_. 1), rx_FindStringSubmatch = (\<lambda>p s. [s, p])\<rparr>"

theorem Resolve_stays_below_route_witness:
  "Resolve demo_engine [\<lparr>rs_pattern = ''2024//05/./x/..'', rs_group = 1\<rparr>] ''a.txt'' = Inr (Some ''2024/05'')
   \<and> path_Clean ''2024/05'' = ''2024/05''"
proof -
  have r: "Resolve demo_engine [\<lparr>rs_pattern = ''2024//05/./x/..'', rs_group = 1\<rparr>] ''a.txt'' = Inr (Some ''2024/05'')"
    by code_simp
  from Resolve_stays_below_route[OF r] r show ?thesis by blast
qed

end
