(* ===== verification/ResourcePolicy.thy ===== *)
theory ResourcePolicy
  imports PathPipeline
begin

section \<open>The resource policy\<close>

text \<open>
  \<open>internal/security/policy.go\<close>: the allowlists that confine local files and rclone destinations.
  The file system is a record of the calls made (working directory, symbolic-link resolution, stat).
  The properties say that an accepted local path lies below an allowed root element by element, that
  an accepted remote path cannot traverse upwards, and what the effective remote allowlist is.
\<close>

datatype file_kind = Directory | Regular | Special

text \<open>\<open>os.Getwd\<close>, \<open>filepath.EvalSymlinks\<close> and \<open>os.Stat\<close>.\<close>
record os =
  os_Getwd :: "string option"
  os_EvalSymlinks :: "string \<Rightarrow> string option"
  os_Stat :: "string \<Rightarrow> file_kind option"

definition filepath_Abs :: "os \<Rightarrow> string \<Rightarrow> string option" where
  "filepath_Abs fs p =
     (if rooted p then Some (path_Clean p)
      else case os_Getwd fs of None \<Rightarrow> None | Some wd \<Rightarrow> Some (path_Join [wd, p]))"

(* src/internal/security/policy.go 12-17 ResourcePolicy *)
record resource_policy =
  pol_enforce :: bool
  pol_localRoots :: "string list"
  pol_allowedRemotes :: "string list"

datatype policy_error =
    RootUnresolved string
  | RootSymlinks string
  | RootNotDirectory string
  | NoLocalRoots
  | NoRemotes
  | InvalidLocalPath
  | ResolveLocal
  | ResolveLocalSymlinks
  | StatLocal
  | NotDirectory
  | NotRegular
  | OutsideRoots
  | InvalidRemoteName
  | RemoteNotAllowed string
  | InvalidRemotePath
  | RemoteTraversal
  | MissingRemotes "string list"

fun resolve_roots :: "os \<Rightarrow> bool \<Rightarrow> string list \<Rightarrow> (policy_error, string list) result" where
  "resolve_roots fs enforce [] = Inr []"
| "resolve_roots fs enforce (root # roots) =
     (if TrimSpace root = '''' then resolve_roots fs enforce roots
      else case filepath_Abs fs (path_Clean root) of
        None \<Rightarrow> Inl (RootUnresolved root)
      | Some absolute \<Rightarrow>
          (case os_EvalSymlinks fs absolute of
             None \<Rightarrow> if \<not> enforce then resolve_roots fs enforce roots else Inl (RootSymlinks root)
           | Some resolved \<Rightarrow>
               if os_Stat fs resolved \<noteq> Some Directory
               then (if \<not> enforce then resolve_roots fs enforce roots else Inl (RootNotDirectory root))
               else bind_res (resolve_roots fs enforce roots) (\<lambda>rs. Inr (path_Clean resolved # rs))))"

(* src/internal/security/policy.go 19-58 NewResourcePolicy *)
definition NewResourcePolicy ::
    "os \<Rightarrow> bool \<Rightarrow> string list \<Rightarrow> string list \<Rightarrow> (policy_error, resource_policy) result" where
  "NewResourcePolicy fs enforce roots remotes =
     bind_res (resolve_roots fs enforce roots) (\<lambda>rs.
       let allowed = filter (\<lambda>r. r \<noteq> '''') (map TrimSpace remotes) in
       if enforce \<and> rs = [] then Inl NoLocalRoots
       else if enforce \<and> allowed = [] then Inl NoRemotes
       else Inr \<lparr>pol_enforce = enforce, pol_localRoots = rs, pol_allowedRemotes = allowed\<rparr>)"

text \<open>The loop that trims, drops empty names and keeps the first of equal names.\<close>
fun trimmed_unique :: "string list \<Rightarrow> string list \<Rightarrow> string list" where
  "trimmed_unique seen [] = []"
| "trimmed_unique seen (name # names) =
     (let n = TrimSpace name in
      if n = '''' \<or> n \<in> set seen then trimmed_unique seen names
      else n # trimmed_unique (n # seen) names)"

(* src/internal/security/policy.go 60-104 ResolveAllowedRemotes *)
definition ResolveAllowedRemotes :: "string list \<Rightarrow> string list \<Rightarrow> (policy_error, string list) result" where
  "ResolveAllowedRemotes explicit discovered =
     (let available = trimmed_unique [] discovered in
      if explicit = [] then Inr available
      else let wanted = trimmed_unique [] explicit;
               missing = filter (\<lambda>n. n \<notin> set available) wanted
           in if missing \<noteq> [] then Inl (MissingRemotes missing)
              else Inr (filter (\<lambda>n. n \<in> set available) wanted))"

(* src/internal/security/policy.go 114-132 ResourcePolicy.ValidateRemote *)
definition ValidateRemote ::
    "resource_policy option \<Rightarrow> string \<Rightarrow> string \<Rightarrow> (policy_error, string) result" where
  "ValidateRemote p remoteName0 remotePath =
     (let remoteName = TrimSpace remoteName0 in
      if remoteName = '''' \<or> length remoteName > 255 \<or> ContainsAny remoteName [CHR '':'', byte0, byte 13, byte 10]
      then Inl InvalidRemoteName
      else if (case p of None \<Rightarrow> False | Some pol \<Rightarrow> pol_enforce pol \<and> remoteName \<notin> set (pol_allowedRemotes pol))
      then Inl (RemoteNotAllowed remoteName)
      else if length remotePath = 0 \<or> length remotePath > 1024 \<or> ContainsAny remotePath [byte0, byte 13, byte 10]
      then Inl InvalidRemotePath
      else let normalized = path_Clean (TrimPrefix (ReplaceByte (CHR 0x5C) slash remotePath) ''/'') in
        if normalized = ''.'' \<or> normalized = ''..'' \<or> HasPrefix normalized ''../'' then Inl RemoteTraversal
        else Inr normalized)"

(* src/internal/security/policy.go 163-174 ResourcePolicy.withinAllowedRoot *)
definition withinAllowedRoot :: "resource_policy \<Rightarrow> string \<Rightarrow> bool" where
  "withinAllowedRoot p candidate = list_ex (\<lambda>root. rel_inside (path_Rel root candidate)) (pol_localRoots p)"

(* src/internal/security/policy.go 134-161 ResourcePolicy.validateLocal *)
definition validateLocal ::
    "os \<Rightarrow> resource_policy option \<Rightarrow> string \<Rightarrow> bool \<Rightarrow> (policy_error, string) result" where
  "validateLocal fs p input requireDirectory =
     (if TrimSpace input = '''' \<or> length input > 4096 \<or> byte0 \<in> set input then Inl InvalidLocalPath
      else case filepath_Abs fs (path_Clean input) of
        None \<Rightarrow> Inl ResolveLocal
      | Some absolute \<Rightarrow>
          (case os_EvalSymlinks fs absolute of
             None \<Rightarrow> Inl ResolveLocalSymlinks
           | Some resolved \<Rightarrow>
               (case os_Stat fs resolved of
                  None \<Rightarrow> Inl StatLocal
                | Some kind \<Rightarrow>
                    if requireDirectory \<and> kind \<noteq> Directory then Inl NotDirectory
                    else if \<not> requireDirectory \<and> kind \<noteq> Regular then Inl NotRegular
                    else let resolved' = path_Clean resolved in
                      if (case p of None \<Rightarrow> False | Some pol \<Rightarrow> pol_enforce pol \<and> \<not> withinAllowedRoot pol resolved')
                      then Inl OutsideRoots else Inr resolved')))"

(* src/internal/security/policy.go 106-108 ResourcePolicy.ValidateLocalFile *)
definition ValidateLocalFile :: "os \<Rightarrow> resource_policy option \<Rightarrow> string \<Rightarrow> (policy_error, string) result" where
  "ValidateLocalFile fs p input = validateLocal fs p input False"

(* src/internal/security/policy.go 110-112 ResourcePolicy.ValidateLocalDirectory *)
definition ValidateLocalDirectory :: "os \<Rightarrow> resource_policy option \<Rightarrow> string \<Rightarrow> (policy_error, string) result" where
  "ValidateLocalDirectory fs p input = validateLocal fs p input True"

(* src/internal/security/policy.go 176-181 ResourcePolicy.AllowedLocalRoots *)
definition AllowedLocalRoots :: "resource_policy option \<Rightarrow> string list" where
  "AllowedLocalRoots p = (case p of None \<Rightarrow> [] | Some pol \<Rightarrow> pol_localRoots pol)"

(* src/internal/security/policy.go 183-189 ResourcePolicy.AllowsRemote *)
definition AllowsRemote :: "resource_policy option \<Rightarrow> string \<Rightarrow> bool" where
  "AllowsRemote p name =
     (case p of None \<Rightarrow> True | Some pol \<Rightarrow> \<not> pol_enforce pol \<or> name \<in> set (pol_allowedRemotes pol))"

subsection \<open>Lemmas\<close>

lemma rooted_Abs: "filepath_Abs fs p = Some q \<Longrightarrow> (\<And>wd. os_Getwd fs = Some wd \<Longrightarrow> rooted wd) \<Longrightarrow> rooted q"
proof -
  assume a: "filepath_Abs fs p = Some q" and wd: "\<And>wd. os_Getwd fs = Some wd \<Longrightarrow> rooted wd"
  show "rooted q"
  proof (cases "rooted p")
    case True
    with a show ?thesis by (auto simp: filepath_Abs_def)
  next
    case False
    with a obtain w where w: "os_Getwd fs = Some w" "q = path_Join [w, p]"
      by (auto simp: filepath_Abs_def split: option.splits)
    from wd[OF w(1)] obtain t where t: "w = slash # t" by (cases w) auto
    have "rooted (Join (filter (\<lambda>p. p \<noteq> []) [w, p]) slash)" by (simp add: t)
    with w t show ?thesis by (simp add: path_Join_def del: Join.simps)
  qed
qed

definition honest_os :: "os \<Rightarrow> bool" where
  "honest_os fs \<longleftrightarrow> (\<forall>wd. os_Getwd fs = Some wd \<longrightarrow> rooted wd)
     \<and> (\<forall>p q. rooted p \<longrightarrow> os_EvalSymlinks fs p = Some q \<longrightarrow> rooted q)"

lemma honest_resolved:
  "honest_os fs \<Longrightarrow> filepath_Abs fs p = Some a \<Longrightarrow> os_EvalSymlinks fs a = Some r \<Longrightarrow> rooted r"
  using rooted_Abs[of fs p a] by (auto simp: honest_os_def)

lemma resolve_roots_rooted:
  "honest_os fs \<Longrightarrow> resolve_roots fs enforce roots = Inr rs \<Longrightarrow> r \<in> set rs \<Longrightarrow> rooted r"
proof (induction roots arbitrary: rs)
  case (Cons root roots)
  then show ?case
    by (auto simp: bind_res_Inr split: if_splits option.splits) (metis honest_resolved)+
qed simp

lemma NewResourcePolicy_rooted:
  "honest_os fs \<Longrightarrow> NewResourcePolicy fs enforce roots remotes = Inr p \<Longrightarrow> r \<in> set (pol_localRoots p) \<Longrightarrow> rooted r"
  by (auto simp: NewResourcePolicy_def bind_res_Inr Let_def split: if_splits intro: resolve_roots_rooted)

lemma set_trimmed_unique:
  "set (trimmed_unique seen names) = {n \<in> TrimSpace ` set names. n \<noteq> '''' \<and> n \<notin> set seen}"
  by (induction names arbitrary: seen) (auto simp: Let_def)

lemma distinct_trimmed_unique: "distinct (trimmed_unique seen names)"
  by (induction names arbitrary: seen) (auto simp: Let_def set_trimmed_unique)

lemma ContainsAny_set: "ContainsAny s cs \<longleftrightarrow> (\<exists>c \<in> set cs. c \<in> set s)"
  by (auto simp: ContainsAny_def list_ex_iff)

subsection \<open>Properties\<close>

lemma accepted_path_confined:
  assumes "honest_os fs" "NewResourcePolicy fs True roots remotes = Inr pol"
    and "validateLocal fs (Some pol) input dir = Inr r"
  shows "rooted r" "path_Clean r = r" "\<exists>root \<in> set (pol_localRoots pol). prefix (elems root) (elems r)"
    "\<exists>a q. filepath_Abs fs (path_Clean input) = Some a \<and> os_EvalSymlinks fs a = Some q \<and> r = path_Clean q
       \<and> os_Stat fs q = Some (if dir then Directory else Regular)"
proof -
  have enf: "pol_enforce pol"
    using assms(2) by (auto simp: NewResourcePolicy_def bind_res_Inr Let_def split: if_splits)
  obtain a q k where q: "filepath_Abs fs (path_Clean input) = Some a" "os_EvalSymlinks fs a = Some q"
    "os_Stat fs q = Some k" "k = (if dir then Directory else Regular)" "r = path_Clean q" "withinAllowedRoot pol r"
    using assms(3) enf by (auto simp: validateLocal_def Let_def split: if_splits option.splits)
  show r: "rooted r" using honest_resolved[OF assms(1) q(1,2)] by (simp add: q(5))
  show "path_Clean r = r" by (simp add: q(5))
  obtain root where "root \<in> set (pol_localRoots pol)" "rel_inside (path_Rel root r)"
    using q(6) by (auto simp: withinAllowedRoot_def list_ex_iff)
  moreover from this(1) have "rooted root" using NewResourcePolicy_rooted[OF assms(1,2)] by blast
  ultimately show "\<exists>root \<in> set (pol_localRoots pol). prefix (elems root) (elems r)"
    using rel_inside_iff[of root r] r by blast
  show "\<exists>a q. filepath_Abs fs (path_Clean input) = Some a \<and> os_EvalSymlinks fs a = Some q \<and> r = path_Clean q
       \<and> os_Stat fs q = Some (if dir then Directory else Regular)"
    using q by blast
qed

text \<open>
  C32: Under an enforcing policy an accepted local path is the clean form of the resolved path of an
  existing file of the requested kind, and it lies below an allowed root in the sense of path
  elements: the elements of the root are a prefix of its own (so a root \<open>/data\<close> does not admit
  \<open>/data2\<close>, and no symbolic link leads outside).
\<close>
theorem validateLocal_confined:
  assumes "honest_os fs" "NewResourcePolicy fs True roots remotes = Inr pol"
    and "validateLocal fs (Some pol) input dir = Inr r"
  shows "(\<exists>root \<in> set (pol_localRoots pol). prefix (elems root) (elems r))
    \<and> path_Clean r = r \<and> dotdot \<notin> set (elems r)
    \<and> (\<exists>a q. filepath_Abs fs (path_Clean input) = Some a \<and> os_EvalSymlinks fs a = Some q \<and> r = path_Clean q
         \<and> os_Stat fs q = Some (if dir then Directory else Regular))"
proof -
  note c = accepted_path_confined[OF assms]
  have "\<forall>x \<in> set (elems r). proper x" using elems_canonical[of r] c(1) by (simp add: canonical_rooted)
  then have "dotdot \<notin> set (elems r)" by (auto simp: proper_def)
  with c show ?thesis by blast
qed

definition demo_os :: os where
  "demo_os = \<lparr>os_Getwd = Some ''/srv'',
     os_EvalSymlinks = (\<lambda>p. Some (if p = ''/data/link'' then ''/etc/passwd'' else p)),
     os_Stat = (\<lambda>p. Some (if p = ''/data'' then Directory else Regular))\<rparr>"

lemma demo_os_honest: "honest_os demo_os"
  by (simp add: honest_os_def demo_os_def)

theorem validateLocal_confined_witness:
  "\<exists>pol. NewResourcePolicy demo_os True [''/data/''] [''r''] = Inr pol
     \<and> validateLocal demo_os (Some pol) ''/data/x/../f'' False = Inr ''/data/f''
     \<and> (\<exists>root \<in> set (pol_localRoots pol). prefix (elems root) (elems ''/data/f''))"
proof -
  let ?pol = "\<lparr>pol_enforce = True, pol_localRoots = [''/data''], pol_allowedRemotes = [''r'']\<rparr>"
  have p: "NewResourcePolicy demo_os True [''/data/''] [''r''] = Inr ?pol" by code_simp
  have v: "validateLocal demo_os (Some ?pol) ''/data/x/../f'' False = Inr ''/data/f''" by code_simp
  from validateLocal_confined[OF demo_os_honest p v] p v show ?thesis by blast
qed

text \<open>
  C33: An accepted remote path is in clean form, has no \<open>..\<close> element and no NUL, CR, LF or backslash,
  and the remote is on the allowlist when the policy is enforced.
\<close>
theorem ValidateRemote_safe:
  assumes "ValidateRemote p name rp = Inr q"
  shows "path_Clean q = q \<and> (\<forall>x \<in> set (elems q). proper x) \<and> q \<noteq> ''.''
    \<and> set q \<inter> {byte0, byte 10, byte 13, CHR 0x5C} = {}
    \<and> AllowsRemote p (TrimSpace name)"
proof -
  define v where "v = TrimPrefix (ReplaceByte (CHR 0x5C) slash rp) ''/''"
  have ok: "q = path_Clean v" "q \<noteq> dot" "q \<noteq> dotdot" "\<not> HasPrefix q ''../''"
    "\<not> ContainsAny rp [byte0, byte 13, byte 10]"
    using assms by (auto simp: ValidateRemote_def Let_def v_def split: if_splits)
  have pr: "\<forall>x \<in> set (elems q). proper x"
  proof (cases "rooted v")
    case True
    then show ?thesis using elems_canonical[of v] by (simp add: ok(1) canonical_rooted)
  next
    case False
    then show ?thesis using unrooted_elems_proper[of v] ok by simp
  qed
  have v: "set v \<subseteq> set (ReplaceByte (CHR 0x5C) slash rp)"
    by (auto simp: v_def TrimPrefix_def dest: in_set_dropD)
  have "set (ReplaceByte (CHR 0x5C) slash rp) \<subseteq> set rp \<union> {slash}" by (auto simp: ReplaceByte_def)
  with v ok(5) have "set v \<inter> {byte0, byte 10, byte 13} \<subseteq> {slash} \<inter> {byte0, byte 10, byte 13}"
    by (auto simp: ContainsAny_set)
  moreover have "CHR 0x5C \<notin> set v" using v ReplaceByte_gone[of "CHR 0x5C" slash rp] by auto
  moreover have "{slash, CHR ''.''} \<inter> {byte0, byte 10, byte 13, CHR 0x5C} = {}"
    by (auto simp: byte0_def) code_simp+
  ultimately have "set q \<inter> {byte0, byte 10, byte 13, CHR 0x5C} = {}"
    using set_path_Clean[of v] unfolding ok(1) by blast
  moreover have "AllowsRemote p (TrimSpace name)"
    using assms by (auto simp: ValidateRemote_def AllowsRemote_def Let_def split: if_splits option.splits)
  ultimately show ?thesis using pr ok by simp
qed

theorem ValidateRemote_safe_witness:
  "ValidateRemote None '' r '' ''/a//b/../c'' = Inr ''a/c'' \<and> path_Clean ''a/c'' = ''a/c''"
proof -
  have v: "ValidateRemote None '' r '' ''/a//b/../c'' = Inr ''a/c''" by code_simp
  from ValidateRemote_safe[OF v] v show ?thesis by blast
qed

text \<open>
  Only one leading slash is removed: a path that starts with two slashes is accepted with a
  rooted result although the rooted and the unrooted spelling of the same path are normalised to the
  unrooted one, and the remote's root, which is refused as a single slash, is accepted as two.
\<close>
theorem ValidateRemote_double_slash:
  assumes "ValidateRemote p name (slash # slash # rest) = Inr q"
  shows "rooted q \<and> ValidateRemote p name ''/'' = Inl RemoteTraversal
    \<and> (rest = '''' \<longrightarrow> q = ''/'')"
proof -
  have t: "TrimPrefix (ReplaceByte (CHR 0x5C) slash (slash # slash # rest)) ''/''
      = slash # ReplaceByte (CHR 0x5C) slash rest"
    by (simp add: TrimPrefix_def ReplaceByte_def)
  have q: "q = path_Clean (slash # ReplaceByte (CHR 0x5C) slash rest)"
    using assms unfolding ValidateRemote_def Let_def t by (auto split: if_splits)
  have one: "\<not> ContainsAny ''/'' [byte0, byte 13, byte 10]"
    "path_Clean (TrimPrefix (ReplaceByte (CHR 0x5C) slash ''/'') ''/'') = ''.''"
    by code_simp+
  have "ValidateRemote p name ''/'' = Inl RemoteTraversal"
    using assms one by (auto simp: ValidateRemote_def Let_def split: if_splits option.splits)
  moreover have "rest = '''' \<longrightarrow> path_Clean (slash # ReplaceByte (CHR 0x5C) slash rest) = ''/''"
    by (auto simp: ReplaceByte_def) code_simp
  ultimately show ?thesis by (simp add: q)
qed

theorem ValidateRemote_double_slash_witness:
  "ValidateRemote None ''r'' ''//a'' = Inr ''/a'' \<and> rooted ''/a''"
proof -
  have v: "ValidateRemote None ''r'' (slash # slash # ''a'') = Inr ''/a''" by code_simp
  from ValidateRemote_double_slash[OF v] v show ?thesis by simp
qed

text \<open>
  The effective remote allowlist is duplicate-free and contains only configured remotes: all of
  them when no explicit list is given, exactly the explicit names otherwise; an explicit name that is
  not configured makes the start-up fail with the list of those names.
\<close>
theorem ResolveAllowedRemotes_outcome:
  "case ResolveAllowedRemotes explicit discovered of
     Inr allowed \<Rightarrow> distinct allowed
       \<and> set allowed = {n \<in> TrimSpace ` set (if explicit = [] then discovered else explicit). n \<noteq> ''''}
       \<and> set allowed \<subseteq> TrimSpace ` set discovered
   | Inl e \<Rightarrow> \<exists>missing. e = MissingRemotes missing \<and> missing \<noteq> []
       \<and> set missing = {n \<in> TrimSpace ` set explicit. n \<noteq> '''' \<and> n \<notin> TrimSpace ` set discovered}"
proof -
  let ?av = "trimmed_unique [] discovered" and ?w = "trimmed_unique [] explicit"
  let ?m = "filter (\<lambda>n. n \<notin> set ?av) ?w"
  consider (all) "explicit = []" | (missing) "explicit \<noteq> []" "?m \<noteq> []" | (found) "explicit \<noteq> []" "?m = []"
    by blast
  then show ?thesis
  proof cases
    case all
    then show ?thesis
      by (auto simp: ResolveAllowedRemotes_def set_trimmed_unique distinct_trimmed_unique)
  next
    case missing
    then have "ResolveAllowedRemotes explicit discovered = Inl (MissingRemotes ?m)"
      unfolding ResolveAllowedRemotes_def Let_def by (simp only: if_False if_True simp_thms)
    moreover have "set ?m = {n \<in> TrimSpace ` set explicit. n \<noteq> '''' \<and> n \<notin> TrimSpace ` set discovered}"
      by (auto simp: set_trimmed_unique)
    ultimately show ?thesis using missing(2) by simp
  next
    case found
    then have "ResolveAllowedRemotes explicit discovered = Inr (filter (\<lambda>n. n \<in> set ?av) ?w)"
      unfolding ResolveAllowedRemotes_def Let_def by (simp only: if_False if_True simp_thms)
    moreover have "\<forall>n \<in> set ?w. n \<in> set ?av" using found(2) by (auto simp: filter_empty_conv)
    then have "filter (\<lambda>n. n \<in> set ?av) ?w = ?w" by (simp add: filter_id_conv)
    ultimately show ?thesis using found(1) \<open>\<forall>n \<in> set ?w. n \<in> set ?av\<close>
      by (auto simp: set_trimmed_unique distinct_trimmed_unique)
  qed
qed

end
