(* ===== verification/Lease.thy ===== *)
theory Lease
  imports Prelude
begin

section \<open>Leases\<close>

text \<open>
  What every lease in the program promises its holder, as an interface: a store whose rows are
  leased to owners until an expiry, and whose steps are the repository operations at the clock
  readings they use.  The task queue, the watch-folder scanner and the remote-route scanner
  provide it (\<open>revokes\<close>: the operations of an administrator that may end the lease of a row); the lemmas, proved once from its laws, are what a worker relies on between two
  renewals: nobody else gets or ends its lease before the expiry it was given.
\<close>

locale lease_machine =
  fixes step :: "time \<Rightarrow> 'op \<Rightarrow> 's \<Rightarrow> 's"
    and actor :: "'op \<Rightarrow> string option"
    and holder :: "'s \<Rightarrow> nat \<Rightarrow> (string \<times> time) option"
    and revokes :: "'op \<Rightarrow> nat \<Rightarrow> bool"
    and okop :: "'op \<Rightarrow> bool"
    and inv :: "'s \<Rightarrow> bool"
  assumes inv_step: "inv s \<Longrightarrow> okop a \<Longrightarrow> inv (step n a s)"
    and live_kept: "inv s \<Longrightarrow> okop a \<Longrightarrow> holder s i = Some (w, e) \<Longrightarrow> n < e \<Longrightarrow> actor a \<noteq> Some w
          \<Longrightarrow> \<not> revokes a i \<Longrightarrow> holder (step n a s) i = Some (w, e)"
    and new_by_actor: "inv s \<Longrightarrow> okop a \<Longrightarrow> holder (step n a s) i = Some (w, e)
          \<Longrightarrow> holder s i = Some (w, e) \<or> actor a = Some w"
begin

primrec run :: "(time \<times> 'op) list \<Rightarrow> 's \<Rightarrow> 's" where
  "run [] s = s"
| "run (x # xs) s = run xs (step (fst x) (snd x) s)"

lemma run_append: "run (xs @ ys) s = run ys (run xs s)"
  by (induction xs arbitrary: s) auto

lemma inv_run: "inv s \<Longrightarrow> list_all (\<lambda>x. okop (snd x)) xs \<Longrightarrow> inv (run xs s)"
  by (induction xs arbitrary: s) (auto intro: inv_step)

lemma lease_survives:
  assumes "inv s" "holder s i = Some (w, e)"
    and "list_all (\<lambda>x. okop (snd x) \<and> fst x < e \<and> actor (snd x) \<noteq> Some w \<and> \<not> revokes (snd x) i) xs"
  shows "holder (run xs s) i = Some (w, e)"
  using assms
proof (induction xs arbitrary: s)
  case (Cons x xs)
  then have "holder (step (fst x) (snd x) s) i = Some (w, e)" "inv (step (fst x) (snd x) s)"
    by (auto intro: live_kept inv_step)
  with Cons show ?case by simp
qed simp

lemma lease_has_claimer:
  assumes "inv s" "holder (run xs s) i = Some (w, e)" "list_all (\<lambda>x. okop (snd x)) xs"
  shows "holder s i = Some (w, e) \<or> (\<exists>x \<in> set xs. actor (snd x) = Some w)"
  using assms
proof (induction xs arbitrary: s)
  case (Cons x xs)
  then have "holder (step (fst x) (snd x) s) i = Some (w, e) \<or> (\<exists>y \<in> set xs. actor (snd y) = Some w)"
    by (auto intro: inv_step)
  with Cons.prems show ?case by (auto dest: new_by_actor)
qed simp

lemma no_second_holder:
  assumes "inv s" "holder s i = Some (w, e)" "w' \<noteq> w"
    and "list_all (\<lambda>x. okop (snd x) \<and> fst x < e \<and> actor (snd x) \<noteq> Some w \<and> \<not> revokes (snd x) i) xs"
  shows "holder (run xs s) i \<noteq> Some (w', e')"
  using lease_survives[OF assms(1,2,4)] assms(3) by simp

end

end
