(* ===== verification/TaskRepo.thy ===== *)
theory TaskRepo
  imports Entities Lease
begin

section \<open>The task repository\<close>

text \<open>
  \<open>internal/repository/task_repository.go\<close>: every operation on \<open>upload_tasks\<close> as a function of
  the fault schedule (\<open>flt k\<close>: the \<open>k\<close>-th database call fails), the clock reading \<open>now\<close> and
  the database, with the new database and the Go results.  A failed call leaves the database as
  it was, because each operation is one statement or one transaction (\<open>ReleaseLease\<close>, two
  statements outside a transaction, is written out).  \<open>gorm\<close> sets \<open>updated_at\<close> in every update.
  The lemmas show what each operation does to a row found by its key, that the task invariant
  holds in every reachable database, and that a live lease is only ended by its owner.
\<close>

named_theorems task_ops \<open>the definitions of the task operations\<close>

abbreviation with_tasks :: "upload_task list \<Rightarrow> db \<Rightarrow> db" where
  "with_tasks ts s \<equiv> s\<lparr>tasks := ts\<rparr>"

definition update_tasks :: "(upload_task \<Rightarrow> bool) \<Rightarrow> (upload_task \<Rightarrow> upload_task) \<Rightarrow> db \<Rightarrow> db" where
  "update_tasks p u s = s\<lparr>tasks := update_where p u (tasks s)\<rparr>"

definition tasks_affected :: "(upload_task \<Rightarrow> bool) \<Rightarrow> (upload_task \<Rightarrow> upload_task) \<Rightarrow> db \<Rightarrow> nat" where
  "tasks_affected p u s = rows_affected p u (tasks s)"

subsection \<open>Reads\<close>

(* src/internal/repository/task_repository.go 54-63 taskRepository.GetByID *)
definition GetByID_task :: "fault \<Rightarrow> nat \<Rightarrow> db \<Rightarrow> (repo_error, upload_task) result" where
  "GetByID_task flt i s =
     (if flt 0 then Inl (ErrDB 0)
      else case task_by i s of None \<Rightarrow> Inl ErrNotFound | Some t \<Rightarrow> Inr t)"

(* src/internal/repository/task_repository.go 125-134 taskRepository.applyListFilters *)
definition applyListFilters ::
    "(string \<Rightarrow> string \<Rightarrow> bool) \<Rightarrow> task_status option \<Rightarrow> string \<Rightarrow> upload_task list \<Rightarrow> upload_task list" where
  "applyListFilters like status keyword ts =
     filter (\<lambda>t. (keyword = [] \<or> like keyword (task_WatchFolderName t) \<or> like keyword (task_FileName t)
                   \<or> like keyword (task_LocalPath t) \<or> like keyword (task_RemoteName t)
                   \<or> like keyword (task_RemotePath t)))
       (filter (\<lambda>t. case status of None \<Rightarrow> True | Some st \<Rightarrow> task_Status t = st) ts)"

(* src/internal/repository/task_repository.go 136-143 taskRepository.List *)
definition List_tasks ::
    "(string \<Rightarrow> string \<Rightarrow> bool) \<Rightarrow> fault \<Rightarrow> task_status option \<Rightarrow> string \<Rightarrow> nat \<Rightarrow> nat \<Rightarrow> db
      \<Rightarrow> (repo_error, upload_task list) result" where
  "List_tasks like flt status keyword offset limit s =
     (if flt 0 then Inl (ErrDB 0)
      else Inr (take limit (drop offset
             (sort_key (\<lambda>t. - task_CreatedAt t) (applyListFilters like status keyword (tasks s))))))"

(* src/internal/repository/task_repository.go 145-151 taskRepository.CountForList *)
definition CountForList ::
    "(string \<Rightarrow> string \<Rightarrow> bool) \<Rightarrow> fault \<Rightarrow> task_status option \<Rightarrow> string \<Rightarrow> db
      \<Rightarrow> (repo_error, nat) result" where
  "CountForList like flt status keyword s =
     (if flt 0 then Inl (ErrDB 0)
      else Inr (length (applyListFilters like status keyword (tasks s))))"

(* src/internal/repository/task_repository.go 153-167 taskRepository.CountByStatuses *)
definition CountByStatuses :: "fault \<Rightarrow> db \<Rightarrow> (repo_error, task_status \<Rightarrow> nat option) result" where
  "CountByStatuses flt s =
     (if flt 0 then Inl (ErrDB 0)
      else Inr (\<lambda>st. let n = length (filter (\<lambda>t. task_Status t = st) (tasks s)) in
                 if n = 0 then None else Some n))"

(* src/internal/repository/task_repository.go 195-208 taskRepository.ListOpenByWatchFolder *)
definition ListOpenByWatchFolder :: "fault \<Rightarrow> nat \<Rightarrow> db \<Rightarrow> (repo_error, upload_task list) result" where
  "ListOpenByWatchFolder flt wid s =
     (if flt 0 then Inl (ErrDB 0)
      else Inr (filter (\<lambda>t. task_WatchFolderID t = wid
             \<and> task_Status t \<in> {TaskStatusPending, TaskStatusRunning, TaskStatusFailed, TaskStatusPaused})
             (tasks s)))"

(* src/internal/repository/task_repository.go 210-221 taskRepository.ListLatestByFileRecordIDs *)
definition ListLatestByFileRecordIDs :: "fault \<Rightarrow> nat list \<Rightarrow> db \<Rightarrow> (repo_error, upload_task list) result" where
  "ListLatestByFileRecordIDs flt fids s =
     (if fids = [] then Inr []
      else if flt 0 then Inl (ErrDB 0)
      else let chosen = filter (\<lambda>t. task_FileRecordID t \<in> set fids) (tasks s);
               latest = (\<lambda>f. Max (set (map task_ID (filter (\<lambda>t. task_FileRecordID t = f) chosen))))
           in Inr (filter (\<lambda>t. task_ID t \<in> set (map (\<lambda>c. latest (task_FileRecordID c)) chosen)) (tasks s)))"

(* src/internal/repository/task_repository.go 486-496 taskRepository.IsCancellationRequested *)
definition IsCancellationRequested :: "fault \<Rightarrow> nat \<Rightarrow> db \<Rightarrow> (repo_error, bool) result" where
  "IsCancellationRequested flt i s =
     (if flt 0 then Inl (ErrDB 0)
      else case task_by i s of
             None \<Rightarrow> Inl ErrRecordNotFound
           | Some t \<Rightarrow> Inr (task_Status t = TaskStatusCanceled \<or> task_CancelRequestedAt t \<noteq> None))"

(* src/internal/repository/task_repository.go 562-571 taskRepository.GetByIdempotencyKey *)
definition GetByIdempotencyKey :: "fault \<Rightarrow> string \<Rightarrow> db \<Rightarrow> (repo_error, upload_task) result" where
  "GetByIdempotencyKey flt key s =
     (if flt 0 then Inl (ErrDB 0)
      else case first_where (\<lambda>t. task_IdempotencyKey t = Some key) (tasks s) of
             None \<Rightarrow> Inl ErrNotFound | Some t \<Rightarrow> Inr t)"

subsection \<open>Inserts and deletes\<close>

text \<open>
  \<open>INSERT ... ON CONFLICT DO NOTHING\<close>: a task whose idempotency key is taken is not stored and
  keeps the key 0; otherwise it gets the next auto-increment key and its timestamps.
\<close>
definition key_taken :: "upload_task \<Rightarrow> upload_task list \<Rightarrow> bool" where
  "key_taken t ts \<longleftrightarrow> task_IdempotencyKey t \<noteq> None
     \<and> (\<exists>x \<in> set ts. task_IdempotencyKey x = task_IdempotencyKey t)"

definition insert_task :: "time \<Rightarrow> upload_task \<Rightarrow> db \<Rightarrow> db \<times> bool \<times> upload_task" where
  "insert_task now t s =
     (if key_taken t (tasks s) then (s, False, t)
      else let t' = t\<lparr>task_ID := next_task s, task_CreatedAt := now, task_UpdatedAt := now\<rparr>
           in (s\<lparr>tasks := tasks s @ [t'], next_task := next_task s + 1\<rparr>, True, t'))"

(* src/internal/repository/task_repository.go 169-177 taskRepository.CreateIfAbsent *)
definition CreateIfAbsent ::
    "fault \<Rightarrow> time \<Rightarrow> upload_task \<Rightarrow> db \<Rightarrow> db \<times> (repo_error, bool \<times> upload_task) result" where
  "CreateIfAbsent flt now t s =
     (if flt 0 then (s, Inl (ErrDB 0))
      else let (s', created, t') = insert_task now t s in (s', Inr (created, t')))"

primrec insert_batch :: "time \<Rightarrow> upload_task list \<Rightarrow> db \<Rightarrow> db \<times> nat" where
  "insert_batch now [] s = (s, 0)"
| "insert_batch now (t # ts) s =
     (let (s', created, _) = insert_task now t s; (s'', n) = insert_batch now ts s'
      in (s'', (if created then 1 else 0) + n))"

text \<open>\<open>CreateInBatches\<close>: one statement per batch, the \<open>k\<close>-th failing when \<open>flt k\<close>.\<close>
primrec insert_batches ::
    "fault \<Rightarrow> nat \<Rightarrow> time \<Rightarrow> upload_task list list \<Rightarrow> db \<Rightarrow> (repo_error, db \<times> nat) result" where
  "insert_batches flt k now [] s = Inr (s, 0)"
| "insert_batches flt k now (b # bs) s =
     (if flt k then Inl (ErrDB k)
      else let (s', n) = insert_batch now b s in
        bind_res (insert_batches flt (k + 1) now bs s') (\<lambda>(s'', m). Inr (s'', n + m)))"

(* src/internal/repository/task_repository.go 179-193 taskRepository.CreateManyIfAbsent *)
definition CreateManyIfAbsent ::
    "fault \<Rightarrow> time \<Rightarrow> upload_task list \<Rightarrow> int \<Rightarrow> db \<Rightarrow> db \<times> (repo_error, nat) result" where
  "CreateManyIfAbsent flt now ts batchSize s =
     (if ts = [] then (s, Inr 0)
      else case insert_batches flt 0 now (batches (effective_batch batchSize) ts) s of
             Inl e \<Rightarrow> (s, Inl e)
           | Inr (s', n) \<Rightarrow> (s', Inr n))"

(* src/internal/repository/task_repository.go 65-83 taskRepository.Delete *)
definition Delete_task :: "fault \<Rightarrow> nat \<Rightarrow> db \<Rightarrow> db \<times> (repo_error, unit) result" where
  "Delete_task flt i s =
     (if flt 0 then (s, Inl (ErrDB 0))
      else let p = (\<lambda>t. task_ID t = i \<and> task_Status t \<noteq> TaskStatusRunning);
               s' = s\<lparr>tasks := delete_where p (tasks s)\<rparr>
           in if \<exists>t \<in> set (tasks s). p t then (s', Inr ())
              else if flt 1 then (s', Inl (ErrDB 1))
              else case task_by i s' of
                     None \<Rightarrow> (s', Inl ErrNotFound)
                   | Some _ \<Rightarrow> (s', Inl ErrConflict))"

text \<open>The rejections of a batch, in the order of the requested ids.\<close>
definition batch_rejection :: "db \<Rightarrow> nat \<Rightarrow> repo_error option" where
  "batch_rejection s i =
     (case task_by i s of
        None \<Rightarrow> Some ErrNotFound
      | Some t \<Rightarrow> if task_Status t = TaskStatusRunning then Some ErrConflict else None)"

(* src/internal/repository/task_repository.go 85-123 taskRepository.DeleteMany *)
definition DeleteMany ::
    "fault \<Rightarrow> nat list \<Rightarrow> db \<Rightarrow> db \<times> (repo_error, nat \<Rightarrow> repo_error option) result" where
  "DeleteMany flt ids s =
     (if ids = [] then (s, Inr (\<lambda>_. None))
      else if flt 0 then (s, Inl (ErrDB 0))
      else let locked = filter (\<lambda>t. task_ID t \<in> set ids) (tasks s);
               failed = (\<lambda>i. if i \<in> set ids then batch_rejection s i else None);
               deletable = map task_ID (filter (\<lambda>t. task_Status t \<noteq> TaskStatusRunning) locked)
           in if deletable = [] then (s, Inr failed)
              else if flt 1 then (s, Inl (ErrDB 1))
              else if flt 2 then (s, Inl (ErrDB 2))
              else (s\<lparr>tasks := delete_where (\<lambda>t. task_ID t \<in> set deletable
                                       \<and> task_Status t \<noteq> TaskStatusRunning) (tasks s)\<rparr>, Inr failed))"

subsection \<open>Claiming and renewing\<close>

text \<open>\<open>lease_expires_at IS NULL OR lease_expires_at <= now\<close>\<close>
definition lease_inactive :: "time \<Rightarrow> upload_task \<Rightarrow> bool" where
  "lease_inactive now t \<longleftrightarrow> (case task_LeaseExpiresAt t of None \<Rightarrow> True | Some e \<Rightarrow> e \<le> now)"

definition cancel_requested :: "upload_task \<Rightarrow> bool" where
  "cancel_requested t \<longleftrightarrow> task_CancelRequestedAt t \<noteq> None"

(* src/internal/repository/task_repository.go 243-251 taskRepository.ClaimNext *)
definition queued_row :: "time \<Rightarrow> upload_task \<Rightarrow> upload_task" where
  "queued_row now t =
     t\<lparr>task_Status := TaskStatusCanceled, task_ErrorMsg := ''task cancellation finalized before claim'',
       task_FinishedAt := Some now, task_CanceledAt := Some now, task_LastStatusAt := Some now,
       task_NextRetryAt := None, task_CancelRequestedAt := None, task_UpdatedAt := now\<rparr>"

(* src/internal/repository/task_repository.go 241-254 taskRepository.ClaimNext *)
definition finalize_queued :: "time \<Rightarrow> db \<Rightarrow> db" where
  "finalize_queued now = update_tasks
     (\<lambda>t. task_Status t \<in> {TaskStatusPending, TaskStatusPaused, TaskStatusFailed} \<and> cancel_requested t)
     (queued_row now)"

(* src/internal/repository/task_repository.go 257-267 taskRepository.ClaimNext *)
definition abandoned_row :: "time \<Rightarrow> upload_task \<Rightarrow> upload_task" where
  "abandoned_row now t =
     t\<lparr>task_Status := TaskStatusCanceled, task_ErrorMsg := ''task canceled while worker lease was inactive'',
       task_FinishedAt := Some now, task_CanceledAt := Some now, task_LastStatusAt := Some now,
       task_LeaseOwner := '''', task_LeaseExpiresAt := None, task_HeartbeatAt := None,
       task_CancelRequestedAt := None, task_UpdatedAt := now\<rparr>"

(* src/internal/repository/task_repository.go 255-270 taskRepository.ClaimNext *)
definition finalize_abandoned :: "time \<Rightarrow> db \<Rightarrow> db" where
  "finalize_abandoned now = update_tasks
     (\<lambda>t. task_Status t = TaskStatusRunning \<and> cancel_requested t \<and> lease_inactive now t)
     (abandoned_row now)"

(* src/internal/repository/task_repository.go 274-282 taskRepository.ClaimNext *)
definition exhausted_row :: "time \<Rightarrow> upload_task \<Rightarrow> upload_task" where
  "exhausted_row now t =
     t\<lparr>task_Status := TaskStatusFailed, task_ErrorMsg := ''worker lease expired after maximum attempts'',
       task_FinishedAt := Some now, task_LastStatusAt := Some now,
       task_LeaseOwner := '''', task_LeaseExpiresAt := None, task_HeartbeatAt := None,
       task_UpdatedAt := now\<rparr>"

(* src/internal/repository/task_repository.go 272-286 taskRepository.ClaimNext *)
definition expire_exhausted :: "time \<Rightarrow> int \<Rightarrow> db \<Rightarrow> db" where
  "expire_exhausted now maxAttempts = update_tasks
     (\<lambda>t. task_Status t = TaskStatusRunning \<and> lease_inactive now t \<and> maxAttempts \<le> int (task_RetryCount t))
     (exhausted_row now)"

(* src/internal/repository/task_repository.go 288-291 taskRepository.ClaimNext *)
definition claimable :: "time \<Rightarrow> int \<Rightarrow> upload_task \<Rightarrow> bool" where
  "claimable now maxAttempts t \<longleftrightarrow>
     \<not> cancel_requested t \<and> int (task_RetryCount t) < maxAttempts
     \<and> (task_Status t = TaskStatusPending
          \<and> (case task_NextRetryAt t of None \<Rightarrow> True | Some r \<Rightarrow> r \<le> now)
        \<or> task_Status t = TaskStatusRunning \<and> lease_inactive now t)"

text \<open>\<open>ORDER BY priority DESC, id ASC\<close>: the first row of the greatest priority.\<close>
fun best_task :: "upload_task list \<Rightarrow> upload_task option" where
  "best_task [] = None"
| "best_task (t # ts) =
     (case best_task ts of
        None \<Rightarrow> Some t
      | Some b \<Rightarrow> if task_Priority t > task_Priority b
                    \<or> task_Priority t = task_Priority b \<and> task_ID t < task_ID b
                  then Some t else Some b)"

(* src/internal/repository/task_repository.go 302-312 taskRepository.ClaimNext *)
definition claim_row :: "time \<Rightarrow> string \<Rightarrow> dur \<Rightarrow> upload_task \<Rightarrow> upload_task" where
  "claim_row now owner lease t =
     t\<lparr>task_Status := TaskStatusRunning, task_StartedAt := Some now, task_FinishedAt := None,
       task_LastStatusAt := Some now, task_NextRetryAt := None, task_LeaseOwner := owner,
       task_LeaseExpiresAt := Some (now + lease), task_HeartbeatAt := Some now,
       task_RetryCount := task_RetryCount t + 1, task_UpdatedAt := now\<rparr>"

text \<open>
  The transaction: two sweeps of cancelled rows, one of exhausted leases, the locked select
  (\<open>SKIP LOCKED\<close>: rows other transactions hold are passed over), the update, the reload and the
  commit.  When no row is claimable the whole transaction is rolled back, sweeps included.
\<close>
(* src/internal/repository/task_repository.go 223-324 taskRepository.ClaimNext *)
definition ClaimNext ::
    "fault \<Rightarrow> (nat \<Rightarrow> bool) \<Rightarrow> time \<Rightarrow> string \<Rightarrow> dur \<Rightarrow> int \<Rightarrow> db
      \<Rightarrow> db \<times> (repo_error, upload_task option) result" where
  "ClaimNext flt locked now owner leaseDuration maxAttempts0 s =
     (let maxAttempts = (if maxAttempts0 \<le> 0 then 1 else maxAttempts0) in
      if flt 0 then (s, Inl (ErrDB 0))
      else if flt 1 then (s, Inl (ErrDB 1))
      else if flt 2 then (s, Inl (ErrDB 2))
      else if flt 3 then (s, Inl (ErrDB 3))
      else if flt 4 then (s, Inl (ErrDB 4))
      else let s1 = expire_exhausted now maxAttempts (finalize_abandoned now (finalize_queued now s)) in
        case best_task (filter (\<lambda>t. claimable now maxAttempts t \<and> \<not> locked (task_ID t)) (tasks s1)) of
          None \<Rightarrow> (s, Inr None)
        | Some t \<Rightarrow>
            if flt 5 then (s, Inl (ErrDB 5))
            else let s2 = update_tasks (\<lambda>x. task_ID x = task_ID t) (claim_row now owner leaseDuration) s1 in
              if flt 6 then (s, Inl (ErrDB 6))
              else case task_by (task_ID t) s2 of
                     None \<Rightarrow> (s, Inl ErrRecordNotFound)
                   | Some t' \<Rightarrow> if flt 7 then (s, Inl (ErrDB 7)) else (s2, Inr (Some t')))"

definition owned :: "nat \<Rightarrow> string \<Rightarrow> upload_task \<Rightarrow> bool" where
  "owned i owner t \<longleftrightarrow> task_ID t = i \<and> task_Status t = TaskStatusRunning \<and> task_LeaseOwner t = owner"

definition renew_row :: "time \<Rightarrow> dur \<Rightarrow> upload_task \<Rightarrow> upload_task" where
  "renew_row now lease t =
     t\<lparr>task_LeaseExpiresAt := Some (now + lease), task_HeartbeatAt := Some now, task_UpdatedAt := now\<rparr>"

(* src/internal/repository/task_repository.go 326-332 taskRepository.RenewLease *)
definition RenewLease ::
    "fault \<Rightarrow> time \<Rightarrow> nat \<Rightarrow> string \<Rightarrow> dur \<Rightarrow> db \<Rightarrow> db \<times> (repo_error, bool) result" where
  "RenewLease flt now i owner leaseDuration s =
     (if flt 0 then (s, Inl (ErrDB 0))
      else let p = (\<lambda>t. owned i owner t \<and> \<not> cancel_requested t); u = renew_row now leaseDuration
           in (update_tasks p u s, Inr (0 < tasks_affected p u s)))"

definition progress_row :: "time \<Rightarrow> int \<Rightarrow> int \<Rightarrow> time \<Rightarrow> upload_task \<Rightarrow> upload_task" where
  "progress_row now percent speed at t =
     t\<lparr>task_Progress := percent, task_Speed := speed, task_LastProgressAt := Some at, task_UpdatedAt := now\<rparr>"

(* src/internal/repository/task_repository.go 334-338 taskRepository.UpdateProgress *)
definition UpdateProgress ::
    "fault \<Rightarrow> time \<Rightarrow> nat \<Rightarrow> string \<Rightarrow> int \<Rightarrow> int \<Rightarrow> time \<Rightarrow> db \<Rightarrow> db \<times> (repo_error, unit) result" where
  "UpdateProgress flt now i owner percent speed at s =
     (if flt 0 then (s, Inl (ErrDB 0))
      else (update_tasks (owned i owner) (progress_row now percent speed at) s, Inr ()))"

subsection \<open>Ending an attempt\<close>

definition succeed_row :: "time \<Rightarrow> time \<Rightarrow> int \<Rightarrow> upload_task \<Rightarrow> upload_task" where
  "succeed_row now finishedAt durationSeconds t =
     t\<lparr>task_Status := TaskStatusSuccess, task_Progress := 10000, task_Speed := 0, task_ErrorMsg := '''',
       task_FinishedAt := Some finishedAt, task_LastStatusAt := Some finishedAt,
       task_DurationSeconds := durationSeconds, task_LeaseOwner := '''', task_LeaseExpiresAt := None,
       task_HeartbeatAt := None, task_CancelRequestedAt := None, task_NextRetryAt := None,
       task_UpdatedAt := now\<rparr>"

definition uploaded_match :: "nat \<Rightarrow> string \<Rightarrow> string \<Rightarrow> string \<Rightarrow> file_record \<Rightarrow> bool" where
  "uploaded_match fid fingerprint remoteName remotePath f \<longleftrightarrow>
     fr_ID f = fid \<and> (fingerprint = '''' \<or> fr_Fingerprint f = fingerprint)
     \<and> fr_RemoteName f = remoteName \<and> fr_RemotePath f = remotePath"

(* src/internal/repository/task_repository.go 340-383 taskRepository.FinishSuccess *)
definition FinishSuccess ::
    "fault \<Rightarrow> time \<Rightarrow> nat \<Rightarrow> string \<Rightarrow> nat \<Rightarrow> string \<Rightarrow> string \<Rightarrow> string \<Rightarrow> time \<Rightarrow> int \<Rightarrow> db
      \<Rightarrow> db \<times> (repo_error, bool \<times> bool) result" where
  "FinishSuccess flt now i owner fid fingerprint remoteName remotePath finishedAt durationSeconds s =
     (if flt 0 then (s, Inl (ErrDB 0))
      else if flt 1 then (s, Inl (ErrDB 1))
      else let p = (\<lambda>t. owned i owner t \<and> \<not> cancel_requested t);
               u = succeed_row now finishedAt durationSeconds
           in if tasks_affected p u s = 0 then (s, Inr (False, False))
              else let q = uploaded_match fid fingerprint remoteName remotePath;
                       v = (\<lambda>f. f\<lparr>fr_UploadedAt := Some finishedAt, fr_UpdatedAt := now\<rparr>);
                       s1 = update_tasks p u s;
                       s2 = s1\<lparr>files := update_where q v (files s1)\<rparr>
                   in if flt 2 then (s, Inl (ErrDB 2))
                      else if flt 3 then (s, Inl (ErrDB 3))
                      else (s2, Inr (True, 0 < rows_affected q v (files s1))))"

definition canceled_row :: "time \<Rightarrow> time \<Rightarrow> string \<Rightarrow> upload_task \<Rightarrow> upload_task" where
  "canceled_row now finishedAt message t =
     t\<lparr>task_Status := TaskStatusCanceled, task_ErrorMsg := message,
       task_FinishedAt := Some finishedAt, task_CanceledAt := Some finishedAt,
       task_LastStatusAt := Some finishedAt, task_LeaseOwner := '''',
       task_LeaseExpiresAt := None, task_HeartbeatAt := None,
       task_CancelRequestedAt := None, task_NextRetryAt := None, task_UpdatedAt := now\<rparr>"

(* src/internal/repository/task_repository.go 385-401 taskRepository.FinishCanceled *)
definition FinishCanceled ::
    "fault \<Rightarrow> time \<Rightarrow> nat \<Rightarrow> string \<Rightarrow> time \<Rightarrow> string \<Rightarrow> db \<Rightarrow> db \<times> (repo_error, bool) result" where
  "FinishCanceled flt now i owner finishedAt message s =
     (if flt 0 then (s, Inl (ErrDB 0))
      else let u = canceled_row now finishedAt message
           in (update_tasks (owned i owner) u s, Inr (0 < tasks_affected (owned i owner) u s)))"

text \<open>The status a failed attempt leads to.\<close>
definition failure_status :: "int \<Rightarrow> upload_task \<Rightarrow> task_status" where
  "failure_status maxAttempts t =
     (if cancel_requested t then TaskStatusCanceled
      else if int (task_RetryCount t) < maxAttempts then TaskStatusPending
      else TaskStatusFailed)"

definition fail_row :: "time \<Rightarrow> string \<Rightarrow> time \<Rightarrow> task_status \<Rightarrow> upload_task \<Rightarrow> upload_task" where
  "fail_row now message nextRetryAt st t =
     t\<lparr>task_Status := st, task_ErrorMsg := message,
       task_FinishedAt := (if st = TaskStatusPending then None else Some now),
       task_LastStatusAt := Some now,
       task_NextRetryAt := (if st = TaskStatusPending then Some nextRetryAt else None),
       task_LeaseOwner := '''', task_LeaseExpiresAt := None, task_HeartbeatAt := None,
       task_AccumulatedFailures := task_AccumulatedFailures t + 1,
       task_CanceledAt := (if st = TaskStatusCanceled then Some now else task_CanceledAt t),
       task_CancelRequestedAt := (if st = TaskStatusCanceled then None else task_CancelRequestedAt t),
       task_UpdatedAt := now\<rparr>"

(* src/internal/repository/task_repository.go 403-450 taskRepository.FailOrRetry *)
definition FailOrRetry ::
    "fault \<Rightarrow> time \<Rightarrow> nat \<Rightarrow> string \<Rightarrow> string \<Rightarrow> time \<Rightarrow> int \<Rightarrow> db
      \<Rightarrow> db \<times> (repo_error, task_status) result" where
  "FailOrRetry flt now i owner message nextRetryAt maxAttempts s =
     (if flt 0 then (s, Inl (ErrDB 0))
      else if flt 1 then (s, Inl (ErrDB 1))
      else case first_where (owned i owner) (tasks s) of
             None \<Rightarrow> (s, Inl ErrRecordNotFound)
           | Some t \<Rightarrow>
               let st = failure_status maxAttempts t in
               if flt 2 then (s, Inl (ErrDB 2))
               else if flt 3 then (s, Inl (ErrDB 3))
               else (update_tasks (\<lambda>x. task_ID x = i) (fail_row now message nextRetryAt st) s, Inr st))"

definition release_row :: "time \<Rightarrow> upload_task \<Rightarrow> upload_task" where
  "release_row now t =
     t\<lparr>task_Status := TaskStatusPending, task_LeaseOwner := '''',
       task_LeaseExpiresAt := None, task_HeartbeatAt := None, task_NextRetryAt := None,
       task_RetryCount := (if task_RetryCount t > 0 then task_RetryCount t - 1 else 0),
       task_UpdatedAt := now\<rparr>"

(* src/internal/repository/task_repository.go 452-484 taskRepository.ReleaseLease *)
definition ReleaseLease ::
    "fault \<Rightarrow> time \<Rightarrow> nat \<Rightarrow> string \<Rightarrow> db \<Rightarrow> db \<times> (repo_error, unit) result" where
  "ReleaseLease flt now i owner s =
     (if flt 0 then (s, Inl (ErrDB 0))
      else let p = (\<lambda>t. owned i owner t \<and> cancel_requested t);
               u = canceled_row now now ''task canceled while worker lease was being released'';
               s1 = update_tasks p u s
           in if 0 < tasks_affected p u s then (s1, Inr ())
              else if flt 1 then (s1, Inl (ErrDB 1))
              else (update_tasks (\<lambda>t. owned i owner t \<and> \<not> cancel_requested t) (release_row now) s1,
                    Inr ()))"

subsection \<open>Requests of the user\<close>

definition cancel_row :: "time \<Rightarrow> time \<Rightarrow> upload_task \<Rightarrow> upload_task" where
  "cancel_row now at t =
     (if task_Status t \<noteq> TaskStatusRunning
      then t\<lparr>task_LastStatusAt := Some at, task_Status := TaskStatusCanceled, task_CanceledAt := Some at,
             task_FinishedAt := Some at, task_NextRetryAt := None, task_CancelRequestedAt := None,
             task_UpdatedAt := now\<rparr>
      else t\<lparr>task_CancelRequestedAt := Some at, task_LastStatusAt := Some at, task_UpdatedAt := now\<rparr>)"

(* src/internal/repository/task_repository.go 498-527 taskRepository.RequestCancel *)
definition RequestCancel ::
    "fault \<Rightarrow> time \<Rightarrow> nat \<Rightarrow> time \<Rightarrow> db \<Rightarrow> db \<times> (repo_error, task_status) result" where
  "RequestCancel flt now i at s =
     (if flt 0 then (s, Inl (ErrDB 0))
      else if flt 1 then (s, Inl (ErrDB 1))
      else case task_by i s of
             None \<Rightarrow> (s, Inl ErrRecordNotFound)
           | Some t \<Rightarrow>
               if task_Status t \<in> {TaskStatusSuccess, TaskStatusCanceled} then (s, Inr (task_Status t))
               else if flt 2 then (s, Inl (ErrDB 2))
               else if flt 3 then (s, Inl (ErrDB 3))
               else (update_tasks (\<lambda>x. task_ID x = i) (cancel_row now at) s,
                     Inr (if task_Status t \<noteq> TaskStatusRunning then TaskStatusCanceled
                          else task_Status t)))"

definition retryable :: "nat \<Rightarrow> upload_task \<Rightarrow> bool" where
  "retryable i t \<longleftrightarrow> task_ID t = i
     \<and> task_Status t \<in> {TaskStatusFailed, TaskStatusCanceled, TaskStatusPaused}"

definition reset_row :: "time \<Rightarrow> time \<Rightarrow> upload_task \<Rightarrow> upload_task" where
  "reset_row now at t =
     t\<lparr>task_Status := TaskStatusPending, task_Progress := 0, task_Speed := 0,
       task_RetryCount := 0, task_ErrorMsg := '''', task_StartedAt := None,
       task_FinishedAt := None, task_CanceledAt := None,
       task_CancelRequestedAt := None, task_LeaseOwner := '''',
       task_LeaseExpiresAt := None, task_HeartbeatAt := None,
       task_NextRetryAt := None, task_LastStatusAt := Some at, task_UpdatedAt := now\<rparr>"

(* src/internal/repository/task_repository.go 529-549 taskRepository.ResetForRetry *)
definition ResetForRetry :: "fault \<Rightarrow> time \<Rightarrow> nat \<Rightarrow> time \<Rightarrow> db \<Rightarrow> db \<times> (repo_error, bool) result" where
  "ResetForRetry flt now i at s =
     (if flt 0 then (s, Inl (ErrDB 0))
      else (update_tasks (retryable i) (reset_row now at) s,
            Inr (0 < tasks_affected (retryable i) (reset_row now at) s)))"

definition pausable :: "nat \<Rightarrow> upload_task \<Rightarrow> bool" where
  "pausable i t \<longleftrightarrow> task_ID t = i \<and> task_Status t \<notin> {TaskStatusRunning, TaskStatusSuccess}"

definition pause_row :: "time \<Rightarrow> time \<Rightarrow> upload_task \<Rightarrow> upload_task" where
  "pause_row now at t = t\<lparr>task_Status := TaskStatusPaused, task_LastStatusAt := Some at,
                         task_NextRetryAt := None, task_UpdatedAt := now\<rparr>"

(* src/internal/repository/task_repository.go 551-560 taskRepository.PauseIfNotRunning *)
definition PauseIfNotRunning :: "fault \<Rightarrow> time \<Rightarrow> nat \<Rightarrow> time \<Rightarrow> db \<Rightarrow> db \<times> (repo_error, bool) result" where
  "PauseIfNotRunning flt now i at s =
     (if flt 0 then (s, Inl (ErrDB 0))
      else (update_tasks (pausable i) (pause_row now at) s,
            Inr (0 < tasks_affected (pausable i) (pause_row now at) s)))"

subsection \<open>One step of the queue\<close>

text \<open>The state-changing operations, as the steps of a transition system.\<close>

datatype task_op =
    OpCreate upload_task
  | OpCreateMany "upload_task list" int
  | OpClaim "nat \<Rightarrow> bool" string dur int
  | OpRenew nat string dur
  | OpProgress nat string int int time
  | OpSuccess nat string nat string string string time int
  | OpFinishCanceled nat string time string
  | OpFail nat string string time int
  | OpRelease nat string
  | OpRequestCancel nat time
  | OpReset nat time
  | OpPause nat time
  | OpDelete nat
  | OpDeleteMany "nat list"

fun task_step :: "time \<Rightarrow> fault \<times> task_op \<Rightarrow> db \<Rightarrow> db" where
  "task_step now (flt, OpCreate t) s = fst (CreateIfAbsent flt now t s)"
| "task_step now (flt, OpCreateMany ts b) s = fst (CreateManyIfAbsent flt now ts b s)"
| "task_step now (flt, OpClaim locked w d m) s = fst (ClaimNext flt locked now w d m s)"
| "task_step now (flt, OpRenew i w d) s = fst (RenewLease flt now i w d s)"
| "task_step now (flt, OpProgress i w pct speed at) s = fst (UpdateProgress flt now i w pct speed at s)"
| "task_step now (flt, OpSuccess i w fid fp rn rp fin dur) s
     = fst (FinishSuccess flt now i w fid fp rn rp fin dur s)"
| "task_step now (flt, OpFinishCanceled i w fin msg) s = fst (FinishCanceled flt now i w fin msg s)"
| "task_step now (flt, OpFail i w msg r m) s = fst (FailOrRetry flt now i w msg r m s)"
| "task_step now (flt, OpRelease i w) s = fst (ReleaseLease flt now i w s)"
| "task_step now (flt, OpRequestCancel i at) s = fst (RequestCancel flt now i at s)"
| "task_step now (flt, OpReset i at) s = fst (ResetForRetry flt now i at s)"
| "task_step now (flt, OpPause i at) s = fst (PauseIfNotRunning flt now i at s)"
| "task_step now (flt, OpDelete i) s = fst (Delete_task flt i s)"
| "task_step now (flt, OpDeleteMany ids) s = fst (DeleteMany flt ids s)"

text \<open>The worker on whose behalf an operation acts.\<close>
fun task_actor :: "fault \<times> task_op \<Rightarrow> string option" where
  "task_actor (_, OpClaim _ w _ _) = Some w"
| "task_actor (_, OpRenew _ w _) = Some w"
| "task_actor (_, OpProgress _ w _ _ _) = Some w"
| "task_actor (_, OpSuccess _ w _ _ _ _ _ _) = Some w"
| "task_actor (_, OpFinishCanceled _ w _ _) = Some w"
| "task_actor (_, OpFail _ w _ _ _) = Some w"
| "task_actor (_, OpRelease _ w) = Some w"
| "task_actor _ = None"

text \<open>
  What a step may do to one row: the abstract lifecycle of a task.  Every field update of the
  repository is one of these rules, and a step applies at most one of them to a row.
\<close>
inductive row_move :: "time \<Rightarrow> task_op \<Rightarrow> upload_task \<Rightarrow> upload_task \<Rightarrow> bool" for now where
  stay: "row_move now a t t"
| queued_cancel: "task_Status t \<in> {TaskStatusPending, TaskStatusPaused, TaskStatusFailed} \<Longrightarrow>
    cancel_requested t \<Longrightarrow> row_move now (OpClaim locked w d m) t (queued_row now t)"
| abandoned_cancel: "task_Status t = TaskStatusRunning \<Longrightarrow> cancel_requested t \<Longrightarrow> lease_inactive now t \<Longrightarrow>
    row_move now (OpClaim locked w d m) t (abandoned_row now t)"
| exhausted: "task_Status t = TaskStatusRunning \<Longrightarrow> \<not> cancel_requested t \<Longrightarrow> lease_inactive now t \<Longrightarrow>
    max 1 m \<le> int (task_RetryCount t) \<Longrightarrow>
    row_move now (OpClaim locked w d m) t (exhausted_row now t)"
| claim: "claimable now (max 1 m) t \<Longrightarrow> \<not> locked (task_ID t) \<Longrightarrow>
    row_move now (OpClaim locked w d m) t (claim_row now w d t)"
| renew: "owned i w t \<Longrightarrow> \<not> cancel_requested t \<Longrightarrow> row_move now (OpRenew i w d) t (renew_row now d t)"
| progress: "owned i w t \<Longrightarrow>
    row_move now (OpProgress i w pct speed at) t (progress_row now pct speed at t)"
| succeed: "owned i w t \<Longrightarrow> \<not> cancel_requested t \<Longrightarrow>
    row_move now (OpSuccess i w fid fp rn rp fin dur) t (succeed_row now fin dur t)"
| finish_canceled: "owned i w t \<Longrightarrow>
    row_move now (OpFinishCanceled i w fin msg) t (canceled_row now fin msg t)"
| fail: "owned i w t \<Longrightarrow>
    row_move now (OpFail i w msg r m) t (fail_row now msg r (failure_status m t) t)"
| release_cancel: "owned i w t \<Longrightarrow> cancel_requested t \<Longrightarrow>
    row_move now (OpRelease i w) t
      (canceled_row now now ''task canceled while worker lease was being released'' t)"
| release: "owned i w t \<Longrightarrow> \<not> cancel_requested t \<Longrightarrow> row_move now (OpRelease i w) t (release_row now t)"
| request_cancel: "task_ID t = i \<Longrightarrow> task_Status t \<notin> {TaskStatusSuccess, TaskStatusCanceled} \<Longrightarrow>
    row_move now (OpRequestCancel i at) t (cancel_row now at t)"
| reset: "retryable i t \<Longrightarrow> row_move now (OpReset i at) t (reset_row now at t)"
| pause: "pausable i t \<Longrightarrow> row_move now (OpPause i at) t (pause_row now at t)"

lemmas row_defs = queued_row_def abandoned_row_def exhausted_row_def claim_row_def renew_row_def
  progress_row_def succeed_row_def canceled_row_def fail_row_def release_row_def cancel_row_def
  reset_row_def pause_row_def

lemma row_ids [simp]:
  "task_ID (queued_row n t) = task_ID t" "task_ID (abandoned_row n t) = task_ID t"
  "task_ID (exhausted_row n t) = task_ID t" "task_ID (claim_row n w d t) = task_ID t"
  "task_ID (renew_row n d t) = task_ID t" "task_ID (progress_row n p sp at t) = task_ID t"
  "task_ID (succeed_row n f du t) = task_ID t" "task_ID (canceled_row n f m t) = task_ID t"
  "task_ID (fail_row n m r st t) = task_ID t" "task_ID (release_row n t) = task_ID t"
  "task_ID (cancel_row n at t) = task_ID t" "task_ID (reset_row n at t) = task_ID t"
  "task_ID (pause_row n at t) = task_ID t"
  by (simp_all add: row_defs)

lemma row_keys [simp]:
  "task_IdempotencyKey (queued_row n t) = task_IdempotencyKey t"
  "task_IdempotencyKey (abandoned_row n t) = task_IdempotencyKey t"
  "task_IdempotencyKey (exhausted_row n t) = task_IdempotencyKey t"
  "task_IdempotencyKey (claim_row n w d t) = task_IdempotencyKey t"
  "task_IdempotencyKey (renew_row n d t) = task_IdempotencyKey t"
  "task_IdempotencyKey (progress_row n p sp at t) = task_IdempotencyKey t"
  "task_IdempotencyKey (succeed_row n f du t) = task_IdempotencyKey t"
  "task_IdempotencyKey (canceled_row n f m t) = task_IdempotencyKey t"
  "task_IdempotencyKey (fail_row n m r st t) = task_IdempotencyKey t"
  "task_IdempotencyKey (release_row n t) = task_IdempotencyKey t"
  "task_IdempotencyKey (cancel_row n at t) = task_IdempotencyKey t"
  "task_IdempotencyKey (reset_row n at t) = task_IdempotencyKey t"
  "task_IdempotencyKey (pause_row n at t) = task_IdempotencyKey t"
  by (simp_all add: row_defs)

lemma row_move_same_key:
  "row_move n a t t' \<Longrightarrow> task_ID t' = task_ID t \<and> task_IdempotencyKey t' = task_IdempotencyKey t"
  by (induction rule: row_move.induct) auto

subsection \<open>Every step moves rows along the lifecycle\<close>

definition moved :: "time \<Rightarrow> task_op \<Rightarrow> db \<Rightarrow> db \<Rightarrow> bool" where
  "moved now a s s' \<longleftrightarrow> next_task s' = next_task s \<and>
     (\<exists>g. tasks s' = map g (tasks s) \<and> (\<forall>t \<in> set (tasks s). row_move now a t (g t)))"

lemma moved_refl [intro]: "moved now a s s"
  unfolding moved_def by (intro conjI refl exI[of _ id]) (simp_all add: row_move.stay)

lemma moved_update:
  assumes "\<And>t. t \<in> set (tasks s) \<Longrightarrow> p t \<Longrightarrow> row_move now a t (u t)"
  shows "moved now a s (update_tasks p u s)"
  unfolding moved_def
  by (intro conjI exI[of _ "\<lambda>t. if p t then u t else t"])
     (auto simp: update_tasks_def update_where_def assms row_move.stay)

lemma tasks_update_tasks [simp]: "tasks (update_tasks p u s) = update_where p u (tasks s)"
  by (simp add: update_tasks_def)

lemma moved_files [simp]: "moved now a s (s'\<lparr>files := fs\<rparr>) = moved now a s s'"
  by (simp add: moved_def)

lemma best_task_in: "best_task ts = Some t \<Longrightarrow> t \<in> set ts"
  by (induction ts arbitrary: t) (auto split: option.splits if_splits)

lemma best_task_None: "best_task ts = None \<longleftrightarrow> ts = []"
  by (cases ts) (auto split: option.splits)

lemma best_task_greatest:
  "best_task ts = Some b \<Longrightarrow> t \<in> set ts \<Longrightarrow>
     task_Priority t < task_Priority b \<or> (task_Priority t = task_Priority b \<and> task_ID b \<le> task_ID t)"
proof (induction ts arbitrary: b)
  case (Cons a ts)
  show ?case
  proof (cases "best_task ts")
    case None
    with Cons.prems show ?thesis by (simp add: best_task_None)
  next
    case (Some c)
    have "t = a \<or> task_Priority t < task_Priority c
        \<or> (task_Priority t = task_Priority c \<and> task_ID c \<le> task_ID t)"
      using Cons.IH[OF Some] Cons.prems(2) by auto
    with Some Cons.prems(1) show ?thesis by (auto split: if_splits)
  qed
qed simp

definition swept :: "time \<Rightarrow> int \<Rightarrow> db \<Rightarrow> db" where
  "swept now m s = expire_exhausted now m (finalize_abandoned now (finalize_queued now s))"

definition swept_row :: "time \<Rightarrow> int \<Rightarrow> upload_task \<Rightarrow> upload_task" where
  "swept_row now m t =
     (if task_Status t \<in> {TaskStatusPending, TaskStatusPaused, TaskStatusFailed} \<and> cancel_requested t
      then queued_row now t
      else if task_Status t = TaskStatusRunning \<and> cancel_requested t \<and> lease_inactive now t
      then abandoned_row now t
      else if task_Status t = TaskStatusRunning \<and> lease_inactive now t \<and> m \<le> int (task_RetryCount t)
      then exhausted_row now t else t)"

lemma tasks_update_map: "tasks (update_tasks p u s) = map (\<lambda>t. if p t then u t else t) (tasks s)"
  by (simp add: update_where_def)

lemma tasks_swept: "tasks (swept now m s) = map (swept_row now m) (tasks s)"
proof -
  have 1: "task_Status (queued_row now t) = TaskStatusCanceled"
    "task_Status (abandoned_row now t) = TaskStatusCanceled" for t
    by (simp_all add: row_defs)
  define p1 where "p1 = (\<lambda>t. task_Status t \<in> {TaskStatusPending, TaskStatusPaused, TaskStatusFailed}
    \<and> cancel_requested t)"
  define p2 where "p2 = (\<lambda>t. task_Status t = TaskStatusRunning \<and> cancel_requested t \<and> lease_inactive now t)"
  define p3 where "p3 = (\<lambda>t. task_Status t = TaskStatusRunning \<and> lease_inactive now t
    \<and> m \<le> int (task_RetryCount t))"
  define f1 where "f1 = (\<lambda>t. if p1 t then queued_row now t else t)"
  define f2 where "f2 = (\<lambda>t. if p2 t then abandoned_row now t else t)"
  define f3 where "f3 = (\<lambda>t. if p3 t then exhausted_row now t else t)"
  have row: "swept_row now m t = (if p1 t then queued_row now t else if p2 t then abandoned_row now t
      else if p3 t then exhausted_row now t else t)" for t
    by (simp add: swept_row_def p1_def p2_def p3_def)
  have no: "\<not> p2 (queued_row now t)" "\<not> p3 (queued_row now t)" "\<not> p3 (abandoned_row now t)" for t
    by (simp_all add: p2_def p3_def 1)
  have "f3 (f2 (f1 t)) = swept_row now m t" for t
    unfolding row f1_def f2_def f3_def using no by simp
  moreover have "tasks (swept now m s) = map f3 (map f2 (map f1 (tasks s)))"
    unfolding swept_def expire_exhausted_def finalize_abandoned_def finalize_queued_def
      f1_def f2_def f3_def p1_def p2_def p3_def by (simp only: tasks_update_map)
  ultimately show ?thesis by simp
qed

lemma swept_row_claimable: "claimable now m (swept_row now m t) \<Longrightarrow> swept_row now m t = t"
proof -
  have "task_Status (queued_row now t) = TaskStatusCanceled"
    "task_Status (abandoned_row now t) = TaskStatusCanceled"
    "task_Status (exhausted_row now t) = TaskStatusFailed"
    by (simp_all add: row_defs)
  then have "\<not> claimable now m (queued_row now t)" "\<not> claimable now m (abandoned_row now t)"
    "\<not> claimable now m (exhausted_row now t)"
    by (simp_all add: claimable_def)
  moreover have "swept_row now m t \<in> {t, queued_row now t, abandoned_row now t, exhausted_row now t}"
    by (simp add: swept_row_def)
  ultimately show "claimable now m (swept_row now m t) \<Longrightarrow> swept_row now m t = t"
    by auto
qed

lemma swept_row_id [simp]: "task_ID (swept_row now m t) = task_ID t"
  by (simp add: swept_row_def)

text \<open>A claim: the sweeps, then the first claimable row by priority; or nothing at all.\<close>
lemma ClaimNext_cases:
  assumes "ClaimNext flt locked now w d m s = (s', r)"
  obtains (fault) k where "s' = s" "r = Inl (ErrDB k)"
  | (empty) "s' = s" "r = Inr None"
      "\<forall>t \<in> set (tasks s). claimable now (max 1 m) t \<longrightarrow> locked (task_ID t)"
  | (lost) "s' = s" "r = Inl ErrRecordNotFound"
  | (claimed) t t' where "t \<in> set (tasks s)" "claimable now (max 1 m) t" "\<not> locked (task_ID t)"
      "best_task (filter (\<lambda>t. claimable now (max 1 m) t \<and> \<not> locked (task_ID t))
                    (tasks (swept now (max 1 m) s))) = Some t"
      "s' = update_tasks (\<lambda>x. task_ID x = task_ID t) (claim_row now w d) (swept now (max 1 m) s)"
      "r = Inr (Some t')" "task_by (task_ID t) s' = Some t'"
proof -
  let ?m = "max 1 m"
  have m: "(if m \<le> 0 then 1 else m) = ?m" by auto
  let ?f = "\<lambda>t. claimable now ?m t \<and> \<not> locked (task_ID t)"
  note D = assms[unfolded ClaimNext_def m Let_def, folded swept_def]
  consider (A) k where "s' = s" "r = Inl (ErrDB k)"
    | (B) "\<not> flt 0 \<and> \<not> flt 1 \<and> \<not> flt 2 \<and> \<not> flt 3 \<and> \<not> flt 4"
    using D by (auto split: if_splits)
  then show thesis
  proof cases
    case A then show thesis by (rule fault)
  next
    case B
    show thesis
    proof (cases "best_task (filter ?f (tasks (swept now ?m s)))")
      case None
      then have none: "\<forall>t \<in> set (tasks (swept now ?m s)). \<not> ?f t"
        by (simp add: best_task_None filter_empty_conv)
      have "locked (task_ID t)" if "t \<in> set (tasks s)" "claimable now ?m t" for t
      proof -
        have "swept_row now ?m t = t"
          using that(2) by (auto simp: swept_row_def claimable_def)
        with that none show ?thesis by (force simp: tasks_swept)
      qed
      with None D B empty show thesis by auto
    next
      case (Some t)
      then have "t \<in> set (tasks (swept now ?m s))" and c: "claimable now ?m t" "\<not> locked (task_ID t)"
        by (auto dest: best_task_in)
      then obtain t0 where "t0 \<in> set (tasks s)" "t = swept_row now ?m t0"
        by (auto simp: tasks_swept)
      with c have "t \<in> set (tasks s)" by (metis swept_row_claimable)
      note c' = claimed[OF this c Some]
      show thesis
      proof (cases "flt 5 \<or> flt 6")
        case True
        with D B Some fault show thesis by (auto split: if_splits)
      next
        case False
        let ?s2 = "update_tasks (\<lambda>x. task_ID x = task_ID t) (claim_row now w d) (swept now ?m s)"
        show thesis
        proof (cases "task_by (task_ID t) ?s2")
          case None
          with D B Some False lost show thesis by simp
        next
          case (Some t')
          show thesis
          proof (cases "flt 7")
            case True
            with D B \<open>best_task _ = Some t\<close> False Some show thesis by (intro fault[of 7]) simp_all
          next
            case F7: False
            with D B \<open>best_task _ = Some t\<close> False Some show thesis by (intro c'[of t']) simp_all
          qed
        qed
      qed
    qed
  qed
qed

lemma swept_row_move: "row_move now (OpClaim locked w d m) t (swept_row now (max 1 m) t)"
  unfolding swept_row_def
  by (auto intro: row_move.intros)

lemma ClaimNext_moved:
  assumes keys: "distinct (map task_ID (tasks s))"
  shows "moved now (OpClaim locked w d m) s (fst (ClaimNext flt locked now w d m s))"
proof (cases "ClaimNext flt locked now w d m s")
  case (Pair s' r)
  then show ?thesis
  proof (cases rule: ClaimNext_cases)
    case (claimed t t')
    let ?g = "\<lambda>x. if task_ID x = task_ID t then claim_row now w d x else swept_row now (max 1 m) x"
    have same: "swept_row now (max 1 m) t = t"
      using claimed(2) by (auto simp: swept_row_def claimable_def)
    have key: "x = t" if "x \<in> set (tasks s)" "task_ID x = task_ID t" for x
      using key_unique[OF keys] that claimed(1) by blast
    have "tasks s' = map ?g (tasks s)"
      unfolding claimed(5) tasks_update_map tasks_swept map_map o_def
      by (intro map_cong refl) (auto simp: same dest: key)
    moreover have "row_move now (OpClaim locked w d m) x (?g x)" if "x \<in> set (tasks s)" for x
      using that key[OF that] claimed(2,3) by (auto intro: row_move.claim swept_row_move)
    moreover have "next_task s' = next_task s"
      by (simp add: claimed(5) update_tasks_def swept_def expire_exhausted_def finalize_abandoned_def
            finalize_queued_def)
    ultimately show ?thesis unfolding Pair fst_conv moved_def by blast
  qed (simp_all add: Pair moved_refl)
qed

text \<open>Steps neither invent nor reuse keys: they move rows, append fresh ones or delete.\<close>

definition fresh_task :: "upload_task \<Rightarrow> bool" where
  "fresh_task t \<longleftrightarrow> task_Status t = TaskStatusPending \<and> task_LeaseOwner t = ''''
     \<and> task_LeaseExpiresAt t = None \<and> task_HeartbeatAt t = None \<and> task_CancelRequestedAt t = None
     \<and> task_NextRetryAt t = None \<and> task_FinishedAt t = None \<and> task_RetryCount t = 0"

fun okop :: "int \<Rightarrow> fault \<times> task_op \<Rightarrow> bool" where
  "okop M (_, OpCreate t) = fresh_task t"
| "okop M (_, OpCreateMany ts _) = list_all fresh_task ts"
| "okop M (_, OpClaim _ w d m) = (w \<noteq> '''' \<and> max 1 m \<le> M)"
| "okop M (_, _) = True"

definition keys_fresh :: "db \<Rightarrow> bool" where
  "keys_fresh s \<longleftrightarrow> distinct (map task_ID (tasks s)) \<and> (\<forall>t \<in> set (tasks s). task_ID t < next_task s)
     \<and> distinct (filter (\<lambda>k. k \<noteq> None) (map task_IdempotencyKey (tasks s)))"

inductive grown :: "db \<Rightarrow> db \<Rightarrow> bool" where
  none: "grown s s"
| more: "grown s s' \<Longrightarrow> fresh_task t \<Longrightarrow> grown s (fst (insert_task now t s'))"

lemma insert_task_keys_fresh: "keys_fresh s \<Longrightarrow> keys_fresh (fst (insert_task now t s))"
  by (force simp: keys_fresh_def insert_task_def key_taken_def Let_def)

lemma insert_batch_grown:
  "grown s0 s \<Longrightarrow> list_all fresh_task ts \<Longrightarrow> grown s0 (fst (insert_batch now ts s))"
proof (induction ts arbitrary: s)
  case (Cons t ts)
  obtain s' c t' where i: "insert_task now t s = (s', c, t')" by (cases "insert_task now t s")
  with Cons.prems grown.more[of s0 s t now] have "grown s0 s'" by simp
  with Cons i show ?case by (simp add: case_prod_beta)
qed simp

lemma insert_batches_grown:
  "grown s0 s \<Longrightarrow> list_all (list_all fresh_task) bs
     \<Longrightarrow> insert_batches flt k now bs s = Inr (s', n) \<Longrightarrow> grown s0 s'"
proof (induction bs arbitrary: s k n)
  case (Cons b bs)
  obtain s1 n1 where i: "insert_batch now b s = (s1, n1)" by (cases "insert_batch now b s")
  with Cons.prems insert_batch_grown[of s0 s b now] have "grown s0 s1" by simp
  with Cons i show ?case
    by (auto simp: bind_res_Inr split: if_splits)
qed simp

lemma batches_fresh: "list_all fresh_task ts \<Longrightarrow> list_all (list_all fresh_task) (batches n ts)"
proof (cases "0 < n")
  case True
  then have "set (concat (batches n ts)) = set ts" by (simp add: concat_batches)
  moreover assume "list_all fresh_task ts"
  ultimately show ?thesis by (auto simp: list_all_iff)
qed (simp add: batches.simps)

lemma CreateIfAbsent_grown: "fresh_task t \<Longrightarrow> grown s (fst (CreateIfAbsent flt now t s))"
  using grown.more[OF grown.none, of t s now]
  by (auto simp: CreateIfAbsent_def case_prod_beta grown.none)

lemma CreateManyIfAbsent_grown:
  "list_all fresh_task ts \<Longrightarrow> grown s (fst (CreateManyIfAbsent flt now ts b s))"
  by (auto simp: CreateManyIfAbsent_def grown.none split: sum.splits
        intro: insert_batches_grown[OF grown.none batches_fresh])

lemma RenewLease_moved: "moved now (OpRenew i w d) s (fst (RenewLease flt now i w d s))"
  by (auto simp: RenewLease_def Let_def intro!: moved_update row_move.renew)

lemma UpdateProgress_moved:
  "moved now (OpProgress i w pct sp at) s (fst (UpdateProgress flt now i w pct sp at s))"
  by (auto simp: UpdateProgress_def Let_def intro!: moved_update row_move.progress)

lemma FinishSuccess_moved:
  "moved now (OpSuccess i w fid fp rn rp fin dur) s (fst (FinishSuccess flt now i w fid fp rn rp fin dur s))"
proof -
  have "moved now (OpSuccess i w fid fp rn rp fin dur) s
          (update_tasks (\<lambda>t. owned i w t \<and> \<not> cancel_requested t) (succeed_row now fin dur) s)"
    by (auto intro!: moved_update row_move.succeed)
  then show ?thesis by (simp add: FinishSuccess_def Let_def moved_refl)
qed

lemma FinishCanceled_moved:
  "moved now (OpFinishCanceled i w fin msg) s (fst (FinishCanceled flt now i w fin msg s))"
  by (auto simp: FinishCanceled_def Let_def intro!: moved_update row_move.finish_canceled)

lemma ResetForRetry_moved: "moved now (OpReset i at) s (fst (ResetForRetry flt now i at s))"
  by (auto simp: ResetForRetry_def Let_def intro!: moved_update row_move.reset)

lemma PauseIfNotRunning_moved: "moved now (OpPause i at) s (fst (PauseIfNotRunning flt now i at s))"
  by (auto simp: PauseIfNotRunning_def Let_def intro!: moved_update row_move.pause)

lemma ReleaseLease_moved: "moved now (OpRelease i w) s (fst (ReleaseLease flt now i w s))"
proof -
  let ?p = "\<lambda>t. owned i w t \<and> cancel_requested t"
  let ?u = "canceled_row now now ''task canceled while worker lease was being released''"
  have 1: "moved now (OpRelease i w) s (update_tasks ?p ?u s)"
    by (auto intro!: moved_update row_move.release_cancel)
  have 2: "update_tasks ?p ?u s = s" if "tasks_affected ?p ?u s = 0"
    using rows_affected_0[of ?p ?u "tasks s"] that by (simp add: update_tasks_def tasks_affected_def)
  have 3: "moved now (OpRelease i w) s
      (update_tasks (\<lambda>t. owned i w t \<and> \<not> cancel_requested t) (release_row now) s)"
    by (auto intro!: moved_update row_move.release)
  from 1 2 3 show ?thesis
    by (cases "tasks_affected ?p ?u s = 0") (auto simp: ReleaseLease_def Let_def)
qed

lemma FailOrRetry_moved:
  assumes "distinct (map task_ID (tasks s))"
  shows "moved now (OpFail i w msg r m) s (fst (FailOrRetry flt now i w msg r m s))"
proof (cases "first_where (owned i w) (tasks s)")
  case (Some t)
  then have t: "t \<in> set (tasks s)" "owned i w t" by (auto dest: first_where_Some)
  have "moved now (OpFail i w msg r m) s
      (update_tasks (\<lambda>x. task_ID x = i) (fail_row now msg r (failure_status m t)) s)"
  proof (rule moved_update)
    fix x assume "x \<in> set (tasks s)" "task_ID x = i"
    then have "x = t" using key_unique[OF assms] t by (auto simp: owned_def)
    with t show "row_move now (OpFail i w msg r m) x (fail_row now msg r (failure_status m t) x)"
      by (auto intro: row_move.fail)
  qed
  with Some show ?thesis by (simp add: FailOrRetry_def Let_def moved_refl)
qed (simp add: FailOrRetry_def moved_refl)

lemma RequestCancel_moved:
  assumes "distinct (map task_ID (tasks s))"
  shows "moved now (OpRequestCancel i at) s (fst (RequestCancel flt now i at s))"
proof (cases "task_by i s")
  case (Some t)
  then have t: "t \<in> set (tasks s)" "task_ID t = i" by (auto dest: task_by_Some)
  show ?thesis
  proof (cases "task_Status t \<in> {TaskStatusSuccess, TaskStatusCanceled}")
    case False
    have "moved now (OpRequestCancel i at) s (update_tasks (\<lambda>x. task_ID x = i) (cancel_row now at) s)"
    proof (rule moved_update)
      fix x assume "x \<in> set (tasks s)" "task_ID x = i"
      then have "x = t" using key_unique[OF assms] t by auto
      with t False show "row_move now (OpRequestCancel i at) x (cancel_row now at x)"
        by (intro row_move.request_cancel) simp_all
    qed
    with Some show ?thesis by (simp add: RequestCancel_def Let_def moved_refl)
  qed (use Some in \<open>auto simp: RequestCancel_def moved_refl\<close>)
qed (simp add: RequestCancel_def moved_refl)

definition dropped :: "db \<Rightarrow> db \<Rightarrow> bool" where
  "dropped s s' \<longleftrightarrow> next_task s' = next_task s \<and>
     (\<exists>q. tasks s' = filter q (tasks s) \<and> (\<forall>t \<in> set (tasks s). task_Status t = TaskStatusRunning \<longrightarrow> q t))"

lemma dropped_refl: "dropped s s"
  unfolding dropped_def by (intro conjI refl exI[of _ "\<lambda>_. True"]) auto

lemma dropped_delete:
  "(\<And>t. p t \<Longrightarrow> task_Status t \<noteq> TaskStatusRunning) \<Longrightarrow> dropped s (s\<lparr>tasks := delete_where p (tasks s)\<rparr>)"
  unfolding dropped_def delete_where_def by (intro conjI exI[of _ "\<lambda>t. \<not> p t"]) auto

lemma Delete_task_dropped: "dropped s (fst (Delete_task flt i s))"
proof -
  let ?p = "\<lambda>t. task_ID t = i \<and> task_Status t \<noteq> TaskStatusRunning"
  have "dropped s (s\<lparr>tasks := delete_where ?p (tasks s)\<rparr>)" by (rule dropped_delete) simp
  then show ?thesis by (simp add: Delete_task_def Let_def dropped_refl split: option.split)
qed

lemma DeleteMany_dropped: "dropped s (fst (DeleteMany flt ids s))"
proof -
  have "dropped s (s\<lparr>tasks := delete_where (\<lambda>t. P t \<and> task_Status t \<noteq> TaskStatusRunning)
      (tasks s)\<rparr>)" for P
    by (rule dropped_delete) simp
  then show ?thesis by (simp add: DeleteMany_def Let_def dropped_refl)
qed

theorem task_step_shape:
  assumes "distinct (map task_ID (tasks s))" "okop M (flt, a)"
  shows "moved now a s (task_step now (flt, a) s) \<or> grown s (task_step now (flt, a) s)
       \<or> dropped s (task_step now (flt, a) s)"
  using assms
  by (cases a) (simp_all add: CreateIfAbsent_grown CreateManyIfAbsent_grown ClaimNext_moved
    RenewLease_moved UpdateProgress_moved FinishSuccess_moved FinishCanceled_moved FailOrRetry_moved
    ReleaseLease_moved RequestCancel_moved ResetForRetry_moved PauseIfNotRunning_moved
    Delete_task_dropped DeleteMany_dropped)

subsection \<open>The task invariant\<close>

text \<open>What holds of every stored row, when every claim bounds the attempts by \<open>M\<close>.\<close>
definition row_ok :: "int \<Rightarrow> upload_task \<Rightarrow> bool" where
  "row_ok M t \<longleftrightarrow>
     (task_Status t = TaskStatusRunning \<longrightarrow>
        task_LeaseOwner t \<noteq> '''' \<and> task_LeaseExpiresAt t \<noteq> None \<and> task_HeartbeatAt t \<noteq> None
        \<and> task_StartedAt t \<noteq> None \<and> 0 < task_RetryCount t) \<and>
     (task_Status t \<noteq> TaskStatusRunning \<longrightarrow>
        task_LeaseOwner t = '''' \<and> task_LeaseExpiresAt t = None \<and> task_HeartbeatAt t = None
        \<and> task_CancelRequestedAt t = None) \<and>
     int (task_RetryCount t) \<le> M \<and>
     (task_Status t = TaskStatusSuccess \<longrightarrow> task_Progress t = 10000) \<and>
     (task_Status t \<in> {TaskStatusSuccess, TaskStatusFailed, TaskStatusCanceled} \<longrightarrow> task_FinishedAt t \<noteq> None) \<and>
     (task_Status t \<in> {TaskStatusPending, TaskStatusRunning} \<longrightarrow> task_FinishedAt t = None) \<and>
     (task_NextRetryAt t \<noteq> None \<longrightarrow> task_Status t = TaskStatusPending)"

definition task_inv :: "int \<Rightarrow> db \<Rightarrow> bool" where
  "task_inv M s \<longleftrightarrow> 0 \<le> M \<and> keys_fresh s \<and> (\<forall>t \<in> set (tasks s). row_ok M t)"

lemma row_ok_queued: "row_ok M t \<Longrightarrow> task_Status t \<noteq> TaskStatusRunning \<Longrightarrow> row_ok M (queued_row n t)"
  by (auto simp: row_ok_def row_defs)
lemma row_ok_abandoned:
  "row_ok M t \<Longrightarrow> task_Status t = TaskStatusRunning \<Longrightarrow> row_ok M (abandoned_row n t)"
  by (auto simp: row_ok_def row_defs)
lemma row_ok_exhausted:
  "row_ok M t \<Longrightarrow> task_Status t = TaskStatusRunning \<Longrightarrow> \<not> cancel_requested t \<Longrightarrow> row_ok M (exhausted_row n t)"
  by (auto simp: row_ok_def row_defs cancel_requested_def)
lemma row_ok_claim:
  "row_ok M t \<Longrightarrow> int (task_RetryCount t) < M \<Longrightarrow> w \<noteq> '''' \<Longrightarrow> row_ok M (claim_row n w d t)"
  by (auto simp: row_ok_def row_defs)
lemma row_ok_renew: "row_ok M t \<Longrightarrow> task_Status t = TaskStatusRunning \<Longrightarrow> row_ok M (renew_row n d t)"
  by (auto simp: row_ok_def row_defs)
lemma row_ok_progress:
  "row_ok M t \<Longrightarrow> task_Status t = TaskStatusRunning \<Longrightarrow> row_ok M (progress_row n p sp at t)"
  by (auto simp: row_ok_def row_defs)
lemma row_ok_succeed: "row_ok M t \<Longrightarrow> row_ok M (succeed_row n f du t)"
  by (auto simp: row_ok_def row_defs)
lemma row_ok_canceled: "row_ok M t \<Longrightarrow> row_ok M (canceled_row n f msg t)"
  by (auto simp: row_ok_def row_defs)
lemma row_ok_fail: "row_ok M t \<Longrightarrow> row_ok M (fail_row n msg r (failure_status m t) t)"
  by (auto simp: row_ok_def row_defs failure_status_def cancel_requested_def)
lemma row_ok_release:
  "row_ok M t \<Longrightarrow> task_Status t = TaskStatusRunning \<Longrightarrow> \<not> cancel_requested t \<Longrightarrow> row_ok M (release_row n t)"
  by (auto simp: row_ok_def row_defs cancel_requested_def)
lemma row_ok_cancel: "row_ok M t \<Longrightarrow> task_Status t \<noteq> TaskStatusSuccess \<Longrightarrow> row_ok M (cancel_row n at t)"
  by (auto simp: row_ok_def row_defs)
lemma row_ok_reset: "0 \<le> M \<Longrightarrow> row_ok M t \<Longrightarrow> row_ok M (reset_row n at t)"
  by (auto simp: row_ok_def row_defs)
lemma row_ok_pause: "row_ok M t \<Longrightarrow> task_Status t \<noteq> TaskStatusRunning \<Longrightarrow> row_ok M (pause_row n at t)"
  by (auto simp: row_ok_def row_defs)
lemma row_ok_fresh:
  "0 \<le> M \<Longrightarrow> fresh_task t \<Longrightarrow> row_ok M (t\<lparr>task_ID := i, task_CreatedAt := n, task_UpdatedAt := n\<rparr>)"
  by (auto simp: row_ok_def fresh_task_def)

lemmas row_ok_rules = row_ok_queued row_ok_abandoned row_ok_exhausted row_ok_claim row_ok_renew
  row_ok_progress row_ok_succeed row_ok_canceled row_ok_fail row_ok_release row_ok_cancel
  row_ok_reset row_ok_pause row_ok_fresh

lemma row_move_ok:
  assumes "row_move now a t t'" "row_ok M t" "0 \<le> M" "okop M (flt, a)"
  shows "row_ok M t'"
  using assms
  by (induction rule: row_move.induct)
     (auto simp: owned_def claimable_def retryable_def pausable_def intro!: row_ok_rules)

lemma moved_keys_fresh:
  assumes "keys_fresh s" "moved now a s s'"
  shows "keys_fresh s'"
proof -
  obtain g where g: "tasks s' = map g (tasks s)" "next_task s' = next_task s"
    "\<forall>t \<in> set (tasks s). row_move now a t (g t)"
    using assms(2) by (auto simp: moved_def)
  then have "map task_ID (tasks s') = map task_ID (tasks s)"
    "map task_IdempotencyKey (tasks s') = map task_IdempotencyKey (tasks s)"
    by (auto dest: row_move_same_key)
  moreover have "\<forall>t \<in> set (tasks s'). task_ID t < next_task s'"
    using g(2,3) assms(1) row_move_same_key by (auto simp: g(1) keys_fresh_def)
  ultimately show ?thesis using assms(1) by (simp only: keys_fresh_def)
qed

lemma insert_task_inv: "task_inv M s \<Longrightarrow> fresh_task t \<Longrightarrow> task_inv M (fst (insert_task now t s))"
  using insert_task_keys_fresh[of s now t]
  by (auto simp: task_inv_def insert_task_def Let_def row_ok_rules split: if_splits)

lemma grown_inv: "grown s s' \<Longrightarrow> task_inv M s \<Longrightarrow> task_inv M s'"
  by (induction rule: grown.induct) (auto intro: insert_task_inv)

lemma dropped_inv:
  assumes "dropped s s'" "task_inv M s"
  shows "task_inv M s'"
proof -
  obtain q where q: "tasks s' = filter q (tasks s)" "next_task s' = next_task s"
    using assms(1) by (auto simp: dropped_def)
  have "distinct (filter (\<lambda>k. k \<noteq> None) (map f ts)) \<Longrightarrow> distinct (filter (\<lambda>k. k \<noteq> None) (map f (filter q ts)))"
    for f :: "upload_task \<Rightarrow> string option" and ts
    by (induction ts) (auto split: if_splits)
  with assms(2) q show ?thesis
    by (auto simp: task_inv_def keys_fresh_def distinct_map_filter)
qed

theorem task_step_inv:
  assumes "task_inv M s" "okop M (flt, a)"
  shows "task_inv M (task_step now (flt, a) s)"
proof -
  have "moved now a s s' \<Longrightarrow> task_inv M s'" for s'
  proof -
    assume m: "moved now a s s'"
    then obtain g where "tasks s' = map g (tasks s)" "\<forall>t \<in> set (tasks s). row_move now a t (g t)"
      by (auto simp: moved_def)
    then have "row_ok M t'" if "t' \<in> set (tasks s')" for t'
      using that assms row_move_ok by (auto simp: task_inv_def)
    with m assms moved_keys_fresh show ?thesis by (auto simp: task_inv_def)
  qed
  moreover have "distinct (map task_ID (tasks s))" using assms by (simp add: task_inv_def keys_fresh_def)
  ultimately show ?thesis
    using task_step_shape[OF _ assms(2)] assms grown_inv dropped_inv by blast
qed

subsection \<open>Row by row\<close>

lemma task_by_moved:
  assumes "distinct (map task_ID (tasks s))" "moved now a s s'" "task_by i s = Some t"
  obtains t' where "task_by i s' = Some t'" "row_move now a t t'"
proof -
  obtain g where g: "tasks s' = map g (tasks s)" "\<forall>t \<in> set (tasks s). row_move now a t (g t)"
    using assms(2) by (auto simp: moved_def)
  have t: "t \<in> set (tasks s)" "task_ID t = i" using assms(3) by (auto dest: task_by_Some)
  with g have mv: "row_move now a t (g t)" by blast
  have "task_ID (g x) = task_ID x" if "x \<in> set (tasks s)" for x
    using g(2) that row_move_same_key by blast
  then have "map task_ID (tasks s') = map task_ID (tasks s)" by (simp add: g(1))
  with assms(1) have "distinct (map task_ID (tasks s'))" by simp
  moreover have "g t \<in> set (tasks s')" using g(1) t(1) by simp
  ultimately have "task_by (task_ID (g t)) s' = Some (g t)" by (rule task_by_in)
  moreover have "task_ID (g t) = i" using mv t(2) row_move_same_key by blast
  ultimately show thesis using mv that by blast
qed

lemma task_by_moved_back:
  assumes "distinct (map task_ID (tasks s))" "moved now a s s'" "task_by i s' = Some t'"
  obtains t where "task_by i s = Some t" "row_move now a t t'"
proof (cases "task_by i s")
  case None
  obtain g where g: "tasks s' = map g (tasks s)" "\<forall>t \<in> set (tasks s). row_move now a t (g t)"
    using assms(2) by (auto simp: moved_def)
  obtain t where "t \<in> set (tasks s)" "t' = g t" "task_ID t' = i"
    using task_by_Some[OF assms(3)] g(1) by auto
  with g(2) row_move_same_key have "t \<in> set (tasks s)" "task_ID t = i" by fastforce+
  with None show thesis by (auto simp: task_by_def first_where_None)
next
  case (Some t)
  with task_by_moved[OF assms(1,2)] assms(3) that show thesis by (metis option.inject)
qed

lemma find_append: "find P (xs @ ys) = (case find P xs of Some x \<Rightarrow> Some x | None \<Rightarrow> find P ys)"
  by (induction xs) auto

lemma grown_keeps: "grown s s' \<Longrightarrow> task_by i s = Some t \<Longrightarrow> task_by i s' = Some t"
proof (induction rule: grown.induct)
  case (more s s' t0 now)
  then show ?case
    by (auto simp: insert_task_def Let_def task_by_def first_where_def find_append)
qed

lemma grown_new:
  "grown s s' \<Longrightarrow> task_by i s = None \<Longrightarrow> task_by i s' = Some t \<Longrightarrow> task_Status t = TaskStatusPending"
proof (induction rule: grown.induct)
  case (more s s' t0 now)
  then show ?case
    by (auto simp: insert_task_def Let_def task_by_def first_where_def find_append fresh_task_def
        split: if_splits option.splits)
qed simp

lemma dropped_by:
  assumes "distinct (map task_ID (tasks s))" "dropped s s'"
  shows "task_by i s' = task_by i s
    \<or> (task_by i s' = None \<and> (\<exists>t. task_by i s = Some t \<and> task_Status t \<noteq> TaskStatusRunning))"
proof -
  obtain q where q: "tasks s' = filter q (tasks s)"
    "\<forall>t \<in> set (tasks s). task_Status t = TaskStatusRunning \<longrightarrow> q t"
    using assms(2) by (auto simp: dropped_def)
  have "filter q (tasks s) = delete_where (\<lambda>t. \<not> q t) (tasks s)" by (simp add: delete_where_def)
  then have "task_by i s' = (case task_by i s of None \<Rightarrow> None | Some t \<Rightarrow> if q t then Some t else None)"
    using first_where_delete_key[OF assms(1), of i "\<lambda>t. \<not> q t"] by (simp add: task_by_def q(1) split: option.split)
  then show ?thesis using q(2) by (auto split: option.splits dest: task_by_Some)
qed

text \<open>A stored task moves along the lifecycle, is deleted when not running, or stays.\<close>
lemma task_step_row:
  assumes "task_inv M s" "okop M (flt, a)" "task_by i s = Some t"
  shows "(\<exists>t'. task_by i (task_step now (flt, a) s) = Some t' \<and> row_move now a t t')
    \<or> (task_by i (task_step now (flt, a) s) = None \<and> task_Status t \<noteq> TaskStatusRunning)"
proof -
  have d: "distinct (map task_ID (tasks s))" using assms(1) by (simp add: task_inv_def keys_fresh_def)
  from task_step_shape[OF d assms(2), of now] show ?thesis
  proof (elim disjE)
    assume "grown s (task_step now (flt, a) s)"
    from grown_keeps[OF this assms(3)] show ?thesis by (auto intro: row_move.stay)
  next
    assume "dropped s (task_step now (flt, a) s)"
    from dropped_by[OF d this, of i] assms(3) show ?thesis by (auto intro: row_move.stay)
  qed (use task_by_moved[OF d _ assms(3)] in blast)
qed

lemma task_step_row_back:
  assumes "task_inv M s" "okop M (flt, a)" "task_by i (task_step now (flt, a) s) = Some t'"
  shows "(\<exists>t. task_by i s = Some t \<and> row_move now a t t')
    \<or> (task_by i s = None \<and> task_Status t' = TaskStatusPending)"
proof -
  have d: "distinct (map task_ID (tasks s))" using assms(1) by (simp add: task_inv_def keys_fresh_def)
  from task_step_shape[OF d assms(2), of now] show ?thesis
  proof (elim disjE)
    assume m: "moved now a s (task_step now (flt, a) s)"
    show ?thesis using task_by_moved_back[OF d m assms(3)] by blast
  next
    assume g: "grown s (task_step now (flt, a) s)"
    show ?thesis
    proof (cases "task_by i s")
      case None
      with grown_new[OF g _ assms(3)] show ?thesis by simp
    next
      case (Some t)
      with grown_keeps[OF g] assms(3) show ?thesis by (auto intro: row_move.stay)
    qed
  next
    assume "dropped s (task_step now (flt, a) s)"
    from dropped_by[OF d this, of i] assms(3) have "task_by i s = Some t'" by auto
    then show ?thesis using row_move.stay by blast
  qed
qed

subsection \<open>Leases of tasks\<close>

definition task_lease :: "db \<Rightarrow> nat \<Rightarrow> (string \<times> time) option" where
  "task_lease s i =
     (case task_by i s of
        None \<Rightarrow> None
      | Some t \<Rightarrow> if task_Status t = TaskStatusRunning
                  then map_option (Pair (task_LeaseOwner t)) (task_LeaseExpiresAt t) else None)"

lemma task_lease_Some:
  "task_lease s i = Some (w, e) \<longleftrightarrow> (\<exists>t. task_by i s = Some t \<and> owned i w t \<and> task_LeaseExpiresAt t = Some e)"
  by (auto simp: task_lease_def owned_def split: option.splits dest: task_by_Some)

lemma row_move_live:
  assumes "row_move n a t t'" "owned i w t" "task_LeaseExpiresAt t = Some e" "n < e"
    "task_actor (flt, a) \<noteq> Some w"
  shows "owned i w t' \<and> task_LeaseExpiresAt t' = Some e"
  using assms
  by (induction rule: row_move.induct)
     (auto simp: owned_def lease_inactive_def claimable_def retryable_def pausable_def cancel_row_def)

lemma row_move_new_owner:
  assumes "row_move n a t t'" "owned i w t'" "task_LeaseExpiresAt t' = Some e"
  shows "(owned i w t \<and> task_LeaseExpiresAt t = Some e) \<or> task_actor (flt, a) = Some w"
  using assms
  by (induction rule: row_move.induct)
     (auto simp: owned_def row_defs failure_status_def split: if_splits)

interpretation tl: lease_machine task_step task_actor task_lease "\<lambda>_ _. False" "okop M" "task_inv M" for M
proof (unfold_locales, goal_cases)
  case (1 s a n)
  then show ?case by (cases a) (auto intro: task_step_inv)
next
  case (2 s a i w e n)
  obtain flt b where a: "a = (flt, b)" by (cases a)
  from 2(3) obtain t where t: "task_by i s = Some t" "owned i w t" "task_LeaseExpiresAt t = Some e"
    by (auto simp: task_lease_Some)
  from task_step_row[OF 2(1) 2(2)[unfolded a] t(1), of n] t(2)
  obtain t' where "task_by i (task_step n a s) = Some t'" "row_move n b t t'"
    by (auto simp: a owned_def)
  with row_move_live[OF _ t(2,3) 2(4)] 2(5) show ?case by (auto simp: a task_lease_Some)
next
  case (3 s a n i w e)
  obtain flt b where a: "a = (flt, b)" by (cases a)
  from 3(3) obtain t' where t': "task_by i (task_step n a s) = Some t'" "owned i w t'"
    "task_LeaseExpiresAt t' = Some e"
    by (auto simp: task_lease_Some)
  from task_step_row_back[OF 3(1) 3(2)[unfolded a] t'(1)[unfolded a]] t'(2)
  obtain t where "task_by i s = Some t" "row_move n b t t'" by (auto simp: owned_def)
  with row_move_new_owner[OF _ t'(2,3)] show ?case by (auto simp: a task_lease_Some)
qed

subsection \<open>The lifecycle of the documentation\<close>

text \<open>
  The abstract specification of a task: the edges of the state diagram, plus the re-claim of an
  abandoned run and the pause of any task that is neither running nor successful.
\<close>
inductive lifecycle :: "task_status \<Rightarrow> task_status \<Rightarrow> bool" where
  start: "lifecycle TaskStatusPending TaskStatusRunning"
| finish: "st \<noteq> TaskStatusPaused \<Longrightarrow> lifecycle TaskStatusRunning st"
| cancel: "st \<in> {TaskStatusPending, TaskStatusPaused, TaskStatusFailed} \<Longrightarrow> lifecycle st TaskStatusCanceled"
| again: "st \<in> {TaskStatusFailed, TaskStatusCanceled, TaskStatusPaused} \<Longrightarrow> lifecycle st TaskStatusPending"
| hold: "st \<in> {TaskStatusPending, TaskStatusFailed, TaskStatusCanceled} \<Longrightarrow> lifecycle st TaskStatusPaused"

inductive_cases lifecycle_from_success: "lifecycle TaskStatusSuccess st"
inductive_simps lifecycle_to_running: "lifecycle st TaskStatusRunning"
inductive_simps lifecycle_to_paused: "lifecycle st TaskStatusPaused"

lemma row_move_lifecycle:
  "row_move n a t t' \<Longrightarrow> task_Status t' = task_Status t \<or> lifecycle (task_Status t) (task_Status t')"
proof (induction rule: row_move.induct)
  case (request_cancel t i at)
  then show ?case by (cases "task_Status t") (auto simp: row_defs intro: lifecycle.intros)
next
  case (pause i t at)
  then show ?case
    by (cases "task_Status t") (auto simp: pausable_def row_defs intro: lifecycle.intros)
qed (auto simp: row_defs owned_def claimable_def retryable_def failure_status_def intro: lifecycle.intros)

subsection \<open>Samples the witnesses run on\<close>

definition blank_task :: upload_task where
  "blank_task = \<lparr>task_ID = 0, task_FileRecordID = 1, task_WatchFolderID = 1,
     task_WatchFolderName = ''docs'', task_FileName = ''a.txt'', task_LocalPath = ''/d/a.txt'',
     task_RemoteName = ''r'', task_RemotePath = ''b/a.txt'', task_Status = TaskStatusPending,
     task_Progress = 0, task_Speed = 0, task_RetryCount = 0, task_Priority = 0, task_ErrorMsg = '''',
     task_DurationSeconds = 0, task_StartedAt = None, task_FinishedAt = None, task_LastStatusAt = None,
     task_LastProgressAt = None, task_NextRetryAt = None, task_LeaseOwner = '''',
     task_LeaseExpiresAt = None, task_HeartbeatAt = None, task_CancelRequestedAt = None,
     task_CanceledAt = None, task_FileSize = 3, task_FileFingerprint = ''f'',
     task_IdempotencyKey = Some ''k1'', task_AccumulatedFailures = 0, task_CreatedAt = 0,
     task_UpdatedAt = 0\<rparr>"

definition pending_task :: "nat \<Rightarrow> string \<Rightarrow> upload_task" where
  "pending_task i k = blank_task\<lparr>task_ID := i, task_IdempotencyKey := Some k\<rparr>"

definition queue_db :: "upload_task list \<Rightarrow> db" where
  "queue_db ts = empty_db\<lparr>tasks := ts, next_task := 9\<rparr>"

lemmas samples = queue_db_def pending_task_def blank_task_def empty_db_def

lemmas inv_defs = task_inv_def keys_fresh_def row_ok_def

subsection \<open>Properties\<close>



text \<open>
  C2: While a worker's lease is live nobody else gets the task: whatever the other operations are
  and however they interleave, as long as their clock readings are before the expiry and the worker
  itself does not act, the worker keeps exactly the lease it was given, and so no claim of another
  worker can return this task.
\<close>
theorem live_lease_exclusive:
  assumes "task_inv M s" "task_lease s i = Some (w, e)"
    and "list_all (\<lambda>x. okop M (snd x) \<and> fst x < e \<and> task_actor (snd x) \<noteq> Some w) xs"
  shows "task_lease (tl.run xs s) i = Some (w, e)
    \<and> (\<forall>flt locked n w' d m s' t. n < e \<longrightarrow> w' \<noteq> w \<longrightarrow>
         ClaimNext flt locked n w' d m (tl.run xs s) = (s', Inr (Some t)) \<longrightarrow> task_ID t \<noteq> i)"
proof (intro conjI allI impI)
  show l: "task_lease (tl.run xs s) i = Some (w, e)"
    using tl.lease_survives[OF assms(1,2)] assms(3) by simp
  fix flt locked n w' d m s' t
  assume n: "n < e" "w' \<noteq> w"
    and c: "ClaimNext flt locked n w' d m (tl.run xs s) = (s', Inr (Some t))"
  have inv: "task_inv M (tl.run xs s)"
    by (rule tl.inv_run[OF assms(1)]) (use assms(3) in \<open>auto simp: list_all_iff\<close>)
  show "task_ID t \<noteq> i"
  proof
    assume "task_ID t = i"
    with ClaimNext_cases[OF c] obtain t0 where t0: "t0 \<in> set (tasks (tl.run xs s))"
      "claimable n (max 1 m) t0" "task_by (task_ID t0) s' = Some t"
      by (metis Inl_Inr_False Inr_inject option.inject option.distinct(1))
    with \<open>task_ID t = i\<close> have "task_ID t0 = i" by (auto dest: task_by_Some)
    moreover have "distinct (map task_ID (tasks (tl.run xs s)))"
      using inv by (simp add: task_inv_def keys_fresh_def)
    ultimately have "task_by i (tl.run xs s) = Some t0" using task_by_in t0(1) by blast
    with l t0(2) n show False
      by (auto simp: task_lease_Some owned_def claimable_def lease_inactive_def)
  qed
qed

definition running_task :: "nat \<Rightarrow> string \<Rightarrow> upload_task" where
  "running_task i k = claim_row 10 ''w'' 5 (pending_task i k)"

theorem live_lease_exclusive_witness:
  "task_lease (tl.run [(12, (no_fault, OpClaim (\<lambda>_. False) ''v'' 5 3)), (13, (no_fault, OpRequestCancel 1 13)),
       (14, (no_fault, OpDelete 1))] (queue_db [running_task 1 ''a''])) 1 = Some (''w'', 15)"
proof -
  have inv: "task_inv 3 (queue_db [running_task 1 ''a''])"
    by (simp add: inv_defs samples running_task_def claim_row_def)
  have "task_lease (queue_db [running_task 1 ''a'']) 1 = Some (''w'', 15)"
    by (simp add: task_lease_def task_by_def first_where_def samples running_task_def claim_row_def)
  from live_lease_exclusive[OF inv this,
      of "[(12, (no_fault, OpClaim (\<lambda>_. False) ''v'' 5 3)), (13, (no_fault, OpRequestCancel 1 13)),
           (14, (no_fault, OpDelete 1))]"]
  show ?thesis by simp
qed

text \<open>
  C10: From the empty database, every sequence of task operations, under any faults and clock
  readings, leaves a queue in which the rows have distinct keys and distinct idempotency keys, a
  row is running exactly when it has an owner (and then a lease expiry and a heartbeat), only a
  running row carries a cancel request, no row has used more than \<open>M\<close> attempts, and a successful
  row shows full progress and a finish time.
\<close>
theorem reachable_tasks_ok:
  assumes "list_all (\<lambda>x. okop M (snd x)) xs" "0 \<le> M"
  shows "keys_fresh (tl.run xs empty_db)
    \<and> (\<forall>t \<in> set (tasks (tl.run xs empty_db)).
         (task_Status t = TaskStatusRunning \<longleftrightarrow> task_LeaseOwner t \<noteq> '''')
         \<and> (task_Status t = TaskStatusRunning \<longleftrightarrow> task_LeaseExpiresAt t \<noteq> None)
         \<and> (task_CancelRequestedAt t \<noteq> None \<longrightarrow> task_Status t = TaskStatusRunning)
         \<and> int (task_RetryCount t) \<le> M
         \<and> (task_Status t = TaskStatusSuccess \<longrightarrow> task_Progress t = 10000 \<and> task_FinishedAt t \<noteq> None))"
proof -
  have "task_inv M empty_db" using assms(2) by (simp add: inv_defs empty_db_def)
  then have "task_inv M (tl.run xs empty_db)" using assms(1) by (rule tl.inv_run)
  then show ?thesis by (auto simp: task_inv_def row_ok_def)
qed

theorem reachable_tasks_ok_witness:
  "keys_fresh (tl.run [(1, (no_fault, OpCreate (pending_task 0 ''a''))),
     (2, (no_fault, OpClaim (\<lambda>_. False) ''w'' 5 3)), (3, (no_fault, OpRequestCancel 1 3)),
     (9, (\<lambda>k. k = 2, OpClaim (\<lambda>_. False) ''v'' 5 3))] empty_db)"
  using reachable_tasks_ok[of 3 "[(1, (no_fault, OpCreate (pending_task 0 ''a''))),
     (2, (no_fault, OpClaim (\<lambda>_. False) ''w'' 5 3)), (3, (no_fault, OpRequestCancel 1 3)),
     (9, (\<lambda>k. k = 2, OpClaim (\<lambda>_. False) ''v'' 5 3))]"]
  by (simp add: fresh_task_def samples)



text \<open>The error an operation reports, if any.\<close>
fun err_of :: "('e, 'a) result \<Rightarrow> 'e option" where
  "err_of (Inl e) = Some e"
| "err_of (Inr _) = None"

fun task_error :: "time \<Rightarrow> fault \<times> task_op \<Rightarrow> db \<Rightarrow> repo_error option" where
  "task_error now (flt, OpCreate t) s = err_of (snd (CreateIfAbsent flt now t s))"
| "task_error now (flt, OpCreateMany ts b) s = err_of (snd (CreateManyIfAbsent flt now ts b s))"
| "task_error now (flt, OpClaim locked w d m) s = err_of (snd (ClaimNext flt locked now w d m s))"
| "task_error now (flt, OpRenew i w d) s = err_of (snd (RenewLease flt now i w d s))"
| "task_error now (flt, OpProgress i w pct speed at) s
     = err_of (snd (UpdateProgress flt now i w pct speed at s))"
| "task_error now (flt, OpSuccess i w fid fp rn rp fin dur) s
     = err_of (snd (FinishSuccess flt now i w fid fp rn rp fin dur s))"
| "task_error now (flt, OpFinishCanceled i w fin msg) s
     = err_of (snd (FinishCanceled flt now i w fin msg s))"
| "task_error now (flt, OpFail i w msg r m) s = err_of (snd (FailOrRetry flt now i w msg r m s))"
| "task_error now (flt, OpRelease i w) s = err_of (snd (ReleaseLease flt now i w s))"
| "task_error now (flt, OpRequestCancel i at) s = err_of (snd (RequestCancel flt now i at s))"
| "task_error now (flt, OpReset i at) s = err_of (snd (ResetForRetry flt now i at s))"
| "task_error now (flt, OpPause i at) s = err_of (snd (PauseIfNotRunning flt now i at s))"
| "task_error now (flt, OpDelete i) s = err_of (snd (Delete_task flt i s))"
| "task_error now (flt, OpDeleteMany ids) s = err_of (snd (DeleteMany flt ids s))"

lemma ReleaseLease_error: "snd (ReleaseLease flt now i w s) = Inl e \<Longrightarrow> fst (ReleaseLease flt now i w s) = s"
  using rows_affected_0[of "\<lambda>t. owned i w t \<and> cancel_requested t"
      "canceled_row now now ''task canceled while worker lease was being released''" "tasks s"]
  by (auto simp: ReleaseLease_def Let_def update_tasks_def tasks_affected_def split: if_splits)

lemma Delete_task_error: "snd (Delete_task flt i s) = Inl e \<Longrightarrow> fst (Delete_task flt i s) = s"
proof -
  let ?p = "\<lambda>t. task_ID t = i \<and> task_Status t \<noteq> TaskStatusRunning"
  have "\<not> (\<exists>t \<in> set (tasks s). ?p t) \<Longrightarrow> delete_where ?p (tasks s) = tasks s"
    by (simp add: delete_where_def filter_id_conv)
  then show "snd (Delete_task flt i s) = Inl e \<Longrightarrow> fst (Delete_task flt i s) = s"
    by (simp add: Delete_task_def Let_def split: if_splits option.splits)
qed

lemma ClaimNext_error: "snd (ClaimNext flt locked now w d m s) = Inl e \<Longrightarrow> fst (ClaimNext flt locked now w d m s) = s"
  by (cases "ClaimNext flt locked now w d m s") (auto elim: ClaimNext_cases)

lemma err_of_Some [simp]: "err_of r = Some e \<longleftrightarrow> r = Inl e"
  by (cases r) auto

text \<open>
  C12: Every operation of the queue is atomic: whichever of its database calls fails, an operation
  that reports an error has left the database exactly as it was.
\<close>
theorem task_ops_atomic:
  assumes "task_error now (flt, a) s = Some e"
  shows "task_step now (flt, a) s = s"
  using assms
proof (cases a)
  case (OpRelease i w)
  with assms show ?thesis by (simp add: ReleaseLease_error)
next
  case (OpDelete i)
  with assms show ?thesis by (simp add: Delete_task_error)
next
  case (OpClaim locked w d m)
  with assms show ?thesis by (simp add: ClaimNext_error)
qed (auto simp: CreateIfAbsent_def CreateManyIfAbsent_def RenewLease_def UpdateProgress_def
      FinishSuccess_def FinishCanceled_def FailOrRetry_def RequestCancel_def ResetForRetry_def
      PauseIfNotRunning_def DeleteMany_def Let_def split: if_splits option.splits sum.splits prod.splits)

theorem task_ops_atomic_witness:
  "task_step 12 (\<lambda>k. k = 3, OpSuccess 1 ''w'' 1 ''f'' ''r'' ''b/a.txt'' 12 2) (queue_db [running_task 1 ''a''])
   = queue_db [running_task 1 ''a'']"
proof (rule task_ops_atomic)
  show "task_error 12 (\<lambda>k. k = 3, OpSuccess 1 ''w'' 1 ''f'' ''r'' ''b/a.txt'' 12 2)
      (queue_db [running_task 1 ''a'']) = Some (ErrDB 3)"
    by (simp add: FinishSuccess_def Let_def tasks_affected_def rows_affected_def owned_def
        cancel_requested_def samples running_task_def claim_row_def succeed_row_def)
qed

text \<open>
  Failing an attempt: only the owner of a running task can (otherwise nothing changes), and the
  row ends up cancelled if a cancel was requested, pending again with the given retry time while
  attempts are left, and failed otherwise; the lease is cleared, the failure is counted and the
  reported status is the stored one.
\<close>
theorem FailOrRetry_outcome:
  assumes "distinct (map task_ID (tasks s))" "task_by i s = Some t" "r = FailOrRetry no_fault now i w msg retryAt m s"
  shows "if task_Status t = TaskStatusRunning \<and> task_LeaseOwner t = w
    then (\<exists>t'. task_by i (fst r) = Some t' \<and> snd r = Inr (task_Status t')
       \<and> task_Status t' = (if task_CancelRequestedAt t \<noteq> None then TaskStatusCanceled
           else if int (task_RetryCount t) < m then TaskStatusPending else TaskStatusFailed)
       \<and> (task_Status t' = TaskStatusPending \<longleftrightarrow> task_NextRetryAt t' = Some retryAt)
       \<and> (task_Status t' = TaskStatusPending \<longleftrightarrow> task_FinishedAt t' = None)
       \<and> task_LeaseOwner t' = '''' \<and> task_LeaseExpiresAt t' = None
       \<and> task_RetryCount t' = task_RetryCount t
       \<and> task_AccumulatedFailures t' = task_AccumulatedFailures t + 1)
    else r = (s, Inl ErrRecordNotFound)"
proof (cases "owned i w t")
  case True
  then have run: "task_Status t = TaskStatusRunning" "task_LeaseOwner t = w" by (auto simp: owned_def)
  have "t \<in> set (tasks s)" using assms(2) by (auto dest: task_by_Some)
  then have ex: "first_where (owned i w) (tasks s) \<noteq> None" using True by (auto simp: first_where_None)
  then obtain t0 where t0: "first_where (owned i w) (tasks s) = Some t0" by blast
  then have "t0 \<in> set (tasks s)" "task_ID t0 = i" by (auto simp: owned_def dest: first_where_Some)
  with assms(1,2) have "t0 = t" using task_by_in by fastforce
  with t0 have f: "r = (update_tasks (\<lambda>x. task_ID x = i) (fail_row now msg retryAt (failure_status m t)) s,
      Inr (failure_status m t))"
    by (simp add: assms(3) FailOrRetry_def Let_def)
  have "task_by i (fst r) = Some (fail_row now msg retryAt (failure_status m t) t)"
    using assms(2) by (auto simp: f update_tasks_def task_by_update dest: task_by_Some)
  with f run show ?thesis by (simp add: fail_row_def failure_status_def cancel_requested_def)
next
  case False
  have "\<not> owned i w x" if "x \<in> set (tasks s)" for x
  proof
    assume o: "owned i w x"
    then have "task_by i s = Some x" using task_by_in[OF assms(1) that] by (simp add: owned_def)
    with o False assms(2) show False by simp
  qed
  then have "first_where (owned i w) (tasks s) = None" by (simp add: first_where_None)
  moreover have "\<not> (task_Status t = TaskStatusRunning \<and> task_LeaseOwner t = w)"
    using False assms(2) by (auto simp: owned_def dest: task_by_Some)
  ultimately show ?thesis by (simp add: assms(3) FailOrRetry_def)
qed

theorem FailOrRetry_outcome_witness:
  "snd (FailOrRetry no_fault 12 1 ''w'' ''boom'' 20 1 (queue_db [running_task 1 ''a'']))
     = Inr TaskStatusFailed
   \<and> snd (FailOrRetry no_fault 12 1 ''w'' ''boom'' 20 3 (queue_db [running_task 1 ''a'']))
     = Inr TaskStatusPending"
proof -
  let ?s = "queue_db [running_task 1 ''a'']"
  have d: "distinct (map task_ID (tasks ?s))" by (simp add: queue_db_def)
  have t: "task_by 1 ?s = Some (running_task 1 ''a'')"
    by (simp add: task_by_def first_where_def samples running_task_def claim_row_def)
  have r: "task_Status (running_task 1 ''a'') = TaskStatusRunning" "task_LeaseOwner (running_task 1 ''a'') = ''w''"
    "task_CancelRequestedAt (running_task 1 ''a'') = None" "task_RetryCount (running_task 1 ''a'') = 1"
    by (simp_all add: samples running_task_def claim_row_def)
  from FailOrRetry_outcome[OF d t refl, where w = "''w''" and msg = "''boom''" and m = 1 and now = 12 and retryAt = 20]
    FailOrRetry_outcome[OF d t refl, where w = "''w''" and msg = "''boom''" and m = 3 and now = 12 and retryAt = 20] r
  show ?thesis by auto
qed

text \<open>The effect of a conditional update on the row with a key.\<close>

lemma task_by_update_if:
  "(\<And>t. task_ID (u t) = task_ID t) \<Longrightarrow>
     task_by i (update_tasks p u s) = map_option (\<lambda>t. if p t then u t else t) (task_by i s)"
  by (simp add: update_tasks_def task_by_update)

lemma tasks_affected_owned:
  assumes "distinct (map task_ID (tasks s))" "task_by i s = Some t"
  shows "tasks_affected (\<lambda>x. owned i w x \<and> q x) u s = (if owned i w t \<and> q t \<and> u t \<noteq> t then 1 else 0)"
proof -
  have "(\<lambda>x. owned i w x \<and> q x)
      = (\<lambda>x. task_ID x = i \<and> (task_Status x = TaskStatusRunning \<and> task_LeaseOwner x = w \<and> q x))"
    by (auto simp: owned_def)
  moreover have "task_ID t = i" using assms(2) by (auto dest: task_by_Some)
  ultimately show ?thesis
    using rows_affected_key[OF assms(1), of i "\<lambda>x. task_Status x = TaskStatusRunning
        \<and> task_LeaseOwner x = w \<and> q x" u] assms(2)
    by (simp add: tasks_affected_def task_by_def owned_def)
qed

text \<open>
  C27: A successful finish needs the lease and no pending cancellation; without them it reports
  \<open>(false, false)\<close> and changes nothing.  With them the task is stored as successful at full
  progress, and the file record is marked uploaded exactly when it is the record of this task and
  still has the fingerprint (when one is given), remote and path that were uploaded; every other
  file record stays as it was.
\<close>
theorem FinishSuccess_outcome:
  assumes "distinct (map task_ID (tasks s))" "task_by i s = Some t"
    and "r = FinishSuccess no_fault now i w fid fp rn rp fin dur s"
  shows "if owned i w t \<and> task_CancelRequestedAt t = None
    then snd r = Inr (True, \<exists>f \<in> set (files s). uploaded_match fid fp rn rp f
                              \<and> (fr_UploadedAt f \<noteq> Some fin \<or> fr_UpdatedAt f \<noteq> now))
      \<and> task_by i (fst r) = Some (succeed_row now fin dur t)
      \<and> files (fst r) = map (\<lambda>f. if fr_ID f = fid \<and> (fp = '''' \<or> fr_Fingerprint f = fp)
                                     \<and> fr_RemoteName f = rn \<and> fr_RemotePath f = rp
                                  then f\<lparr>fr_UploadedAt := Some fin, fr_UpdatedAt := now\<rparr> else f) (files s)
    else r = (s, Inr (False, False))"
proof -
  let ?p = "\<lambda>x. owned i w x \<and> \<not> cancel_requested x" and ?u = "succeed_row now fin dur"
  have changes: "?u t \<noteq> t" if "owned i w t"
    using that by (cases t) (simp add: succeed_row_def owned_def)
  have aff: "tasks_affected ?p ?u s = (if owned i w t \<and> \<not> cancel_requested t then 1 else 0)"
    using tasks_affected_owned[OF assms(1,2), of w "\<lambda>x. \<not> cancel_requested x" ?u] changes by auto
  show ?thesis
  proof (cases "owned i w t \<and> \<not> cancel_requested t")
    case True
    have same: "f\<lparr>fr_UploadedAt := Some fin, fr_UpdatedAt := now\<rparr> \<noteq> f
        \<longleftrightarrow> fr_UploadedAt f \<noteq> Some fin \<or> fr_UpdatedAt f \<noteq> now" for f :: file_record
      by (cases f) auto
    let ?v = "\<lambda>f. f\<lparr>fr_UploadedAt := Some fin, fr_UpdatedAt := now\<rparr>"
    let ?s1 = "update_tasks ?p ?u s"
    have fs: "files ?s1 = files s" by (simp add: update_tasks_def)
    have r: "r = (?s1\<lparr>files := update_where (uploaded_match fid fp rn rp) ?v (files s)\<rparr>,
        Inr (True, 0 < rows_affected (uploaded_match fid fp rn rp) ?v (files s)))"
      using True aff fs by (simp add: assms(3) FinishSuccess_def Let_def)
    have "task_by i (fst r) = task_by i ?s1" by (simp add: r task_by_def)
    also have "\<dots> = Some (?u t)" using True assms(2) by (simp add: task_by_update_if)
    finally have "task_by i (fst r) = Some (?u t)" .
    moreover have "snd r = Inr (True, \<exists>f \<in> set (files s). uploaded_match fid fp rn rp f
        \<and> (fr_UploadedAt f \<noteq> Some fin \<or> fr_UpdatedAt f \<noteq> now))"
      using same by (simp add: r rows_affected_pos)
    moreover have "files (fst r) = map (\<lambda>f. if fr_ID f = fid \<and> (fp = '''' \<or> fr_Fingerprint f = fp)
        \<and> fr_RemoteName f = rn \<and> fr_RemotePath f = rp then ?v f else f) (files s)"
      by (simp add: r update_where_def uploaded_match_def)
    ultimately show ?thesis using True by (simp add: cancel_requested_def)
  next
    case False
    then show ?thesis using aff
      by (auto simp add: assms(3) FinishSuccess_def Let_def cancel_requested_def)
  qed
qed

definition sample_file :: "nat \<Rightarrow> string \<Rightarrow> file_record" where
  "sample_file i fp = \<lparr>fr_ID = i, fr_WatchFolderID = 1, fr_LocalPath = ''/d/a.txt'',
     fr_RelativePath = ''a.txt'', fr_RemoteName = ''r'', fr_RemotePath = ''b/a.txt'', fr_FileSize = 3,
     fr_FileModTime = 1, fr_Fingerprint = fp, fr_FileHash = '''', fr_LastSeenAt = Some 1,
     fr_MissingAt = None, fr_UploadedAt = None, fr_CreatedAt = 1, fr_UpdatedAt = 1\<rparr>"

theorem FinishSuccess_outcome_witness:
  "snd (FinishSuccess no_fault 12 1 ''w'' 1 ''f'' ''r'' ''b/a.txt'' 12 2
      ((queue_db [running_task 1 ''a''])\<lparr>files := [sample_file 1 ''f'', sample_file 2 ''f'']\<rparr>))
     = Inr (True, True)
   \<and> map fr_UploadedAt (files (fst (FinishSuccess no_fault 12 1 ''w'' 1 ''f'' ''r'' ''b/a.txt'' 12 2
      ((queue_db [running_task 1 ''a''])\<lparr>files := [sample_file 1 ''f'', sample_file 2 ''f'']\<rparr>))))
     = [Some 12, None]"
proof -
  let ?s = "(queue_db [running_task 1 ''a''])\<lparr>files := [sample_file 1 ''f'', sample_file 2 ''f'']\<rparr>"
  have d: "distinct (map task_ID (tasks ?s))" by (simp add: queue_db_def)
  have t: "task_by 1 ?s = Some (running_task 1 ''a'')"
    by (simp add: task_by_def first_where_def samples running_task_def claim_row_def)
  have o: "owned 1 ''w'' (running_task 1 ''a'') \<and> task_CancelRequestedAt (running_task 1 ''a'') = None"
    by (simp add: owned_def samples running_task_def claim_row_def)
  show ?thesis
    using FinishSuccess_outcome[OF d t refl, where w = "''w''" and fid = 1 and fp = "''f''"
        and rn = "''r''" and rp = "''b/a.txt''" and fin = 12 and now = 12 and dur = 2] o
    by (simp add: uploaded_match_def sample_file_def)
qed

text \<open>
  Handing a task back costs no attempt: releasing the lease of a running task returns it to the
  pending state with the attempt of its claim taken back and no retry delay, so the next claim may
  take it at once; a requested cancellation is honoured instead, and a task the worker does not own
  is left alone.
\<close>
theorem ReleaseLease_outcome:
  assumes "distinct (map task_ID (tasks s))" "task_by i s = Some t"
  shows "task_by i (fst (ReleaseLease no_fault now i w s)) = Some
     (if \<not> owned i w t then t
      else if task_CancelRequestedAt t \<noteq> None
      then canceled_row now now ''task canceled while worker lease was being released'' t
      else t\<lparr>task_Status := TaskStatusPending, task_LeaseOwner := '''', task_LeaseExpiresAt := None,
             task_HeartbeatAt := None, task_NextRetryAt := None,
             task_RetryCount := task_RetryCount t - 1, task_UpdatedAt := now\<rparr>)"
proof -
  let ?p = "\<lambda>x. owned i w x \<and> cancel_requested x"
  let ?u = "canceled_row now now ''task canceled while worker lease was being released''"
  let ?q = "\<lambda>x. owned i w x \<and> \<not> cancel_requested x"
  have changes: "?u t \<noteq> t" if "owned i w t"
    using that by (cases t) (simp add: canceled_row_def owned_def)
  have aff: "tasks_affected ?p ?u s = (if owned i w t \<and> cancel_requested t then 1 else 0)"
    using tasks_affected_owned[OF assms(1,2), of w cancel_requested ?u] changes by auto
  show ?thesis
  proof (cases "owned i w t \<and> cancel_requested t")
    case True
    with aff have "fst (ReleaseLease no_fault now i w s) = update_tasks ?p ?u s"
      by (simp add: ReleaseLease_def Let_def)
    with True assms(2) show ?thesis by (simp add: task_by_update_if cancel_requested_def)
  next
    case False
    with aff have z: "tasks_affected ?p ?u s = 0" by auto
    then have "update_tasks ?p ?u s = s"
      using rows_affected_0[of ?p ?u "tasks s"] by (simp add: tasks_affected_def update_tasks_def)
    with z have "fst (ReleaseLease no_fault now i w s) = update_tasks ?q (release_row now) s"
      by (simp add: ReleaseLease_def Let_def)
    with False assms(2) show ?thesis
      by (auto simp: task_by_update_if cancel_requested_def release_row_def)
  qed
qed

theorem ReleaseLease_outcome_witness:
  "task_by 1 (fst (ReleaseLease no_fault 12 1 ''w'' (queue_db [running_task 1 ''a''])))
   = Some (running_task 1 ''a''\<lparr>task_Status := TaskStatusPending, task_LeaseOwner := '''',
       task_LeaseExpiresAt := None, task_HeartbeatAt := None, task_NextRetryAt := None,
       task_RetryCount := 0, task_UpdatedAt := 12\<rparr>)"
proof -
  let ?s = "queue_db [running_task 1 ''a'']"
  have d: "distinct (map task_ID (tasks ?s))" by (simp add: queue_db_def)
  have t: "task_by 1 ?s = Some (running_task 1 ''a'')"
    by (simp add: task_by_def first_where_def samples running_task_def claim_row_def)
  have o: "owned 1 ''w'' (running_task 1 ''a'')" "task_CancelRequestedAt (running_task 1 ''a'') = None"
    "task_RetryCount (running_task 1 ''a'') = 1"
    by (simp_all add: owned_def samples running_task_def claim_row_def)
  show ?thesis using ReleaseLease_outcome[OF d t, of 12 "''w''"] o by simp
qed

lemma insert_task_again:
  assumes "task_IdempotencyKey t \<noteq> None" "task_IdempotencyKey t' = task_IdempotencyKey t"
  shows "fst (snd (insert_task n t' (fst (insert_task m t s)))) = False
       \<and> fst (insert_task n t' (fst (insert_task m t s))) = fst (insert_task m t s)"
proof -
  have "key_taken t' (tasks (fst (insert_task m t s)))"
    using assms by (auto simp: insert_task_def Let_def key_taken_def)
  then show ?thesis by (simp add: insert_task_def)
qed

lemma insert_batches_concat:
  "insert_batches no_fault k now bs s = Inr (insert_batch now (concat bs) s)"
proof -
  have app: "insert_batch now (xs @ ys) s =
      (let (s', n) = insert_batch now xs s; (s'', m) = insert_batch now ys s' in (s'', n + m))"
    for xs ys s
    by (induction xs arbitrary: s) (auto simp: case_prod_beta Let_def)
  show ?thesis
    by (induction bs arbitrary: k s) (auto simp: app case_prod_beta Let_def)
qed

text \<open>
  C28: Creating tasks is idempotent in their key and independent of the batching: a batch create has
  the effect of inserting its tasks one after the other whatever the batch size, and creating it a
  second time creates nothing and leaves the database as it is, when every task carries a key.
\<close>
theorem CreateManyIfAbsent_idempotent:
  assumes "list_all (\<lambda>t. task_IdempotencyKey t \<noteq> None) ts"
    and "CreateManyIfAbsent no_fault now ts b s = (s', Inr n)"
  shows "(s', n) = insert_batch now ts s
    \<and> CreateManyIfAbsent no_fault now' ts b' s' = (s', Inr 0)"
proof -
  have eq: "CreateManyIfAbsent no_fault m ts c x = (fst (insert_batch m ts x), Inr (snd (insert_batch m ts x)))"
    for m c x
    by (cases "ts = []")
      (simp_all add: CreateManyIfAbsent_def insert_batches_concat concat_batches case_prod_beta)
  have kept: "key_taken t (tasks x) \<Longrightarrow> key_taken t (tasks (fst (insert_batch now ys x)))" for t ys x
  proof (induction ys arbitrary: x)
    case (Cons y ys)
    then have "key_taken t (tasks (fst (insert_task now y x)))"
      by (auto simp: insert_task_def Let_def key_taken_def)
    with Cons.IH show ?case by (simp add: case_prod_beta Let_def)
  qed simp
  have taken: "t \<in> set ys \<Longrightarrow> task_IdempotencyKey t \<noteq> None \<Longrightarrow> key_taken t (tasks (fst (insert_batch now ys x)))"
    for t ys x
  proof (induction ys arbitrary: x)
    case (Cons y ys)
    show ?case
    proof (cases "t = y")
      case True
      then have "key_taken t (tasks (fst (insert_task now y x)))"
        using Cons.prems by (auto simp: insert_task_def Let_def key_taken_def)
      with kept show ?thesis by (simp add: case_prod_beta Let_def)
    next
      case False
      with Cons show ?thesis by (simp add: case_prod_beta Let_def)
    qed
  qed simp
  have noop: "list_all (\<lambda>t. key_taken t (tasks x)) ys \<Longrightarrow> insert_batch now' ys x = (x, 0)" for ys x
    by (induction ys) (auto simp: insert_task_def)
  have "s' = fst (insert_batch now ts s)" using assms(2) by (simp add: eq)
  then have "list_all (\<lambda>t. key_taken t (tasks s')) ts"
    using assms(1) taken by (auto simp: list_all_iff)
  with noop assms(2) show ?thesis by (auto simp: eq)
qed

theorem CreateManyIfAbsent_idempotent_witness:
  "\<exists>s'. CreateManyIfAbsent no_fault 1 [pending_task 0 ''a'', pending_task 0 ''b'', pending_task 0 ''a''] 2
         empty_db = (s', Inr 2)
    \<and> CreateManyIfAbsent no_fault 9 [pending_task 0 ''a'', pending_task 0 ''b'', pending_task 0 ''a''] 0 s'
        = (s', Inr 0)"
proof -
  let ?ts = "[pending_task 0 ''a'', pending_task 0 ''b'', pending_task 0 ''a'']"
  have k: "list_all (\<lambda>t. task_IdempotencyKey t \<noteq> None) ?ts" by (simp add: samples)
  obtain s' where c: "CreateManyIfAbsent no_fault 1 ?ts 2 empty_db = (s', Inr 2)"
    by (simp add: CreateManyIfAbsent_def insert_batches_concat concat_batches insert_task_def
        key_taken_def Let_def samples)
  from CreateManyIfAbsent_idempotent[OF k c, of 9 0] c show ?thesis by blast
qed

text \<open>
  A claim that finds no claimable row rolls its whole transaction back, the sweeps included: an
  abandoned run whose cancellation was requested, or one that used up its attempts, is neither
  cancelled nor failed by any number of claims until some other task becomes claimable.
\<close>
theorem idle_claim_undoes_sweeps:
  assumes "\<forall>t \<in> set (tasks s). \<not> claimable now (max 1 m) t"
  shows "fst (ClaimNext flt locked now w d m s) = s"
proof (cases "ClaimNext flt locked now w d m s")
  case (Pair s' r)
  then show ?thesis
    by (cases rule: ClaimNext_cases) (use assms Pair in auto)
qed

theorem idle_claim_undoes_sweeps_witness:
  "fst (ClaimNext no_fault (\<lambda>_. False) 1000 ''v'' 5 3
      (queue_db [running_task 1 ''a''\<lparr>task_CancelRequestedAt := Some 11\<rparr>]))
   = queue_db [running_task 1 ''a''\<lparr>task_CancelRequestedAt := Some 11\<rparr>]"
  by (rule idle_claim_undoes_sweeps)
    (simp add: claimable_def cancel_requested_def samples running_task_def claim_row_def)

text \<open>
  Cancelling: a task that is not running is cancelled at once and reported so, a finished one
  is reported unchanged, and a running one keeps running with the request recorded; from then on its
  owner can neither renew the lease nor record a success, and failing or releasing the attempt ends
  in the cancelled state, not in a retry.
\<close>
theorem RequestCancel_outcome:
  assumes "distinct (map task_ID (tasks s))" "task_by i s = Some t"
    and "RequestCancel no_fault now i at s = (s', r)"
  shows "(task_Status t \<in> {TaskStatusSuccess, TaskStatusCanceled} \<longrightarrow> s' = s \<and> r = Inr (task_Status t))
    \<and> (task_Status t \<in> {TaskStatusPending, TaskStatusFailed, TaskStatusPaused} \<longrightarrow>
         r = Inr TaskStatusCanceled
         \<and> (\<exists>t'. task_by i s' = Some t' \<and> task_Status t' = TaskStatusCanceled
              \<and> task_CancelRequestedAt t' = None \<and> task_NextRetryAt t' = None))
    \<and> (task_Status t = TaskStatusRunning \<longrightarrow>
         r = Inr TaskStatusRunning
         \<and> (\<forall>w d n fid fp rn rp fin dur msg ra m.
              snd (RenewLease no_fault n i w d s') = Inr False
              \<and> snd (FinishSuccess no_fault n i w fid fp rn rp fin dur s') = Inr (False, False)
              \<and> (w = task_LeaseOwner t \<longrightarrow>
                   snd (FailOrRetry no_fault n i w msg ra m s') = Inr TaskStatusCanceled
                   \<and> map_option task_Status (task_by i (fst (ReleaseLease no_fault n i w s')))
                      = Some TaskStatusCanceled)))"
proof -
  note rc = assms(3)[unfolded RequestCancel_def assms(2) Let_def, simplified]
  have id: "task_ID t = i" using assms(2) by (auto dest: task_by_Some)
  show ?thesis
  proof (cases "task_Status t \<in> {TaskStatusSuccess, TaskStatusCanceled}")
    case True
    with rc show ?thesis by auto
  next
    case False
    with rc have s': "s' = update_tasks (\<lambda>x. task_ID x = i) (cancel_row now at) s"
      and r: "r = Inr (if task_Status t \<noteq> TaskStatusRunning then TaskStatusCanceled else task_Status t)"
      by (auto split: if_splits)
    have by': "task_by i s' = Some (cancel_row now at t)"
      using assms(2) id by (simp add: s' task_by_update_if)
    have d': "distinct (map task_ID (tasks s'))"
      using assms(1) by (simp add: s' update_where_def o_def if_distrib cong: if_cong)
    show ?thesis
    proof (cases "task_Status t = TaskStatusRunning")
      case run: True
      let ?t = "cancel_row now at t"
      have c: "cancel_requested ?t" "task_LeaseOwner ?t = task_LeaseOwner t" "task_CancelRequestedAt ?t \<noteq> None"
        "task_Status ?t = TaskStatusRunning" "task_ID ?t = i"
        using run id by (simp_all add: cancel_row_def cancel_requested_def)
      have "snd (RenewLease no_fault n i w d s') = Inr False" for n w d
        using tasks_affected_owned[OF d' by', of w "\<lambda>x. \<not> cancel_requested x" "renew_row n d"] c
        by (simp add: RenewLease_def Let_def)
      moreover have "snd (FinishSuccess no_fault n i w fid fp rn rp fin dur s') = Inr (False, False)"
        for n w fid fp rn rp fin dur
        using tasks_affected_owned[OF d' by', of w "\<lambda>x. \<not> cancel_requested x" "succeed_row n fin dur"] c
        by (simp add: FinishSuccess_def Let_def)
      moreover have "snd (FailOrRetry no_fault n i (task_LeaseOwner t) msg ra m s') = Inr TaskStatusCanceled"
        for n msg ra m
      proof -
        let ?o = "owned i (task_LeaseOwner t)"
        have "?t \<in> set (tasks s')" "?o ?t" using by' c by (auto simp: owned_def dest: task_by_Some)
        then obtain x where x: "first_where ?o (tasks s') = Some x"
          by (cases "first_where ?o (tasks s')") (auto simp: first_where_None)
        then have "x \<in> set (tasks s')" "task_ID x = i" by (auto simp: owned_def dest: first_where_Some)
        then have "x = ?t" using by' task_by_in[OF d', of x] by simp
        with x c show ?thesis by (simp add: FailOrRetry_def Let_def failure_status_def)
      qed
      moreover have "map_option task_Status (task_by i (fst (ReleaseLease no_fault n i (task_LeaseOwner t) s')))
          = Some TaskStatusCanceled" for n
      proof -
        let ?p = "\<lambda>x. owned i (task_LeaseOwner t) x \<and> cancel_requested x"
        let ?u = "canceled_row n n ''task canceled while worker lease was being released''"
        have o: "owned i (task_LeaseOwner t) ?t" using c by (simp add: owned_def)
        have "?u x \<noteq> x" if "task_Status x = TaskStatusRunning" for x
          using that by (cases x) (simp add: canceled_row_def)
        then have "?u ?t \<noteq> ?t" using c(4) .
        then have "tasks_affected ?p ?u s' = 1" using tasks_affected_owned[OF d' by'] o c by simp
        then have "fst (ReleaseLease no_fault n i (task_LeaseOwner t) s') = update_tasks ?p ?u s'"
          by (simp add: ReleaseLease_def Let_def)
        then show ?thesis using by' o c by (simp add: task_by_update_if canceled_row_def)
      qed
      ultimately show ?thesis using run r by simp
    next
      case nrun: False
      then have "task_Status (cancel_row now at t) = TaskStatusCanceled
          \<and> task_CancelRequestedAt (cancel_row now at t) = None \<and> task_NextRetryAt (cancel_row now at t) = None"
        by (simp add: cancel_row_def)
      with nrun False r by' show ?thesis by auto
    qed
  qed
qed

theorem RequestCancel_outcome_witness:
  "\<exists>s'. RequestCancel no_fault 12 1 12 (queue_db [running_task 1 ''a'']) = (s', Inr TaskStatusRunning)
     \<and> snd (FailOrRetry no_fault 13 1 ''w'' ''boom'' 20 9 s') = Inr TaskStatusCanceled"
proof -
  let ?s = "queue_db [running_task 1 ''a'']"
  have d: "distinct (map task_ID (tasks ?s))" by (simp add: queue_db_def)
  have t: "task_by 1 ?s = Some (running_task 1 ''a'')"
    by (simp add: task_by_def first_where_def samples running_task_def claim_row_def)
  have o: "task_LeaseOwner (running_task 1 ''a'') = ''w''" "task_Status (running_task 1 ''a'') = TaskStatusRunning"
    by (simp_all add: samples running_task_def claim_row_def)
  obtain s' r where rc: "RequestCancel no_fault 12 1 12 ?s = (s', r)" by fastforce
  from RequestCancel_outcome[OF d t rc] o rc show ?thesis by auto
qed

text \<open>
  A batch delete removes exactly the requested tasks that exist and are not running, and answers
  each requested id with its own verdict: not found, conflict for a running task, or none for a
  deleted one; ids that were not requested get no verdict and their tasks stay.
\<close>
theorem DeleteMany_outcome:
  assumes "distinct (map task_ID (tasks s))" "DeleteMany no_fault ids s = (s', Inr failed)"
  shows "(\<forall>i. failed i = (if i \<notin> set ids then None else
              case task_by i s of None \<Rightarrow> Some ErrNotFound
              | Some t \<Rightarrow> if task_Status t = TaskStatusRunning then Some ErrConflict else None))
    \<and> tasks s' = filter (\<lambda>t. task_ID t \<notin> set ids \<or> task_Status t = TaskStatusRunning) (tasks s)"
proof -
  let ?sel = "filter (\<lambda>t. task_Status t \<noteq> TaskStatusRunning) (filter (\<lambda>t. task_ID t \<in> set ids) (tasks s))"
  have f: "failed = (\<lambda>i. if i \<in> set ids then batch_rejection s i else None)"
    and s': "tasks s' = (if ids = [] \<or> ?sel = [] then tasks s
      else delete_where (\<lambda>t. task_ID t \<in> set (map task_ID ?sel) \<and> task_Status t \<noteq> TaskStatusRunning) (tasks s))"
    using assms(2) by (auto simp: DeleteMany_def Let_def split: if_splits)
  have key: "task_ID t \<in> set (map task_ID ?sel) \<and> task_Status t \<noteq> TaskStatusRunning
      \<longleftrightarrow> task_ID t \<in> set ids \<and> task_Status t \<noteq> TaskStatusRunning" if "t \<in> set (tasks s)" for t
    using that by auto
  have "tasks s' = filter (\<lambda>t. task_ID t \<notin> set ids \<or> task_Status t = TaskStatusRunning) (tasks s)"
  proof (cases "ids = [] \<or> ?sel = []")
    case True
    then have "\<forall>t \<in> set (tasks s). task_ID t \<notin> set ids \<or> task_Status t = TaskStatusRunning"
      by (auto simp: filter_empty_conv)
    then have "filter (\<lambda>t. task_ID t \<notin> set ids \<or> task_Status t = TaskStatusRunning) (tasks s) = tasks s"
      by (simp add: filter_id_conv)
    with True s' show ?thesis by presburger
  next
    case False
    then have "tasks s' = filter (\<lambda>t. \<not> (task_ID t \<in> set (map task_ID ?sel)
        \<and> task_Status t \<noteq> TaskStatusRunning)) (tasks s)"
      using s' by (simp add: delete_where_def)
    also have "\<dots> = filter (\<lambda>t. task_ID t \<notin> set ids \<or> task_Status t = TaskStatusRunning) (tasks s)"
      using key by (intro filter_cong refl) blast
    finally show ?thesis .
  qed
  then show ?thesis by (auto simp: f batch_rejection_def)
qed

theorem DeleteMany_outcome_witness:
  "\<exists>s' failed. DeleteMany no_fault [1, 2, 7] (queue_db [pending_task 1 ''a'', running_task 2 ''b'', pending_task 3 ''c''])
       = (s', Inr failed)
     \<and> failed 1 = None \<and> failed 2 = Some ErrConflict \<and> failed 7 = Some ErrNotFound
     \<and> map task_ID (tasks s') = [2, 3]"
proof -
  let ?s = "queue_db [pending_task 1 ''a'', running_task 2 ''b'', pending_task 3 ''c'']"
  have d: "distinct (map task_ID (tasks ?s))"
    by (simp add: samples running_task_def claim_row_def)
  obtain s' failed where dm: "DeleteMany no_fault [1, 2, 7] ?s = (s', Inr failed)"
    by (cases "DeleteMany no_fault [1, 2, 7] ?s") (auto simp: DeleteMany_def Let_def split: if_splits)
  from DeleteMany_outcome[OF d dm] dm show ?thesis
    by (simp add: task_by_def first_where_def samples running_task_def claim_row_def)
qed

text \<open>
  Pausing accepts more than the diagram: a failed or a cancelled task is paused too, and keeps
  the finish and cancellation times of its earlier end.
\<close>
theorem pause_of_finished_task:
  assumes "distinct (map task_ID (tasks s))" "task_by i s = Some t"
    and "task_Status t \<in> {TaskStatusFailed, TaskStatusCanceled}"
  shows "\<exists>t'. PauseIfNotRunning no_fault now i at s = (update_tasks (pausable i) (pause_row now at) s, Inr True)
     \<and> task_by i (update_tasks (pausable i) (pause_row now at) s) = Some t'
     \<and> task_Status t' = TaskStatusPaused
     \<and> task_FinishedAt t' = task_FinishedAt t \<and> task_CanceledAt t' = task_CanceledAt t"
proof -
  have t: "t \<in> set (tasks s)" "task_ID t = i" using assms(2) by (auto dest: task_by_Some)
  with assms(3) have p: "pausable i t" by (auto simp: pausable_def)
  have "pause_row now at t \<noteq> t" using assms(3) by (cases t) (auto simp: pause_row_def)
  with p t(1) have "0 < tasks_affected (pausable i) (pause_row now at) s"
    by (auto simp: tasks_affected_def rows_affected_pos)
  with p assms(2) show ?thesis
    by (simp add: PauseIfNotRunning_def task_by_update_if pause_row_def)
qed

theorem pause_of_finished_task_witness:
  "\<exists>t'. task_by 1 (fst (PauseIfNotRunning no_fault 20 1 20
          (queue_db [pending_task 1 ''a''\<lparr>task_Status := TaskStatusCanceled, task_FinishedAt := Some 5\<rparr>]))) = Some t'
     \<and> task_Status t' = TaskStatusPaused \<and> task_FinishedAt t' = Some 5"
proof -
  let ?t = "pending_task 1 ''a''\<lparr>task_Status := TaskStatusCanceled, task_FinishedAt := Some 5\<rparr>"
  have "distinct (map task_ID (tasks (queue_db [?t])))" by (simp add: samples)
  moreover have "task_by 1 (queue_db [?t]) = Some ?t"
    by (simp add: task_by_def first_where_def samples)
  ultimately obtain t' where "PauseIfNotRunning no_fault 20 1 20 (queue_db [?t])
      = (update_tasks (pausable 1) (pause_row 20 20) (queue_db [?t]), Inr True)"
    "task_by 1 (update_tasks (pausable 1) (pause_row 20 20) (queue_db [?t])) = Some t'"
    "task_Status t' = TaskStatusPaused" "task_FinishedAt t' = task_FinishedAt ?t"
    using pause_of_finished_task[of "queue_db [?t]" 1 ?t 20 20] by auto
  then show ?thesis by simp
qed

end
