(* ===== verification/FileRepo.thy ===== *)
theory FileRepo
  imports TaskRepo
begin

section \<open>The file-snapshot repository\<close>

text \<open>
  \<open>internal/repository/file_record_repository.go\<close>: inserts that ignore conflicts, the batched
  upsert of changed snapshots, the lookup of a folder's snapshots by a \<open>LIKE\<close> prefix with escapes,
  and the marking of vanished files.  The lemmas show that batching is invisible without faults,
  which columns an upsert touches, and that the escaped pattern matches exactly the prefix.
\<close>

subsection \<open>LIKE with an escape character\<close>

text \<open>\<open>subject LIKE pattern ESCAPE '!'\<close> for a binary collation.\<close>
function like_escape :: "string \<Rightarrow> string \<Rightarrow> bool" where
  "like_escape [] s = (s = [])"
| "like_escape (c # p) s =
     (if c = CHR ''!'' then
        (case p of [] \<Rightarrow> False
         | d # p' \<Rightarrow> (case s of [] \<Rightarrow> False | x # s' \<Rightarrow> x = d \<and> like_escape p' s'))
      else if c = CHR ''%'' then
        like_escape p s \<or> (case s of [] \<Rightarrow> False | _ # s' \<Rightarrow> like_escape (c # p) s')
      else (case s of [] \<Rightarrow> False | x # s' \<Rightarrow> (c = CHR ''_'' \<or> x = c) \<and> like_escape p s'))"
  by pat_completeness auto
termination
  by (relation "measures [\<lambda>(p, s). length p, \<lambda>(p, s). length s]") auto

text \<open>\<open>strings.NewReplacer("!", "!!", "%", "!%", "_", "!_")\<close>\<close>
definition escape_like :: "string \<Rightarrow> string" where
  "escape_like p = concat (map (\<lambda>c. if c \<in> {CHR ''!'', CHR ''%'', CHR ''_''} then [CHR ''!'', c] else [c]) p)"

lemma like_escape_any: "like_escape ''%'' s"
  by (induction s) auto

lemma like_escape_prefix: "like_escape (escape_like p @ ''%'') s \<longleftrightarrow> prefix p s"
proof (induction p arbitrary: s)
  case Nil
  then show ?case using like_escape_any by (simp add: escape_like_def del: like_escape.simps)
next
  case (Cons c p)
  have e: "escape_like (c # p) = (if c \<in> {CHR ''!'', CHR ''%'', CHR ''_''} then [CHR ''!'', c] else [c]) @ escape_like p"
    by (simp add: escape_like_def)
  show ?case
    by (cases s) (auto simp: e Cons)
qed

subsection \<open>Operations\<close>

definition path_taken :: "string \<Rightarrow> file_record list \<Rightarrow> bool" where
  "path_taken p fs \<longleftrightarrow> (\<exists>f \<in> set fs. fr_LocalPath f = p)"

definition insert_file :: "time \<Rightarrow> file_record \<Rightarrow> db \<Rightarrow> db \<times> file_record" where
  "insert_file now f s =
     (if path_taken (fr_LocalPath f) (files s) then (s, f)
      else let f' = f\<lparr>fr_ID := next_file s, fr_CreatedAt := now, fr_UpdatedAt := now\<rparr>
           in (s\<lparr>files := files s @ [f'], next_file := next_file s + 1\<rparr>, f'))"

(* src/internal/repository/file_record_repository.go 37-39 fileRecordRepository.CreateSnapshot *)
definition CreateSnapshot ::
    "fault \<Rightarrow> time \<Rightarrow> file_record \<Rightarrow> db \<Rightarrow> db \<times> (repo_error, file_record) result" where
  "CreateSnapshot flt now f s =
     (if flt 0 then (s, Inl (ErrDB 0)) else let (s', f') = insert_file now f s in (s', Inr f'))"

primrec insert_files :: "time \<Rightarrow> file_record list \<Rightarrow> db \<Rightarrow> db \<times> file_record list" where
  "insert_files now [] s = (s, [])"
| "insert_files now (f # fs) s =
     (let (s', f') = insert_file now f s; (s'', fs') = insert_files now fs s' in (s'', f' # fs'))"

primrec insert_file_batches ::
    "fault \<Rightarrow> nat \<Rightarrow> time \<Rightarrow> file_record list list \<Rightarrow> db \<Rightarrow> (repo_error, db \<times> file_record list) result" where
  "insert_file_batches flt k now [] s = Inr (s, [])"
| "insert_file_batches flt k now (b # bs) s =
     (if flt k then Inl (ErrDB k)
      else let (s', fs) = insert_files now b s in
        bind_res (insert_file_batches flt (k + 1) now bs s') (\<lambda>(s'', gs). Inr (s'', fs @ gs)))"

text \<open>The records are passed by pointer: the result holds them with the keys they received.\<close>
(* src/internal/repository/file_record_repository.go 41-51 fileRecordRepository.CreateSnapshots *)
definition CreateSnapshots ::
    "fault \<Rightarrow> time \<Rightarrow> file_record list \<Rightarrow> int \<Rightarrow> db \<Rightarrow> db \<times> (repo_error, file_record list) result" where
  "CreateSnapshots flt now fs batchSize s =
     (if fs = [] then (s, Inr [])
      else case insert_file_batches flt 0 now (batches (effective_batch batchSize) fs) s of
             Inl e \<Rightarrow> (s, Inl e) | Inr (s', fs') \<Rightarrow> (s', Inr fs'))"

text \<open>The columns the upsert assigns.\<close>
(* src/internal/repository/file_record_repository.go 67-71 fileRecordRepository.UpdateSnapshots *)
definition snapshot_columns :: "file_record \<Rightarrow> file_record \<Rightarrow> file_record" where
  "snapshot_columns new old =
     old\<lparr>fr_WatchFolderID := fr_WatchFolderID new, fr_RelativePath := fr_RelativePath new,
         fr_RemoteName := fr_RemoteName new, fr_RemotePath := fr_RemotePath new,
         fr_FileSize := fr_FileSize new, fr_FileModTime := fr_FileModTime new,
         fr_Fingerprint := fr_Fingerprint new, fr_LastSeenAt := fr_LastSeenAt new,
         fr_MissingAt := fr_MissingAt new, fr_UpdatedAt := fr_UpdatedAt new\<rparr>"

text \<open>
  \<open>INSERT ... ON DUPLICATE KEY UPDATE\<close>: the row with the same key, else the row with the same local
  path, takes the columns; else the record is inserted.
\<close>
definition upsert_file :: "file_record \<Rightarrow> file_record list \<Rightarrow> file_record list" where
  "upsert_file f fs =
     (if \<exists>x \<in> set fs. fr_ID x = fr_ID f then update_where (\<lambda>x. fr_ID x = fr_ID f) (snapshot_columns f) fs
      else if path_taken (fr_LocalPath f) fs
      then update_where (\<lambda>x. fr_LocalPath x = fr_LocalPath f) (snapshot_columns f) fs
      else fs @ [f])"

definition clear_uploaded :: "nat list \<Rightarrow> time \<Rightarrow> file_record list \<Rightarrow> file_record list" where
  "clear_uploaded ids now =
     update_where (\<lambda>f. fr_ID f \<in> set ids) (\<lambda>f. f\<lparr>fr_UploadedAt := None, fr_UpdatedAt := now\<rparr>)"

text \<open>
  One transaction per batch, batches committed one by one; the calls of batch \<open>j\<close> are \<open>4j\<close>
  (begin), \<open>4j+1\<close> (clear, only when something is cleared), \<open>4j+2\<close> (upsert) and \<open>4j+3\<close> (commit).
\<close>
primrec update_file_batches ::
    "fault \<Rightarrow> nat \<Rightarrow> time \<Rightarrow> nat list \<Rightarrow> file_record list list \<Rightarrow> db \<Rightarrow> db \<times> (repo_error, unit) result" where
  "update_file_batches flt k now clearIDs [] s = (s, Inr ())"
| "update_file_batches flt k now clearIDs (b # bs) s =
     (let clearBatch = filter (\<lambda>i. i \<in> set clearIDs) (map fr_ID b) in
      if flt k then (s, Inl (ErrDB k))
      else if clearBatch \<noteq> [] \<and> flt (k + 1) then (s, Inl (ErrDB (k + 1)))
      else if flt (k + 2) then (s, Inl (ErrDB (k + 2)))
      else if flt (k + 3) then (s, Inl (ErrDB (k + 3)))
      else let fs = (if clearBatch \<noteq> [] then clear_uploaded clearBatch now (files s) else files s);
               fs' = fold upsert_file (map (\<lambda>f. f\<lparr>fr_UpdatedAt := now\<rparr>) b) fs
           in update_file_batches flt (k + 4) now clearIDs bs (s\<lparr>files := fs'\<rparr>))"

(* src/internal/repository/file_record_repository.go 53-106 fileRecordRepository.UpdateSnapshots *)
definition UpdateSnapshots ::
    "fault \<Rightarrow> time \<Rightarrow> file_record list \<Rightarrow> nat list \<Rightarrow> int \<Rightarrow> db \<Rightarrow> db \<times> (repo_error, unit) result" where
  "UpdateSnapshots flt now records clearIDs batchSize s =
     (if records = [] then (s, Inr ())
      else update_file_batches flt 0 now clearIDs (batches (effective_batch batchSize) records) s)"

(* src/internal/repository/file_record_repository.go 108-118 fileRecordRepository.GetByLocalPath *)
definition GetByLocalPath :: "fault \<Rightarrow> string \<Rightarrow> db \<Rightarrow> (repo_error, file_record) result" where
  "GetByLocalPath flt p s =
     (if flt 0 then Inl (ErrDB 0)
      else case first_where (\<lambda>f. fr_LocalPath f = p) (files s) of
             None \<Rightarrow> Inl ErrNotFound | Some f \<Rightarrow> Inr f)"

(* src/internal/repository/file_record_repository.go 120-134 fileRecordRepository.ListForWatchFolder *)
definition ListForWatchFolder :: "fault \<Rightarrow> nat \<Rightarrow> string \<Rightarrow> db \<Rightarrow> (repo_error, file_record list) result" where
  "ListForWatchFolder flt wid root0 s =
     (let root = path_Clean root0;
          pre = (if HasSuffix root ''/'' then root else root @ ''/'')
      in if flt 0 then Inl (ErrDB 0)
         else Inr (filter (\<lambda>f. fr_WatchFolderID f = wid
                \<or> (fr_WatchFolderID f = 0
                    \<and> (fr_LocalPath f = root \<or> like_escape (escape_like pre @ ''%'') (fr_LocalPath f))))
                (files s)))"

(* src/internal/repository/file_record_repository.go 136-153 fileRecordRepository.UpdateSnapshot *)
definition UpdateSnapshot ::
    "fault \<Rightarrow> time \<Rightarrow> file_record \<Rightarrow> bool \<Rightarrow> db \<Rightarrow> db \<times> (repo_error, unit) result" where
  "UpdateSnapshot flt now f clearUploaded s =
     (if flt 0 then (s, Inl (ErrDB 0))
      else (s\<lparr>files := update_where (\<lambda>x. fr_ID x = fr_ID f)
              (\<lambda>x. (snapshot_columns f x)\<lparr>fr_MissingAt := None, fr_UpdatedAt := now,
                     fr_UploadedAt := (if clearUploaded then None else fr_UploadedAt x)\<rparr>) (files s)\<rparr>, Inr ()))"

primrec mark_missing_batches ::
    "fault \<Rightarrow> nat \<Rightarrow> time \<Rightarrow> time \<Rightarrow> nat list list \<Rightarrow> db \<Rightarrow> db \<times> (repo_error, unit) result" where
  "mark_missing_batches flt k now at [] s = (s, Inr ())"
| "mark_missing_batches flt k now at (b # bs) s =
     (if flt k then (s, Inl (ErrDB k))
      else mark_missing_batches flt (k + 1) now at bs
        (s\<lparr>files := update_where (\<lambda>f. fr_ID f \<in> set b \<and> fr_MissingAt f = None)
              (\<lambda>f. f\<lparr>fr_MissingAt := Some at, fr_UpdatedAt := now\<rparr>) (files s)\<rparr>))"

(* src/internal/repository/file_record_repository.go 155-171 fileRecordRepository.MarkMissing *)
definition MarkMissing ::
    "fault \<Rightarrow> time \<Rightarrow> nat list \<Rightarrow> time \<Rightarrow> int \<Rightarrow> db \<Rightarrow> db \<times> (repo_error, unit) result" where
  "MarkMissing flt now ids at batchSize s =
     mark_missing_batches flt 0 now at (batches (effective_batch batchSize) ids) s"

subsection \<open>Keys of the snapshots\<close>

definition files_ok :: "db \<Rightarrow> bool" where
  "files_ok s \<longleftrightarrow> distinct (map fr_ID (files s)) \<and> distinct (map fr_LocalPath (files s))
     \<and> (\<forall>f \<in> set (files s). fr_ID f < next_file s)"

lemma insert_file_ok: "files_ok s \<Longrightarrow> files_ok (fst (insert_file now f s))"
  by (force simp: files_ok_def insert_file_def Let_def path_taken_def)

lemma insert_files_ok: "files_ok s \<Longrightarrow> files_ok (fst (insert_files now fs s))"
proof (induction fs arbitrary: s)
  case (Cons f fs)
  then show ?case using insert_file_ok[of s now f] by (simp add: case_prod_beta Let_def)
qed simp

lemma insert_file_batches_ok:
  "files_ok s \<Longrightarrow> insert_file_batches flt k now bs s = Inr (s', fs) \<Longrightarrow> files_ok s'"
proof (induction bs arbitrary: s k fs)
  case (Cons b bs)
  then show ?case using insert_files_ok[of s now b]
    by (auto simp: bind_res_Inr case_prod_beta Let_def split: if_splits)
qed simp

lemma CreateSnapshots_ok: "files_ok s \<Longrightarrow> files_ok (fst (CreateSnapshots flt now fs b s))"
  by (auto simp: CreateSnapshots_def split: sum.split intro: insert_file_batches_ok)

lemma insert_file_batches_concat:
  "insert_file_batches no_fault k now bs s = Inr (insert_files now (concat bs) s)"
proof -
  have app: "insert_files now (xs @ ys) s =
      (let (s', fs) = insert_files now xs s; (s'', gs) = insert_files now ys s' in (s'', fs @ gs))"
    for xs ys s
    by (induction xs arbitrary: s) (auto simp: case_prod_beta Let_def)
  show ?thesis
    by (induction bs arbitrary: k s) (auto simp: app case_prod_beta Let_def)
qed

lemma CreateSnapshots_sequential:
  "CreateSnapshots no_fault now fs b s = (fst (insert_files now fs s), Inr (snd (insert_files now fs s)))"
  by (cases "fs = []")
    (simp_all add: CreateSnapshots_def insert_file_batches_concat concat_batches case_prod_beta)

lemma snapshot_columns_keys [simp]:
  "fr_ID (snapshot_columns f x) = fr_ID x" "fr_LocalPath (snapshot_columns f x) = fr_LocalPath x"
  "fr_UploadedAt (snapshot_columns f x) = fr_UploadedAt x"
  by (simp_all add: snapshot_columns_def)

subsection \<open>The batched upsert\<close>

text \<open>What the upsert of stored records does to a row: the last record with its key wins.\<close>
definition updated_row :: "time \<Rightarrow> file_record list \<Rightarrow> file_record \<Rightarrow> file_record" where
  "updated_row now rs x =
     (case find (\<lambda>r. fr_ID r = fr_ID x) rs of
        None \<Rightarrow> x | Some r \<Rightarrow> snapshot_columns (r\<lparr>fr_UpdatedAt := now\<rparr>) x)"

lemma updated_row_id [simp]: "fr_ID (updated_row now rs x) = fr_ID x"
  by (simp add: updated_row_def split: option.split)

lemma updated_row_uploaded [simp]: "fr_UploadedAt (updated_row now rs x) = fr_UploadedAt x"
  by (simp add: updated_row_def split: option.split)

lemma fold_upsert_stored:
  assumes "distinct (map fr_ID rs)" "set (map fr_ID rs) \<subseteq> set (map fr_ID fs)"
  shows "fold upsert_file (map (\<lambda>f. f\<lparr>fr_UpdatedAt := now\<rparr>) rs) fs = map (updated_row now rs) fs"
  using assms
proof (induction rs arbitrary: fs)
  case Nil
  have "updated_row now [] = id" by (simp add: updated_row_def fun_eq_iff)
  then show ?case by simp
next
  case (Cons r rs)
  let ?r = "r\<lparr>fr_UpdatedAt := now\<rparr>"
  let ?u = "\<lambda>x. if fr_ID x = fr_ID r then snapshot_columns ?r x else x"
  have in_fs: "\<exists>x \<in> set fs. fr_ID x = fr_ID ?r" using Cons.prems(2) by auto
  have up: "upsert_file ?r fs = map ?u fs"
    unfolding upsert_file_def if_P[OF in_fs] by (simp add: update_where_def)
  have ids: "map fr_ID (map ?u fs) = map fr_ID fs" by simp
  have "fold upsert_file (map (\<lambda>f. f\<lparr>fr_UpdatedAt := now\<rparr>) rs) (map ?u fs) = map (updated_row now rs) (map ?u fs)"
    using Cons.prems by (intro Cons.IH) (simp_all only: ids, auto)
  moreover have "updated_row now rs (?u x) = updated_row now (r # rs) x" for x
  proof (cases "fr_ID x = fr_ID r")
    case True
    then have "find (\<lambda>q. fr_ID q = fr_ID x) rs = None"
      using Cons.prems(1) by (simp add: find_key_None)
    with True show ?thesis by (simp add: updated_row_def)
  next
    case False
    then show ?thesis by (auto simp: updated_row_def)
  qed
  ultimately show ?case by (simp add: up o_def)
qed

lemma update_file_batches_stored:
  assumes "distinct (map fr_ID (concat bs))" "set (map fr_ID (concat bs)) \<subseteq> set (map fr_ID (files s))"
  shows "update_file_batches no_fault k now cs bs s =
    (s\<lparr>files := map (\<lambda>x. if fr_ID x \<in> set cs \<inter> set (map fr_ID (concat bs))
                        then updated_row now (concat bs) (x\<lparr>fr_UploadedAt := None, fr_UpdatedAt := now\<rparr>)
                        else updated_row now (concat bs) x) (files s)\<rparr>, Inr ())"
  using assms
proof (induction bs arbitrary: s k)
  case Nil
  have "updated_row now [] = id" by (simp add: updated_row_def fun_eq_iff)
  then show ?case by simp
next
  case (Cons b bs)
  let ?cl = "filter (\<lambda>i. i \<in> set cs) (map fr_ID b)"
  let ?c = "\<lambda>x. if fr_ID x \<in> set ?cl then x\<lparr>fr_UploadedAt := None, fr_UpdatedAt := now\<rparr> else x"
  have clear: "(if ?cl \<noteq> [] then clear_uploaded ?cl now (files s) else files s) = map ?c (files s)"
    by (cases "?cl = []") (simp_all add: clear_uploaded_def update_where_def del: set_filter filter_empty_conv)
  have db: "distinct (map fr_ID b)" "distinct (map fr_ID (concat bs))"
    "set (map fr_ID b) \<inter> set (map fr_ID (concat bs)) = {}"
    using Cons.prems(1) by auto
  have ids: "map fr_ID (map ?c (files s)) = map fr_ID (files s)" by simp
  have up: "fold upsert_file (map (\<lambda>f. f\<lparr>fr_UpdatedAt := now\<rparr>) b) (map ?c (files s))
      = map (updated_row now b) (map ?c (files s))"
    by (rule fold_upsert_stored[OF db(1)]) (use Cons.prems(2) in \<open>simp only: ids, auto\<close>)
  let ?s = "s\<lparr>files := map (updated_row now b) (map ?c (files s))\<rparr>"
  have ids': "map fr_ID (files ?s) = map fr_ID (files s)" by simp
  have IH: "update_file_batches no_fault (k + 4) now cs bs ?s =
    (?s\<lparr>files := map (\<lambda>x. if fr_ID x \<in> set cs \<inter> set (map fr_ID (concat bs))
                        then updated_row now (concat bs) (x\<lparr>fr_UploadedAt := None, fr_UpdatedAt := now\<rparr>)
                        else updated_row now (concat bs) x) (files ?s)\<rparr>, Inr ())"
    by (rule Cons.IH[OF db(2)]) (use Cons.prems(2) in \<open>simp only: ids', auto\<close>)
  define F where "F = (\<lambda>y. if fr_ID y \<in> set cs \<inter> set (map fr_ID (concat bs))
      then updated_row now (concat bs) (y\<lparr>fr_UploadedAt := None, fr_UpdatedAt := now\<rparr>)
      else updated_row now (concat bs) y)"
  define G where "G = (\<lambda>x. if fr_ID x \<in> set cs \<inter> set (map fr_ID (concat (b # bs)))
       then updated_row now (concat (b # bs)) (x\<lparr>fr_UploadedAt := None, fr_UpdatedAt := now\<rparr>)
       else updated_row now (concat (b # bs)) x)"
  have row: "F (updated_row now b (?c x)) = G x" for x
  proof (cases "fr_ID x \<in> set (map fr_ID b)")
    case True
    then have no: "fr_ID x \<notin> set (map fr_ID (concat bs))" using db(3) by blast
    then have "find (\<lambda>r. fr_ID r = fr_ID x) (concat bs) = None" by (simp add: find_key_None del: set_concat)
    then have "updated_row now (concat bs) y = y" if "fr_ID y = fr_ID x" for y
      using that by (simp add: updated_row_def)
    moreover have "updated_row now (concat (b # bs)) y = updated_row now b y" if "fr_ID y = fr_ID x" for y
      using that True by (auto simp: updated_row_def find_append find_None_iff split: option.split)
    ultimately show ?thesis using True no by (auto simp: F_def G_def)
  next
    case False
    then have nb: "find (\<lambda>r. fr_ID r = fr_ID x) b = None" by (simp add: find_key_None)
    then have "updated_row now b y = y" if "fr_ID y = fr_ID x" for y
      using that by (simp add: updated_row_def)
    moreover have "updated_row now (concat (b # bs)) y = updated_row now (concat bs) y" if "fr_ID y = fr_ID x" for y
      using that nb by (simp add: updated_row_def find_append)
    ultimately show ?thesis using False by (simp add: F_def G_def)
  qed
  have fs: "files ?s = map (updated_row now b) (map ?c (files s))" by (cases s) (simp only: db.simps)
  have "map F (files ?s) = map G (files s)"
    unfolding fs unfolding map_map o_def row ..
  moreover have unfold: "update_file_batches no_fault k now cs (b # bs) s = update_file_batches no_fault (k + 4) now cs bs ?s"
    by (simp only: update_file_batches.simps Let_def if_False clear up simp_thms)
  ultimately show ?case
    unfolding unfold IH F_def[symmetric] G_def[symmetric] by simp
qed

subsection \<open>Properties\<close>

text \<open>
  Writing back changed snapshots: for stored records with distinct keys the result is the same
  for every batch size; each record's row takes exactly the scanner's columns (the last-seen and
  missing marks included), the upload mark is cleared exactly on the rows whose version changed, and
  every other row is untouched.
\<close>
theorem UpdateSnapshots_outcome:
  assumes "distinct (map fr_ID rs)" "set (map fr_ID rs) \<subseteq> set (map fr_ID (files s))"
    and "set cs \<subseteq> set (map fr_ID rs)"
  shows "UpdateSnapshots no_fault now rs cs b s = (s\<lparr>files := map (\<lambda>x.
      case find (\<lambda>r. fr_ID r = fr_ID x) rs of
        None \<Rightarrow> x
      | Some r \<Rightarrow> (snapshot_columns r x)\<lparr>fr_UpdatedAt := now,
                     fr_UploadedAt := (if fr_ID x \<in> set cs then None else fr_UploadedAt x)\<rparr>) (files s)\<rparr>, Inr ())"
proof -
  have row: "(if fr_ID x \<in> set cs \<inter> set (map fr_ID rs)
      then updated_row now rs (x\<lparr>fr_UploadedAt := None, fr_UpdatedAt := now\<rparr>) else updated_row now rs x)
    = (case find (\<lambda>r. fr_ID r = fr_ID x) rs of None \<Rightarrow> x
       | Some r \<Rightarrow> (snapshot_columns r x)\<lparr>fr_UpdatedAt := now,
                     fr_UploadedAt := (if fr_ID x \<in> set cs then None else fr_UploadedAt x)\<rparr>)" for x
  proof (cases "find (\<lambda>r. fr_ID r = fr_ID x) rs")
    case None
    then have "fr_ID x \<notin> set (map fr_ID rs)" by (auto simp: find_None_iff)
    with None show ?thesis by (simp add: updated_row_def)
  next
    case (Some r)
    then have "fr_ID x \<in> set (map fr_ID rs)" by (metis find_key_Some image_eqI set_map)
    with Some show ?thesis by (cases x) (simp add: updated_row_def snapshot_columns_def)
  qed
  let ?bs = "batches (effective_batch b) rs"
  have c: "concat ?bs = rs" by (simp add: concat_batches)
  have "update_file_batches no_fault 0 now cs ?bs s =
    (s\<lparr>files := map (\<lambda>x. if fr_ID x \<in> set cs \<inter> set (map fr_ID rs)
        then updated_row now rs (x\<lparr>fr_UploadedAt := None, fr_UpdatedAt := now\<rparr>)
        else updated_row now rs x) (files s)\<rparr>, Inr ())"
    using update_file_batches_stored[where bs = ?bs, unfolded c, OF assms(1,2)] .
  then show ?thesis
    by (cases "rs = []") (simp_all only: UpdateSnapshots_def row if_True if_False simp_thms, simp)
qed

theorem UpdateSnapshots_outcome_witness:
  "map fr_UploadedAt (files (fst (UpdateSnapshots no_fault 50
      [sample_file 2 ''new'', sample_file 1 ''f''] [2] 1
      (empty_db\<lparr>files := [sample_file 1 ''f''\<lparr>fr_UploadedAt := Some 7\<rparr>,
         sample_file 2 ''f''\<lparr>fr_UploadedAt := Some 8\<rparr>, sample_file 3 ''f''\<lparr>fr_UploadedAt := Some 9\<rparr>]\<rparr>))))
   = [Some 7, None, Some 9]"
  using UpdateSnapshots_outcome[of "[sample_file 2 ''new'', sample_file 1 ''f'']"
      "empty_db\<lparr>files := [sample_file 1 ''f''\<lparr>fr_UploadedAt := Some 7\<rparr>,
         sample_file 2 ''f''\<lparr>fr_UploadedAt := Some 8\<rparr>, sample_file 3 ''f''\<lparr>fr_UploadedAt := Some 9\<rparr>]\<rparr>"
      "[2]" 50 1]
  by (simp add: sample_file_def)

text \<open>
  A folder's snapshots are the rows that carry its id, and of the unassigned legacy rows exactly
  those whose path is the root or starts with the root followed by a slash: wildcard characters in
  the root's name are matched literally.
\<close>
theorem ListForWatchFolder_members:
  shows "ListForWatchFolder no_fault wid root s = Inr (filter (\<lambda>f. fr_WatchFolderID f = wid
     \<or> (fr_WatchFolderID f = 0 \<and> (fr_LocalPath f = path_Clean root
          \<or> prefix (if HasSuffix (path_Clean root) ''/'' then path_Clean root else path_Clean root @ ''/'')
              (fr_LocalPath f)))) (files s))"
  unfolding ListForWatchFolder_def Let_def like_escape_prefix by simp

lemma update_where_twice:
  assumes "\<And>x. P (u x) = False" "\<And>x. Q (u x) = False"
  shows "update_where Q u (update_where P u xs) = update_where (\<lambda>x. P x \<or> Q x) u xs"
  using assms by (simp add: update_where_def)

lemma mark_missing_batches_all:
  "mark_missing_batches no_fault k now at bs s =
    (s\<lparr>files := update_where (\<lambda>f. fr_ID f \<in> set (concat bs) \<and> fr_MissingAt f = None)
       (\<lambda>f. f\<lparr>fr_MissingAt := Some at, fr_UpdatedAt := now\<rparr>) (files s)\<rparr>, Inr ())"
proof (induction bs arbitrary: s k)
  case (Cons b bs)
  let ?u = "\<lambda>f :: file_record. f\<lparr>fr_MissingAt := Some at, fr_UpdatedAt := now\<rparr>"
  have "update_where (\<lambda>f. fr_ID f \<in> set (concat bs) \<and> fr_MissingAt f = None) ?u
       (update_where (\<lambda>f. fr_ID f \<in> set b \<and> fr_MissingAt f = None) ?u fs)
     = update_where (\<lambda>f. (fr_ID f \<in> set b \<and> fr_MissingAt f = None)
         \<or> (fr_ID f \<in> set (concat bs) \<and> fr_MissingAt f = None)) ?u fs" for fs
    by (rule update_where_twice) simp_all
  also have "\<dots> fs = update_where (\<lambda>f. fr_ID f \<in> set (concat (b # bs)) \<and> fr_MissingAt f = None) ?u fs" for fs
    by (rule arg_cong[where f = "\<lambda>P. update_where P ?u fs"]) (auto simp: fun_eq_iff)
  finally show ?case
    unfolding mark_missing_batches.simps if_False Cons by simp
qed (simp add: update_where_def)

lemma MarkMissing_outcome:
  "MarkMissing no_fault now ids at b s =
    (s\<lparr>files := map (\<lambda>f. if fr_ID f \<in> set ids \<and> fr_MissingAt f = None
        then f\<lparr>fr_MissingAt := Some at, fr_UpdatedAt := now\<rparr> else f) (files s)\<rparr>, Inr ())"
  by (simp add: MarkMissing_def mark_missing_batches_all concat_batches update_where_def del: set_concat)

end
