(* ===== verification/WatchRepo.thy ===== *)
theory WatchRepo
  imports FileRepo
begin

section \<open>The watch-folder repository\<close>

text \<open>
  \<open>internal/repository/watch_folder_repository.go\<close>: configuration changes with optimistic
  concurrency, the scan lease of a folder, the end of a scan, and what a destination change or a
  deletion does to the folder's tasks and snapshots.  The scan lease is an instance of the lease
  interface; the properties say who may hold it, that the end of a scan keeps a manual pause, and
  what the cancellations do to the task invariant.
\<close>

subsection \<open>Reads\<close>

(* src/internal/repository/watch_folder_repository.go 97-113 watchFolderRepository.GetByID *)
definition GetByID_folder :: "fault \<Rightarrow> nat \<Rightarrow> db \<Rightarrow> (repo_error, watch_folder) result" where
  "GetByID_folder flt i s =
     (if flt 0 then Inl (ErrDB 0)
      else case folder_by i s of
             None \<Rightarrow> Inl ErrNotFound
           | Some f \<Rightarrow> if flt 1 then Inl (ErrDB 1) else Inr f)"

(* src/internal/repository/watch_folder_repository.go 249-276 watchFolderRepository.List *)
definition List_folders ::
    "(string \<Rightarrow> string \<Rightarrow> bool) \<Rightarrow> fault \<Rightarrow> folder_status option \<Rightarrow> string \<Rightarrow> nat \<Rightarrow> nat \<Rightarrow> db
      \<Rightarrow> (repo_error, watch_folder list \<times> nat) result" where
  "List_folders like flt status keyword offset limit s =
     (let q = filter (\<lambda>f. keyword = [] \<or> like keyword (wf_Name f) \<or> like keyword (wf_LocalPath f)
                          \<or> like keyword (wf_RemoteName f) \<or> like keyword (wf_RemotePath f))
                (filter (\<lambda>f. case status of None \<Rightarrow> True | Some st \<Rightarrow> wf_Status f = st) (folders s));
          sorted = sort_key (\<lambda>f. - wf_CreatedAt f) q;
          page = (if limit > 0 then take limit (drop offset sorted) else sorted)
      in if flt 0 then Inl (ErrDB 0)
         else if flt 1 then Inl (ErrDB 1)
         else if page \<noteq> [] \<and> flt 2 then Inl (ErrDB 2)
         else Inr (page, length q))"

(* src/internal/repository/watch_folder_repository.go 278-288 watchFolderRepository.ListPaths *)
definition ListPaths :: "fault \<Rightarrow> nat \<Rightarrow> db \<Rightarrow> (repo_error, watch_folder list) result" where
  "ListPaths flt excludeID s =
     (if flt 0 then Inl (ErrDB 0)
      else Inr (if excludeID > 0 then filter (\<lambda>f. wf_ID f \<noteq> excludeID) (folders s) else folders s))"

definition scan_manual :: "folder_status \<Rightarrow> bool" where
  "scan_manual st \<longleftrightarrow> st \<in> {WatchFolderStatusStopped, WatchFolderStatusPaused}"

definition scan_lease_free :: "time \<Rightarrow> watch_folder \<Rightarrow> bool" where
  "scan_lease_free now f \<longleftrightarrow> (case wf_ScanLeaseExpiresAt f of None \<Rightarrow> True | Some e \<Rightarrow> e \<le> now)"

definition scan_due :: "time \<Rightarrow> watch_folder \<Rightarrow> bool" where
  "scan_due now f \<longleftrightarrow> wf_Enabled f \<and> \<not> scan_manual (wf_Status f)
     \<and> (case wf_NextScanAt f of None \<Rightarrow> True | Some n \<Rightarrow> n \<le> now) \<and> scan_lease_free now f"

(* src/internal/repository/watch_folder_repository.go 290-308 watchFolderRepository.ListEnabledForScan *)
definition ListEnabledForScan :: "fault \<Rightarrow> time \<Rightarrow> db \<Rightarrow> (repo_error, watch_folder list) result" where
  "ListEnabledForScan flt now s =
     (let due = sort_key (\<lambda>f. case wf_NextScanAt f of Some n \<Rightarrow> n | None \<Rightarrow> wf_CreatedAt f)
                  (sort_key wf_ID (filter (scan_due now) (folders s)))
      in if flt 0 then Inl (ErrDB 0)
         else if due \<noteq> [] \<and> flt 1 then Inl (ErrDB 1) else Inr due)"

subsection \<open>The scan lease\<close>

definition update_folders :: "(watch_folder \<Rightarrow> bool) \<Rightarrow> (watch_folder \<Rightarrow> watch_folder) \<Rightarrow> db \<Rightarrow> db" where
  "update_folders p u s = s\<lparr>folders := update_where p u (folders s)\<rparr>"

definition claim_scan_row :: "time \<Rightarrow> string \<Rightarrow> time \<Rightarrow> dur \<Rightarrow> watch_folder \<Rightarrow> watch_folder" where
  "claim_scan_row now owner startedAt lease f =
     f\<lparr>wf_Status := WatchFolderStatusDetecting, wf_LastError := '''', wf_LastScanAt := Some startedAt,
       wf_LastScanStartedAt := Some startedAt, wf_ScanLeaseOwner := owner,
       wf_ScanLeaseExpiresAt := Some (startedAt + lease), wf_UpdatedAt := now\<rparr>"

(* src/internal/repository/watch_folder_repository.go 34-57 watchFolderRepository.ClaimForScan *)
definition ClaimForScan ::
    "fault \<Rightarrow> time \<Rightarrow> nat \<Rightarrow> string \<Rightarrow> time \<Rightarrow> time \<Rightarrow> dur \<Rightarrow> db \<Rightarrow> db \<times> (repo_error, bool) result" where
  "ClaimForScan flt now i owner expectedUpdatedAt startedAt leaseDuration s =
     (if flt 0 then (s, Inl (ErrDB 0))
      else let p = (\<lambda>f. wf_ID f = i \<and> scan_due startedAt f
                        \<and> (expectedUpdatedAt = zero_time \<or> wf_UpdatedAt f = expectedUpdatedAt));
               u = claim_scan_row now owner startedAt leaseDuration
           in (update_folders p u s, Inr (0 < rows_affected p u (folders s))))"

definition renew_scan_row :: "time \<Rightarrow> dur \<Rightarrow> watch_folder \<Rightarrow> watch_folder" where
  "renew_scan_row now lease f = f\<lparr>wf_ScanLeaseExpiresAt := Some (now + lease), wf_UpdatedAt := now\<rparr>"

(* src/internal/repository/watch_folder_repository.go 59-67 watchFolderRepository.RenewScanLease *)
definition RenewScanLease ::
    "fault \<Rightarrow> time \<Rightarrow> nat \<Rightarrow> string \<Rightarrow> dur \<Rightarrow> db \<Rightarrow> db \<times> (repo_error, bool) result" where
  "RenewScanLease flt now i owner leaseDuration s =
     (if flt 0 then (s, Inl (ErrDB 0))
      else let p = (\<lambda>f. wf_ID f = i \<and> wf_Status f = WatchFolderStatusDetecting \<and> wf_ScanLeaseOwner f = owner);
               u = renew_scan_row now leaseDuration
           in (update_folders p u s, Inr (0 < rows_affected p u (folders s))))"

text \<open>The columns the scanner writes at the end of a scan; the lease is always cleared.\<close>
(* src/internal/scheduler/watch_folder_scanner.go 338-355 watchFolderScanner.scanOneFolder *)
record scan_columns =
  sc_Status :: folder_status
  sc_LastError :: string
  sc_FinishedAt :: time
  sc_DurationMs :: int
  sc_NextScanAt :: "time option"
  sc_TotalFileCount :: int
  sc_TotalFileSize :: int
  sc_SuccessAt :: "time option"  \<comment> \<open>absent from the update when \<open>None\<close>\<close>

definition finish_scan_row :: "time \<Rightarrow> scan_columns \<Rightarrow> watch_folder \<Rightarrow> watch_folder" where
  "finish_scan_row now c f =
     f\<lparr>wf_Status := (if wf_Enabled f \<and> \<not> scan_manual (wf_Status f) then sc_Status c else wf_Status f),
       wf_LastError := sc_LastError c, wf_LastScanFinishedAt := Some (sc_FinishedAt c),
       wf_LastScanDurationMs := sc_DurationMs c, wf_NextScanAt := sc_NextScanAt c,
       wf_TotalFileCount := sc_TotalFileCount c, wf_TotalFileSize := sc_TotalFileSize c,
       wf_LastScanSuccessAt := (case sc_SuccessAt c of None \<Rightarrow> wf_LastScanSuccessAt f | Some t \<Rightarrow> Some t),
       wf_ScanLeaseOwner := '''', wf_ScanLeaseExpiresAt := None, wf_UpdatedAt := now\<rparr>"

datatype finish_error = FinishDB nat | ScanLeaseLost

(* src/internal/repository/watch_folder_repository.go 363-388 watchFolderRepository.FinishScan *)
definition FinishScan ::
    "fault \<Rightarrow> time \<Rightarrow> nat \<Rightarrow> string \<Rightarrow> scan_columns \<Rightarrow> db \<Rightarrow> db \<times> (finish_error, unit) result" where
  "FinishScan flt now i owner c s =
     (if flt 0 then (s, Inl (FinishDB 0))
      else let p = (\<lambda>f. wf_ID f = i \<and> wf_ScanLeaseOwner f = owner); u = finish_scan_row now c
           in (update_folders p u s,
               if rows_affected p u (folders s) = 0 then Inl ScanLeaseLost else Inr ()))"

(* src/internal/repository/watch_folder_repository.go 417-425 watchFolderRepository.ScheduleAllEnabledNow *)
definition ScheduleAllEnabledNow :: "fault \<Rightarrow> time \<Rightarrow> db \<Rightarrow> db \<times> (repo_error, nat) result" where
  "ScheduleAllEnabledNow flt now s =
     (if flt 0 then (s, Inl (ErrDB 0))
      else let p = (\<lambda>f. wf_Enabled f \<and> \<not> scan_manual (wf_Status f));
               u = (\<lambda>f. f\<lparr>wf_NextScanAt := Some now, wf_UpdatedAt := now\<rparr>)
           in (update_folders p u s, Inr (rows_affected p u (folders s))))"

subsection \<open>Statistics\<close>

(* src/internal/repository/watch_folder_repository.go 390-404 watchFolderRepository.RecordUploadSuccess *)
definition RecordUploadSuccess ::
    "fault \<Rightarrow> time \<Rightarrow> nat \<Rightarrow> int \<Rightarrow> time \<Rightarrow> db \<Rightarrow> db \<times> (repo_error, unit) result" where
  "RecordUploadSuccess flt now i fileSize at s =
     (if flt 0 then (s, Inl (ErrDB 0))
      else (update_folders (\<lambda>f. wf_ID f = i)
              (\<lambda>f. f\<lparr>wf_UploadedFileCount := wf_UploadedFileCount f + 1,
                     wf_UploadedBytes := wf_UploadedBytes f + fileSize,
                     wf_WindowUploadedFiles := wf_WindowUploadedFiles f + 1,
                     wf_WindowUploadedBytes := wf_WindowUploadedBytes f + fileSize,
                     wf_LastSyncAt := Some at, wf_LastActiveAt := Some at, wf_UpdatedAt := now\<rparr>) s, Inr ()))"

(* src/internal/repository/watch_folder_repository.go 406-415 watchFolderRepository.RecordUploadFailure *)
definition RecordUploadFailure :: "fault \<Rightarrow> time \<Rightarrow> nat \<Rightarrow> time \<Rightarrow> db \<Rightarrow> db \<times> (repo_error, unit) result" where
  "RecordUploadFailure flt now i at s =
     (if flt 0 then (s, Inl (ErrDB 0))
      else (update_folders (\<lambda>f. wf_ID f = i)
              (\<lambda>f. f\<lparr>wf_FailedFileCount := wf_FailedFileCount f + 1, wf_LastActiveAt := Some at,
                     wf_UpdatedAt := now\<rparr>) s, Inr ()))"

subsection \<open>Configuration changes\<close>

text \<open>The unique index on \<open>local_path\<close>.\<close>
definition folder_path_taken :: "nat \<Rightarrow> string \<Rightarrow> db \<Rightarrow> bool" where
  "folder_path_taken i p s \<longleftrightarrow> (\<exists>f \<in> set (folders s). wf_ID f \<noteq> i \<and> wf_LocalPath f = p)"

text \<open>
  \<open>gorm\<close> leaves a field with a \<open>default\<close> tag out of the insert when it has its zero value, so the
  column gets its default: \<open>enabled\<close> (true), \<open>sync_type\<close> and \<open>scan_interval_seconds\<close> (300).
\<close>
(* src/internal/model/watch_folder.go 48-97 WatchFolder *)
definition folder_defaults :: "watch_folder \<Rightarrow> watch_folder" where
  "folder_defaults f =
     f\<lparr>wf_Enabled := True,
       wf_SyncType := (if wf_SyncType f = '''' then ''local_to_remote'' else wf_SyncType f),
       wf_ScanIntervalSeconds := (if wf_ScanIntervalSeconds f = 0 then 300 else wf_ScanIntervalSeconds f)\<rparr>"

(* src/internal/repository/watch_folder_repository.go 78-95 watchFolderRepository.Create *)
definition Create_folder ::
    "fault \<Rightarrow> time \<Rightarrow> watch_folder \<Rightarrow> db \<Rightarrow> db \<times> (repo_error, watch_folder) result" where
  "Create_folder flt now f s =
     (if flt 0 then (s, Inl (ErrDB 0))
      else if flt 1 then (s, Inl (ErrDB 1))
      else if \<exists>x \<in> set (folders s). wf_LocalPath x = wf_LocalPath f then (s, Inl ErrConflict)
      else if flt 2 then (s, Inl (ErrDB 2))
      else if flt 3 then (s, Inl (ErrDB 3))
      else let f' = (folder_defaults f)\<lparr>wf_ID := next_folder s, wf_CreatedAt := now, wf_UpdatedAt := now\<rparr>
           in (s\<lparr>folders := folders s @ [f'], next_folder := next_folder s + 1\<rparr>, Inr f'))"

text \<open>The cancellation of a folder's tasks: running ones are asked to stop, queued ones end at once.\<close>
definition ask_running_row :: "time \<Rightarrow> upload_task \<Rightarrow> upload_task" where
  "ask_running_row now t = t\<lparr>task_CancelRequestedAt := Some now, task_LastStatusAt := Some now, task_UpdatedAt := now\<rparr>"

definition cancel_queued_row :: "time \<Rightarrow> string \<Rightarrow> upload_task \<Rightarrow> upload_task" where
  "cancel_queued_row now msg t =
     t\<lparr>task_Status := TaskStatusCanceled, task_ErrorMsg := msg, task_FinishedAt := Some now,
       task_CanceledAt := Some now, task_LastStatusAt := Some now, task_NextRetryAt := None,
       task_CancelRequestedAt := None, task_UpdatedAt := now\<rparr>"

(* src/internal/repository/watch_folder_repository.go 163-175 watchFolderRepository.Update *)
definition cancel_folder_tasks :: "time \<Rightarrow> nat \<Rightarrow> string \<Rightarrow> db \<Rightarrow> db" where
  "cancel_folder_tasks now wid msg s =
     update_tasks (\<lambda>t. task_WatchFolderID t = wid
                      \<and> task_Status t \<in> {TaskStatusPending, TaskStatusPaused, TaskStatusFailed})
       (cancel_queued_row now msg)
       (update_tasks (\<lambda>t. task_WatchFolderID t = wid \<and> task_Status t = TaskStatusRunning)
         (ask_running_row now) s)"

definition config_row :: "time \<Rightarrow> watch_folder \<Rightarrow> watch_folder \<Rightarrow> watch_folder" where
  "config_row now f old =
     old\<lparr>wf_Name := wf_Name f, wf_LocalPath := wf_LocalPath f, wf_RemoteRouteID := wf_RemoteRouteID f,
         wf_RemoteName := wf_RemoteName f, wf_RemotePath := wf_RemotePath f, wf_SyncType := wf_SyncType f,
         wf_MaxDepth := wf_MaxDepth f, wf_FilterKeywords := wf_FilterKeywords f,
         wf_ScanIntervalSeconds := wf_ScanIntervalSeconds f, wf_Status := wf_Status f,
         wf_Enabled := wf_Enabled f, wf_NextScanAt := None, wf_PathPipeline := wf_PathPipeline f,
         wf_UpdatedAt := now\<rparr>"

text \<open>
  The transaction: the conditional update (call 1), the count that explains why nothing matched
  (call 2), the three updates of a destination change (calls 3 to 5), the pipeline (6) and the commit (7).
\<close>
(* src/internal/repository/watch_folder_repository.go 115-185 watchFolderRepository.Update *)
definition Update_folder ::
    "fault \<Rightarrow> time \<Rightarrow> watch_folder \<Rightarrow> bool \<Rightarrow> bool \<Rightarrow> db \<Rightarrow> db \<times> (repo_error, unit) result" where
  "Update_folder flt now f requireIdle destinationChanged s =
     (let i = wf_ID f;
          p = (\<lambda>x. wf_ID x = i \<and> (wf_UpdatedAt f = zero_time \<or> wf_UpdatedAt x = wf_UpdatedAt f)
                   \<and> (requireIdle \<longrightarrow> wf_Status x \<noteq> WatchFolderStatusDetecting)) in
      if flt 0 then (s, Inl (ErrDB 0))
      else if flt 1 then (s, Inl (ErrDB 1))
      else if (\<exists>x \<in> set (folders s). p x) \<and> folder_path_taken i (wf_LocalPath f) s then (s, Inl ErrConflict)
      else if rows_affected p (config_row now f) (folders s) = 0 then
        (if flt 2 then (s, Inl (ErrDB 2))
         else if \<not> (\<exists>x \<in> set (folders s). wf_ID x = i) then (s, Inl ErrNotFound) else (s, Inl ErrConflict))
      else let s1 = update_folders p (config_row now f) s;
               s2 = (if destinationChanged
                     then cancel_folder_tasks now i ''watch folder upload destination changed''
                       (s1\<lparr>files := update_where (\<lambda>r. fr_WatchFolderID r = i)
                              (\<lambda>r. r\<lparr>fr_UploadedAt := None, fr_UpdatedAt := now\<rparr>) (files s1)\<rparr>)
                     else s1)
           in if destinationChanged \<and> flt 3 then (s, Inl (ErrDB 3))
              else if destinationChanged \<and> flt 4 then (s, Inl (ErrDB 4))
              else if destinationChanged \<and> flt 5 then (s, Inl (ErrDB 5))
              else if flt 6 then (s, Inl (ErrDB 6))
              else if flt 7 then (s, Inl (ErrDB 7)) else (s2, Inr ()))"

(* src/internal/repository/watch_folder_repository.go 187-247 watchFolderRepository.Delete *)
definition Delete_folder :: "fault \<Rightarrow> time \<Rightarrow> nat \<Rightarrow> db \<Rightarrow> db \<times> (repo_error, unit) result" where
  "Delete_folder flt now i s =
     (if flt 0 then (s, Inl (ErrDB 0))
      else if flt 1 then (s, Inl (ErrDB 1))
      else case folder_by i s of
             None \<Rightarrow> (s, Inl ErrNotFound)
           | Some f \<Rightarrow>
               if wf_Status f = WatchFolderStatusDetecting
                  \<and> (case wf_ScanLeaseExpiresAt f of None \<Rightarrow> True | Some e \<Rightarrow> e > now)
               then (s, Inl ErrConflict)
               else if flt 2 then (s, Inl (ErrDB 2))
               else if flt 3 then (s, Inl (ErrDB 3))
               else if flt 4 then (s, Inl (ErrDB 4))
               else if flt 5 then (s, Inl (ErrDB 5))
               else if flt 6 then (s, Inl (ErrDB 6))
               else if flt 7 then (s, Inl (ErrDB 7))
               else let s1 = cancel_folder_tasks now i ''watch folder deleted'' s
                    in (s1\<lparr>files := update_where (\<lambda>r. fr_WatchFolderID r = i)
                                (\<lambda>r. r\<lparr>fr_WatchFolderID := 0, fr_UpdatedAt := now\<rparr>) (files s1),
                            folders := delete_where (\<lambda>x. wf_ID x = i) (folders s1)\<rparr>, Inr ()))"

subsection \<open>The scan lease as a lease\<close>

datatype folder_op =
    FOpClaim nat string time dur time
  | FOpRenew nat string dur
  | FOpFinish nat string scan_columns
  | FOpScheduleAll
  | FOpSuccess nat int time
  | FOpFailure nat time
  | FOpCreate watch_folder
  | FOpUpdate watch_folder bool bool
  | FOpDelete nat

text \<open>A claim decides by the reading it passes on (\<open>startedAt\<close>) and stamps the row with a later one.\<close>
fun folder_step :: "time \<Rightarrow> fault \<times> folder_op \<Rightarrow> db \<Rightarrow> db" where
  "folder_step now (flt, FOpClaim i w expd d upd) s = fst (ClaimForScan flt upd i w expd now d s)"
| "folder_step now (flt, FOpRenew i w d) s = fst (RenewScanLease flt now i w d s)"
| "folder_step now (flt, FOpFinish i w c) s = fst (FinishScan flt now i w c s)"
| "folder_step now (flt, FOpScheduleAll) s = fst (ScheduleAllEnabledNow flt now s)"
| "folder_step now (flt, FOpSuccess i sz at) s = fst (RecordUploadSuccess flt now i sz at s)"
| "folder_step now (flt, FOpFailure i at) s = fst (RecordUploadFailure flt now i at s)"
| "folder_step now (flt, FOpCreate f) s = fst (Create_folder flt now f s)"
| "folder_step now (flt, FOpUpdate f idle dest) s = fst (Update_folder flt now f idle dest s)"
| "folder_step now (flt, FOpDelete i) s = fst (Delete_folder flt now i s)"

fun folder_actor :: "fault \<times> folder_op \<Rightarrow> string option" where
  "folder_actor (_, FOpClaim _ w _ _ _) = Some w"
| "folder_actor (_, FOpRenew _ w _) = Some w"
| "folder_actor (_, FOpFinish _ w _) = Some w"
| "folder_actor _ = None"

fun folder_revokes :: "fault \<times> folder_op \<Rightarrow> nat \<Rightarrow> bool" where
  "folder_revokes (_, FOpDelete j) i = (j = i)"
| "folder_revokes _ _ = False"

fun folder_okop :: "fault \<times> folder_op \<Rightarrow> bool" where
  "folder_okop (_, FOpClaim _ w _ _ _) = (w \<noteq> '''')"
| "folder_okop (_, FOpRenew _ w _) = (w \<noteq> '''')"
| "folder_okop (_, FOpFinish _ w _) = (w \<noteq> '''')"
| "folder_okop (_, FOpCreate f) = (wf_ScanLeaseOwner f = '''')"
| "folder_okop _ = True"

definition folders_inv :: "db \<Rightarrow> bool" where
  "folders_inv s \<longleftrightarrow> distinct (map wf_ID (folders s)) \<and> (\<forall>f \<in> set (folders s). wf_ID f < next_folder s)"

definition scan_lease :: "db \<Rightarrow> nat \<Rightarrow> (string \<times> time) option" where
  "scan_lease s i =
     (case folder_by i s of
        None \<Rightarrow> None
      | Some f \<Rightarrow> if wf_ScanLeaseOwner f = '''' then None
                  else map_option (Pair (wf_ScanLeaseOwner f)) (wf_ScanLeaseExpiresAt f))"

lemma scan_lease_Some:
  "scan_lease s i = Some (w, e) \<longleftrightarrow> w \<noteq> '''' \<and> (\<exists>f. folder_by i s = Some f
     \<and> wf_ScanLeaseOwner f = w \<and> wf_ScanLeaseExpiresAt f = Some e)"
  by (auto simp: scan_lease_def split: option.splits)

lemmas folder_rows = claim_scan_row_def renew_scan_row_def finish_scan_row_def config_row_def

lemma folder_row_ids [simp]:
  "wf_ID (claim_scan_row n w st d f) = wf_ID f" "wf_ID (renew_scan_row n d f) = wf_ID f"
  "wf_ID (finish_scan_row n c f) = wf_ID f" "wf_ID (config_row n g f) = wf_ID f"
  by (simp_all add: folder_rows)

lemma folder_by_update:
  "(\<And>f. wf_ID (u f) = wf_ID f) \<Longrightarrow>
     folder_by i (update_folders p u s) = map_option (\<lambda>f. if p f then u f else f) (folder_by i s)"
  by (simp add: folder_by_def update_folders_def first_where_update_key)

lemma folders_inv_update:
  "(\<And>f. wf_ID (u f) = wf_ID f) \<Longrightarrow> folders_inv s \<Longrightarrow> folders_inv (update_folders p u s)"
  by (auto simp: folders_inv_def update_folders_def update_where_cong_map set_update_where)

lemma cancel_folder_tasks_folders [simp]:
  "folders (cancel_folder_tasks n w msg s) = folders s"
  "next_folder (cancel_folder_tasks n w msg s) = next_folder s"
  "files (cancel_folder_tasks n w msg s) = files s"
  by (simp_all add: cancel_folder_tasks_def update_tasks_def)

lemma folder_by_cong: "folders s = folders s' \<Longrightarrow> folder_by i s = folder_by i s'"
  by (simp add: folder_by_def)

lemma folders_inv_cong: "folders s = folders s' \<Longrightarrow> next_folder s = next_folder s' \<Longrightarrow> folders_inv s = folders_inv s'"
  by (simp add: folders_inv_def)

text \<open>The folder table after a configuration change: unchanged, or the one row replaced.\<close>
lemma Update_folder_folders:
  "folders (fst (Update_folder flt now f idle dest s)) = folders s
     \<and> next_folder (fst (Update_folder flt now f idle dest s)) = next_folder s
   \<or> folders (fst (Update_folder flt now f idle dest s))
       = folders (update_folders (\<lambda>x. wf_ID x = wf_ID f \<and> (wf_UpdatedAt f = zero_time \<or> wf_UpdatedAt x = wf_UpdatedAt f)
                   \<and> (idle \<longrightarrow> wf_Status x \<noteq> WatchFolderStatusDetecting)) (config_row now f) s)
     \<and> next_folder (fst (Update_folder flt now f idle dest s)) = next_folder s"
  by (simp add: Update_folder_def Let_def update_folders_def)

lemma Delete_folder_folders:
  "folders (fst (Delete_folder flt now i s)) = folders s
     \<and> next_folder (fst (Delete_folder flt now i s)) = next_folder s
   \<or> folders (fst (Delete_folder flt now i s)) = delete_where (\<lambda>x. wf_ID x = i) (folders s)
     \<and> next_folder (fst (Delete_folder flt now i s)) = next_folder s"
  by (simp add: Delete_folder_def Let_def split: option.split)

lemma folder_step_inv: "folders_inv s \<Longrightarrow> folders_inv (folder_step now (flt, a) s)"
proof (cases a)
  case (FOpCreate f)
  then show "folders_inv s \<Longrightarrow> ?thesis"
    by (force simp: Create_folder_def Let_def folders_inv_def)
next
  case (FOpUpdate f idle dest)
  assume inv: "folders_inv s"
  from Update_folder_folders[of flt now f idle dest s] show ?thesis
  proof (elim disjE)
    assume "folders (fst (Update_folder flt now f idle dest s)) = folders s
      \<and> next_folder (fst (Update_folder flt now f idle dest s)) = next_folder s"
    with inv FOpUpdate show ?thesis by (simp add: folders_inv_def)
  qed (use inv FOpUpdate folders_inv_update[of "config_row now f" s] in
       \<open>simp add: folders_inv_def update_folders_def\<close>)
next
  case (FOpDelete i)
  assume "folders_inv s"
  with Delete_folder_folders[of flt now i s] FOpDelete show ?thesis
    by (auto simp: folders_inv_def distinct_delete_where)
qed (auto simp: ClaimForScan_def RenewScanLease_def FinishScan_def ScheduleAllEnabledNow_def
      RecordUploadSuccess_def RecordUploadFailure_def Let_def intro!: folders_inv_update)

definition same_scan_lease :: "watch_folder \<Rightarrow> watch_folder \<Rightarrow> bool" where
  "same_scan_lease f f' \<longleftrightarrow> wf_ScanLeaseOwner f' = wf_ScanLeaseOwner f
     \<and> wf_ScanLeaseExpiresAt f' = wf_ScanLeaseExpiresAt f"

lemma folder_by_id: "folder_by i s = Some f \<Longrightarrow> wf_ID f = i"
  by (simp add: folder_by_Some)

lemma folder_update_step:
  assumes "\<And>f. wf_ID (u f) = wf_ID f" "folder_by i s = Some f"
  shows "folder_by i (update_folders p u s) = Some (if p f then u f else f)"
  using assms by (simp add: folder_by_update)

text \<open>What a step may do to the lease of a stored folder.\<close>
lemma folder_step_row:
  assumes "folders_inv s" "folder_by i s = Some f" "folder_okop (flt, a)" "\<not> folder_revokes (flt, a) i"
  shows "\<exists>f'. folder_by i (folder_step now (flt, a) s) = Some f'
    \<and> (same_scan_lease f f'
       \<or> (scan_lease_free now f \<and> folder_actor (flt, a) = Some (wf_ScanLeaseOwner f'))
       \<or> (folder_actor (flt, a) = Some (wf_ScanLeaseOwner f)
           \<and> (wf_ScanLeaseOwner f' = wf_ScanLeaseOwner f \<or> wf_ScanLeaseOwner f' = '''')))"
proof (cases a)
  case (FOpClaim j w expd d upd)
  with assms(2) show ?thesis
    by (auto simp: ClaimForScan_def Let_def folder_by_update same_scan_lease_def claim_scan_row_def scan_due_def)
next
  case (FOpRenew j w d)
  with assms(2) show ?thesis
    by (auto simp: RenewScanLease_def Let_def folder_by_update same_scan_lease_def renew_scan_row_def)
next
  case (FOpFinish j w c)
  with assms(2) show ?thesis
    by (auto simp: FinishScan_def Let_def folder_by_update same_scan_lease_def finish_scan_row_def)
next
  case (FOpCreate g)
  have "folder_by i (s\<lparr>folders := folders s @ [x], next_folder := n\<rparr>) = Some f" for x n
    using assms(2) by (simp add: folder_by_def first_where_def find_append)
  with FOpCreate assms(2) show ?thesis
    by (auto simp: Create_folder_def Let_def same_scan_lease_def)
next
  case (FOpUpdate g idle dest)
  from Update_folder_folders[of flt now g idle dest s] show ?thesis
  proof (elim disjE conjE)
    assume "folders (fst (Update_folder flt now g idle dest s)) = folders s"
    then have "folder_by i (folder_step now (flt, a) s) = Some f"
      using assms(2) FOpUpdate by (simp add: folder_by_def)
    then show ?thesis by (auto simp: same_scan_lease_def)
  next
    assume "folders (fst (Update_folder flt now g idle dest s))
       = folders (update_folders (\<lambda>x. wf_ID x = wf_ID g \<and> (wf_UpdatedAt g = zero_time \<or> wf_UpdatedAt x = wf_UpdatedAt g)
                   \<and> (idle \<longrightarrow> wf_Status x \<noteq> WatchFolderStatusDetecting)) (config_row now g) s)"
    from folder_by_cong[OF this, of i] show ?thesis
      using assms(2) FOpUpdate
      by (auto simp: folder_by_update same_scan_lease_def config_row_def)
  qed
next
  case (FOpDelete j)
  with assms(4) have "j \<noteq> i" by simp
  have d: "distinct (map wf_ID (folders s))" using assms(1) by (simp add: folders_inv_def)
  from Delete_folder_folders[of flt now j s] have "folder_by i (folder_step now (flt, a) s) = Some f"
  proof (elim disjE conjE)
    assume "folders (fst (Delete_folder flt now j s)) = delete_where (\<lambda>x. wf_ID x = j) (folders s)"
    then show ?thesis
      using first_where_delete_key[OF d, of i "\<lambda>x. wf_ID x = j"] assms(2) \<open>j \<noteq> i\<close> folder_by_id[OF assms(2)]
      by (simp add: folder_by_def FOpDelete)
  qed (use assms(2) FOpDelete in \<open>simp add: folder_by_def\<close>)
  then show ?thesis by (auto simp: same_scan_lease_def)
qed (use assms(2) in \<open>auto simp: ScheduleAllEnabledNow_def RecordUploadSuccess_def RecordUploadFailure_def
      Let_def folder_by_update same_scan_lease_def\<close>)

lemma folder_step_new:
  assumes "folders_inv s" "folder_by i s = None" "folder_okop (flt, a)"
    "folder_by i (folder_step now (flt, a) s) = Some f'"
  shows "wf_ScanLeaseOwner f' = ''''"
proof (cases a)
  case (FOpCreate g)
  with assms(2-4) show ?thesis
    by (auto simp: Create_folder_def Let_def folder_by_def first_where_def find_append folder_defaults_def
        split: if_splits)
next
  case (FOpUpdate g idle dest)
  from Update_folder_folders[of flt now g idle dest s] have "folder_by i (folder_step now (flt, a) s) = None"
  proof (elim disjE conjE)
    assume "folders (fst (Update_folder flt now g idle dest s))
       = folders (update_folders (\<lambda>x. wf_ID x = wf_ID g \<and> (wf_UpdatedAt g = zero_time \<or> wf_UpdatedAt x = wf_UpdatedAt g)
                   \<and> (idle \<longrightarrow> wf_Status x \<noteq> WatchFolderStatusDetecting)) (config_row now g) s)"
    from folder_by_cong[OF this, of i] assms(2) FOpUpdate show ?thesis by (simp add: folder_by_update)
  qed (use assms(2) FOpUpdate in \<open>simp add: folder_by_def\<close>)
  with assms(4) show ?thesis by simp
next
  case (FOpDelete j)
  have "folder_by i (folder_step now (flt, a) s) = None"
    using Delete_folder_folders[of flt now j s] assms(2) FOpDelete
    by (auto simp: folder_by_def first_where_None)
  with assms(4) show ?thesis by simp
qed (use assms(2,4) in \<open>auto simp: ClaimForScan_def RenewScanLease_def FinishScan_def ScheduleAllEnabledNow_def
      RecordUploadSuccess_def RecordUploadFailure_def Let_def folder_by_update claim_scan_row_def split: if_splits\<close>)

interpretation fl: lease_machine folder_step folder_actor scan_lease folder_revokes folder_okop folders_inv
proof (unfold_locales, goal_cases)
  case (1 s a n)
  then show ?case by (cases a) (simp add: folder_step_inv)
next
  case (2 s a i w e n)
  obtain flt b where a: "a = (flt, b)" by (cases a)
  from 2(3) obtain f where f: "folder_by i s = Some f" "wf_ScanLeaseOwner f = w" "wf_ScanLeaseExpiresAt f = Some e" "w \<noteq> ''''"
    by (auto simp: scan_lease_Some)
  from folder_step_row[OF 2(1) f(1) 2(2)[unfolded a] 2(6)[unfolded a], of n] 2(4,5) f
  show ?case by (auto simp: a scan_lease_Some same_scan_lease_def scan_lease_free_def)
next
  case (3 s a n i w e)
  obtain flt b where a: "a = (flt, b)" by (cases a)
  from 3(3) obtain f' where f': "folder_by i (folder_step n (flt, b) s) = Some f'" "wf_ScanLeaseOwner f' = w"
    "wf_ScanLeaseExpiresAt f' = Some e" "w \<noteq> ''''"
    by (auto simp: scan_lease_Some a)
  show ?case
  proof (cases "folder_by i s")
    case None
    from folder_step_new[OF 3(1) None 3(2)[unfolded a] f'(1)] f' show ?thesis by simp
  next
    case (Some f)
    show ?thesis
    proof (cases "folder_revokes (flt, b) i")
      case True
      then have b: "b = FOpDelete i" by (cases b) auto
      from Delete_folder_folders[of flt n i s] have "folders (folder_step n (flt, b) s) = folders s"
        using f'(1) b by (auto simp: folder_by_def dest!: first_where_Some)
      then have "folder_by i (folder_step n (flt, b) s) = folder_by i s" by (rule folder_by_cong)
      with f' show ?thesis by (auto simp: scan_lease_Some)
    next
      case False
      from folder_step_row[OF 3(1) Some 3(2)[unfolded a] False, of n] f' Some show ?thesis
        by (auto simp: a scan_lease_Some same_scan_lease_def)
    qed
  qed
qed

subsection \<open>Tasks of a folder\<close>

lemma ask_running_ok: "row_ok M t \<Longrightarrow> task_Status t = TaskStatusRunning \<Longrightarrow> row_ok M (ask_running_row n t)"
  by (auto simp: row_ok_def ask_running_row_def)

lemma cancel_queued_ok:
  "row_ok M t \<Longrightarrow> task_Status t \<noteq> TaskStatusRunning \<Longrightarrow> row_ok M (cancel_queued_row n msg t)"
  by (auto simp: row_ok_def cancel_queued_row_def)

lemma task_inv_update:
  assumes "task_inv M s" "\<And>t. task_ID (u t) = task_ID t" "\<And>t. task_IdempotencyKey (u t) = task_IdempotencyKey t"
    and "\<And>t. row_ok M t \<Longrightarrow> p t \<Longrightarrow> row_ok M (u t)"
  shows "task_inv M (update_tasks p u s)"
proof -
  have "map task_ID (tasks (update_tasks p u s)) = map task_ID (tasks s)"
    "map task_IdempotencyKey (tasks (update_tasks p u s)) = map task_IdempotencyKey (tasks s)"
    using assms(2,3) by (simp_all add: update_where_cong_map)
  moreover have "next_task (update_tasks p u s) = next_task s" by (simp add: update_tasks_def)
  moreover have "\<forall>t \<in> set (tasks (update_tasks p u s)). task_ID t < next_task s \<and> row_ok M t"
    using assms by (auto simp: set_update_where task_inv_def keys_fresh_def)
  ultimately show ?thesis using assms(1) by (simp only: task_inv_def keys_fresh_def)  blast
qed

lemma cancel_folder_tasks_inv: "task_inv M s \<Longrightarrow> task_inv M (cancel_folder_tasks now w msg s)"
  unfolding cancel_folder_tasks_def
  by (intro task_inv_update) (auto simp: ask_running_row_def cancel_queued_row_def
       intro: ask_running_ok[unfolded ask_running_row_def] cancel_queued_ok[unfolded cancel_queued_row_def])

lemma task_inv_cong: "tasks s = tasks s' \<Longrightarrow> next_task s = next_task s' \<Longrightarrow> task_inv M s = task_inv M s'"
  by (simp add: task_inv_def keys_fresh_def)

lemma cancel_folder_tasks_by:
  "task_by i (cancel_folder_tasks now w msg s) = map_option (\<lambda>t.
     if task_WatchFolderID t \<noteq> w then t
     else if task_Status t = TaskStatusRunning then ask_running_row now t
     else if task_Status t \<in> {TaskStatusPending, TaskStatusPaused, TaskStatusFailed} then cancel_queued_row now msg t
     else t) (task_by i s)"
  unfolding cancel_folder_tasks_def
  by (cases "task_by i s") (auto simp: task_by_update_if ask_running_row_def cancel_queued_row_def)

lemma task_by_cong: "tasks s = tasks s' \<Longrightarrow> task_by i s = task_by i s'"
  by (simp add: task_by_def)

definition sample_folder :: "nat \<Rightarrow> folder_status \<Rightarrow> watch_folder" where
  "sample_folder i st = \<lparr>wf_ID = i, wf_Name = ''docs'', wf_LocalPath = ''/d'', wf_RemoteRouteID = 0,
     wf_RemoteName = ''r'', wf_RemotePath = ''b'', wf_SyncType = ''local_to_remote'', wf_MaxDepth = 0,
     wf_FilterKeywords = '''', wf_Enabled = True, wf_Status = st, wf_LastError = '''',
     wf_LastScanAt = None, wf_LastScanStartedAt = None, wf_LastScanFinishedAt = None,
     wf_LastScanSuccessAt = None, wf_LastScanDurationMs = 0, wf_LastSyncAt = None, wf_NextScanAt = None,
     wf_LastActiveAt = None, wf_ScanLeaseOwner = '''', wf_ScanLeaseExpiresAt = None, wf_TotalFileCount = 0,
     wf_TotalFileSize = 0, wf_UploadedFileCount = 0, wf_UploadedBytes = 0, wf_FailedFileCount = 0,
     wf_WindowUploadedFiles = 0, wf_WindowUploadedBytes = 0, wf_ScanIntervalSeconds = 300,
     wf_PathPipeline = [], wf_CreatedAt = 1, wf_UpdatedAt = 1\<rparr>"

definition scanning_folder :: "nat \<Rightarrow> folder_status \<Rightarrow> watch_folder" where
  "scanning_folder i st = (sample_folder i st)\<lparr>wf_ScanLeaseOwner := ''a'', wf_ScanLeaseExpiresAt := Some 20\<rparr>"

definition folder_db :: "watch_folder list \<Rightarrow> db" where
  "folder_db fs = empty_db\<lparr>folders := fs, next_folder := 9\<rparr>"

lemmas folder_samples = folder_db_def scanning_folder_def sample_folder_def empty_db_def

subsection \<open>Properties\<close>

text \<open>
  C29: A folder is scanned by one scanner at a time: while the scan lease an instance holds has not
  expired, no sequence of operations of other scanners, of the workers' statistics and of
  configuration changes gives the lease to another instance, or takes it away, unless the folder is
  deleted; in particular every claim by another instance is refused.
\<close>
theorem scan_lease_exclusive:
  assumes "folders_inv s" "scan_lease s i = Some (w, e)"
    and "list_all (\<lambda>x. folder_okop (snd x) \<and> fst x < e \<and> folder_actor (snd x) \<noteq> Some w
            \<and> \<not> folder_revokes (snd x) i) xs"
  shows "scan_lease (fl.run xs s) i = Some (w, e)
    \<and> (\<forall>n upd w' expd d. n < e \<longrightarrow> snd (ClaimForScan no_fault upd i w' expd n d (fl.run xs s)) = Inr False)"
proof (intro conjI allI impI)
  show l: "scan_lease (fl.run xs s) i = Some (w, e)"
    by (rule fl.lease_survives[OF assms])
  fix n upd w' expd d assume n: "n < e"
  from l obtain f where f: "folder_by i (fl.run xs s) = Some f" "wf_ScanLeaseExpiresAt f = Some e"
    by (auto simp: scan_lease_Some)
  have "folders_inv (fl.run xs s)"
    by (rule fl.inv_run[OF assms(1)]) (use assms(3) in \<open>auto simp: list_all_iff\<close>)
  then have d: "distinct (map wf_ID (folders (fl.run xs s)))" by (simp add: folders_inv_def)
  have "\<not> scan_due n f" using f(2) n by (simp add: scan_due_def scan_lease_free_def)
  with rows_affected_key[OF d, of i "\<lambda>f. scan_due n f \<and> (expd = zero_time \<or> wf_UpdatedAt f = expd)"
      "claim_scan_row upd w' n d"] f(1)
  show "snd (ClaimForScan no_fault upd i w' expd n d (fl.run xs s)) = Inr False"
    by (simp add: ClaimForScan_def Let_def folder_by_def)
qed

theorem scan_lease_exclusive_witness:
  "scan_lease (fl.run [(12, (no_fault, FOpClaim 1 ''b'' zero_time 5 12)),
      (13, (no_fault, FOpUpdate (sample_folder 1 WatchFolderStatusPaused) False False)),
      (14, (no_fault, FOpFinish 1 ''b'' \<lparr>sc_Status = WatchFolderStatusWatching, sc_LastError = '''',
          sc_FinishedAt = 14, sc_DurationMs = 0, sc_NextScanAt = None, sc_TotalFileCount = 0,
          sc_TotalFileSize = 0, sc_SuccessAt = None\<rparr>))]
     (folder_db [scanning_folder 1 WatchFolderStatusDetecting])) 1 = Some (''a'', 20)"
proof -
  let ?s = "folder_db [scanning_folder 1 WatchFolderStatusDetecting]"
  have inv: "folders_inv ?s" by (simp add: folders_inv_def folder_samples)
  have l: "scan_lease ?s 1 = Some (''a'', 20)"
    by (simp add: scan_lease_def folder_by_def first_where_def folder_samples)
  show ?thesis
    by (rule conjunct1[OF scan_lease_exclusive[OF inv l]]) simp
qed

text \<open>
  The end of a scan needs the lease and gives it back; it writes the scan's results, and sets the
  status the scanner asks for unless the folder was meanwhile disabled, stopped or paused, in which
  case the manual status stays.  Without the lease nothing changes and the loss is reported.
\<close>
theorem FinishScan_keeps_manual_state:
  assumes "folders_inv s" "folder_by i s = Some f" "wf_UpdatedAt f < now"
    and "FinishScan no_fault now i w c s = (s', r)"
  shows "if wf_ScanLeaseOwner f \<noteq> w then s' = s \<and> r = Inl ScanLeaseLost
    else r = Inr () \<and> (\<exists>f'. folder_by i s' = Some f' \<and> scan_lease s' i = None
      \<and> wf_Status f' = (if \<not> wf_Enabled f \<or> wf_Status f \<in> {WatchFolderStatusStopped, WatchFolderStatusPaused}
                        then wf_Status f else sc_Status c)
      \<and> wf_LastError f' = sc_LastError c \<and> wf_NextScanAt f' = sc_NextScanAt c
      \<and> wf_TotalFileCount f' = sc_TotalFileCount c \<and> wf_Enabled f' = wf_Enabled f)"
proof -
  let ?p = "\<lambda>f. wf_ID f = i \<and> wf_ScanLeaseOwner f = w"
  have d: "distinct (map wf_ID (folders s))" using assms(1) by (simp add: folders_inv_def)
  have ch: "finish_scan_row now c f \<noteq> f" using assms(3) by (cases f) (auto simp: finish_scan_row_def)
  have aff: "rows_affected ?p (finish_scan_row now c) (folders s) = (if wf_ScanLeaseOwner f = w then 1 else 0)"
    using rows_affected_key[OF d, of i "\<lambda>f. wf_ScanLeaseOwner f = w" "finish_scan_row now c"] assms(2) ch
    by (simp add: folder_by_def)
  have by': "folder_by i (update_folders ?p (finish_scan_row now c) s)
      = Some (if wf_ScanLeaseOwner f = w then finish_scan_row now c f else f)"
    using assms(2) folder_by_id[OF assms(2)] by (simp add: folder_by_update)
  show ?thesis
  proof (cases "wf_ScanLeaseOwner f = w")
    case True
    with assms(4) aff have "s' = update_folders ?p (finish_scan_row now c) s" "r = Inr ()"
      by (auto simp: FinishScan_def Let_def)
    moreover have "scan_lease (update_folders ?p (finish_scan_row now c) s) i = None"
      using by' True by (simp add: scan_lease_def finish_scan_row_def)
    ultimately show ?thesis using True by'
      by (auto simp: finish_scan_row_def scan_manual_def)
  next
    case False
    with aff have z: "rows_affected ?p (finish_scan_row now c) (folders s) = 0" by simp
    have "update_folders ?p (finish_scan_row now c) s = s"
      using rows_affected_0[OF z] by (simp add: update_folders_def)
    with False z assms(4) show ?thesis by (auto simp: FinishScan_def Let_def)
  qed
qed

theorem FinishScan_keeps_manual_state_witness:
  "\<exists>s' f'. FinishScan no_fault 15 1 ''a'' \<lparr>sc_Status = WatchFolderStatusWatching, sc_LastError = '''',
        sc_FinishedAt = 14, sc_DurationMs = 0, sc_NextScanAt = Some 99, sc_TotalFileCount = 7,
        sc_TotalFileSize = 0, sc_SuccessAt = Some 14\<rparr> (folder_db [scanning_folder 1 WatchFolderStatusPaused])
      = (s', Inr ())
    \<and> folder_by 1 s' = Some f' \<and> wf_Status f' = WatchFolderStatusPaused \<and> wf_TotalFileCount f' = 7"
proof -
  let ?s = "folder_db [scanning_folder 1 WatchFolderStatusPaused]"
  let ?c = "\<lparr>sc_Status = WatchFolderStatusWatching, sc_LastError = '''',
        sc_FinishedAt = 14, sc_DurationMs = 0, sc_NextScanAt = Some 99, sc_TotalFileCount = 7,
        sc_TotalFileSize = 0, sc_SuccessAt = Some (14::time)\<rparr>"
  have inv: "folders_inv ?s" by (simp add: folders_inv_def folder_samples)
  have f: "folder_by 1 ?s = Some (scanning_folder 1 WatchFolderStatusPaused)"
    by (simp add: folder_by_def first_where_def folder_samples)
  have u: "wf_UpdatedAt (scanning_folder 1 WatchFolderStatusPaused) < 15" by (simp add: folder_samples)
  have o: "wf_ScanLeaseOwner (scanning_folder 1 WatchFolderStatusPaused) = ''a''"
    "wf_Status (scanning_folder 1 WatchFolderStatusPaused) = WatchFolderStatusPaused"
    by (simp_all add: folder_samples)
  obtain s' r where fs: "FinishScan no_fault 15 1 ''a'' ?c ?s = (s', r)" by fastforce
  from FinishScan_keeps_manual_state[OF inv f u fs] o fs show ?thesis by auto
qed

text \<open>
  Changing a folder's destination invalidates what was decided for the old one, in the same
  transaction: a running task of the folder is asked to cancel, its queued, paused and failed tasks
  are cancelled, finished ones and the tasks of other folders are untouched, no snapshot of the
  folder counts as uploaded any more, and the task invariant is kept.  An update that reports an
  error has changed nothing.
\<close>
theorem Update_folder_destination_change:
  assumes "task_inv M s" "Update_folder flt now f idle True s = (s', r)"
  shows "case r of Inl e \<Rightarrow> s' = s
    | Inr _ \<Rightarrow> task_inv M s'
        \<and> (\<forall>i. task_by i s' = map_option (\<lambda>t.
              if task_WatchFolderID t \<noteq> wf_ID f then t
              else if task_Status t = TaskStatusRunning then ask_running_row now t
              else if task_Status t \<in> {TaskStatusPending, TaskStatusPaused, TaskStatusFailed}
              then cancel_queued_row now ''watch folder upload destination changed'' t
              else t) (task_by i s))
        \<and> (\<forall>x \<in> set (files s'). fr_WatchFolderID x = wf_ID f \<longrightarrow> fr_UploadedAt x = None)"
proof (cases r)
  case (Inl e)
  with assms(2) show ?thesis by (auto simp: Update_folder_def Let_def split: if_splits)
next
  case (Inr u)
  let ?p = "\<lambda>x. wf_ID x = wf_ID f \<and> (wf_UpdatedAt f = zero_time \<or> wf_UpdatedAt x = wf_UpdatedAt f)
      \<and> (idle \<longrightarrow> wf_Status x \<noteq> WatchFolderStatusDetecting)"
  let ?s1 = "update_folders ?p (config_row now f) s"
  let ?s2 = "?s1\<lparr>files := update_where (\<lambda>r. fr_WatchFolderID r = wf_ID f)
       (\<lambda>r. r\<lparr>fr_UploadedAt := None, fr_UpdatedAt := now\<rparr>) (files ?s1)\<rparr>"
  let ?m = "''watch folder upload destination changed''"
  have s': "s' = cancel_folder_tasks now (wf_ID f) ?m ?s2"
    using assms(2) Inr by (auto simp: Update_folder_def Let_def split: if_splits)
  have same: "tasks ?s2 = tasks s" "next_task ?s2 = next_task s" by (simp_all add: update_folders_def)
  have "task_inv M s'"
    unfolding s' by (rule cancel_folder_tasks_inv) (use assms(1) task_inv_cong[OF same] in blast)
  moreover have "\<forall>x \<in> set (files s'). fr_WatchFolderID x = wf_ID f \<longrightarrow> fr_UploadedAt x = None"
    by (auto simp: s' set_update_where)
  ultimately show ?thesis
    using Inr by (simp add: s' cancel_folder_tasks_by task_by_cong[OF same(1)])
qed

theorem Update_folder_destination_change_witness:
  "\<exists>s'. Update_folder no_fault 30 (sample_folder 1 WatchFolderStatusWatching) False True
         (folder_db [sample_folder 1 WatchFolderStatusWatching]\<lparr>tasks := [running_task 1 ''a'', pending_task 2 ''b''], next_task := 9\<rparr>)
       = (s', Inr ())
    \<and> map_option task_CancelRequestedAt (task_by 1 s') = Some (Some 30)
    \<and> map_option task_Status (task_by 2 s') = Some TaskStatusCanceled"
proof -
  let ?s = "folder_db [sample_folder 1 WatchFolderStatusWatching]\<lparr>tasks := [running_task 1 ''a'', pending_task 2 ''b''], next_task := 9\<rparr>"
  have inv: "task_inv 3 ?s"
    by (simp add: inv_defs running_task_def claim_row_def pending_task_def blank_task_def)
  obtain s' where u: "Update_folder no_fault 30 (sample_folder 1 WatchFolderStatusWatching) False True ?s = (s', Inr ())"
    by (simp add: Update_folder_def Let_def rows_affected_def config_row_def folder_path_taken_def folder_samples)
  from Update_folder_destination_change[OF inv u] u show ?thesis
    by (simp add: task_by_def first_where_def running_task_def claim_row_def pending_task_def blank_task_def
        ask_running_row_def cancel_queued_row_def folder_samples)
qed

end
