(* ===== verification/LogRepo.thy ===== *)
theory LogRepo
  imports Entities
begin

section \<open>Upload logs and scan runs\<close>

text \<open>
  \<open>internal/repository/upload_log_repository.go\<close> and \<open>scan_run_repository.go\<close>: the append-only
  tables of the worker and the watch-folder scanner.
\<close>

(* src/internal/repository/upload_log_repository.go 24-26 uploadLogRepository.Create *)
definition Create_log :: "fault \<Rightarrow> time \<Rightarrow> upload_log \<Rightarrow> db \<Rightarrow> db \<times> (repo_error, unit) result" where
  "Create_log flt now l s =
     (if flt 0 then (s, Inl (ErrDB 0))
      else (s\<lparr>upload_logs := upload_logs s @ [l\<lparr>log_CreatedAt := now\<rparr>]\<rparr>, Inr ()))"

text \<open>Newest first, all of them when no limit is given.\<close>
(* src/internal/repository/upload_log_repository.go 28-36 uploadLogRepository.ListByTaskID *)
definition ListByTaskID :: "fault \<Rightarrow> nat \<Rightarrow> int \<Rightarrow> db \<Rightarrow> (repo_error, upload_log list) result" where
  "ListByTaskID flt taskID limit s =
     (if flt 0 then Inl (ErrDB 0)
      else let list = rev (filter (\<lambda>l. log_TaskID l = taskID) (upload_logs s))
           in Inr (if limit > 0 then take (nat limit) list else list))"

text \<open>The new row gets the next key, which \<open>gorm\<close> writes back to the struct.\<close>
(* src/internal/repository/scan_run_repository.go 26-31 scanRunRepository.Create *)
definition Create_run :: "fault \<Rightarrow> time \<Rightarrow> scan_run \<Rightarrow> db \<Rightarrow> db \<times> (repo_error, scan_run) result" where
  "Create_run flt now r s =
     (if flt 0 then (s, Inl (ErrDB 0))
      else let r' = r\<lparr>run_ID := next_run s, run_CreatedAt := now\<rparr>
           in (s\<lparr>scan_runs := scan_runs s @ [r'], next_run := next_run s + 1\<rparr>, Inr r'))"

text \<open>
  \<open>Save\<close> overwrites the row with the struct's key.  A row that is gone is inserted again with its
  key; a struct without a key is created.
\<close>
(* src/internal/repository/scan_run_repository.go 33-38 scanRunRepository.Finish *)
definition Finish_run :: "fault \<Rightarrow> time \<Rightarrow> scan_run \<Rightarrow> db \<Rightarrow> db \<times> (repo_error, unit) result" where
  "Finish_run flt now r s =
     (if flt 0 then (s, Inl (ErrDB 0))
      else if run_ID r = 0 then (case Create_run (\<lambda>_. False) now r s of (s', _) \<Rightarrow> (s', Inr ()))
      else if list_ex (\<lambda>x. run_ID x = run_ID r) (scan_runs s)
      then (s\<lparr>scan_runs := update_where (\<lambda>x. run_ID x = run_ID r) (\<lambda>_. r) (scan_runs s)\<rparr>, Inr ())
      else (s\<lparr>scan_runs := insort_key run_ID r (scan_runs s)\<rparr>, Inr ()))"

(* src/internal/repository/scan_run_repository.go 40-58 scanRunRepository.ListByWatchFolder *)
definition ListByWatchFolder ::
    "fault \<Rightarrow> nat \<Rightarrow> int \<Rightarrow> int \<Rightarrow> db \<Rightarrow> (repo_error, scan_run list \<times> nat) result" where
  "ListByWatchFolder flt watchFolderID offset limit s =
     (let q = filter (\<lambda>r. watchFolderID > 0 \<longrightarrow> run_WatchFolderID r = watchFolderID) (scan_runs s) in
      if flt 0 then Inl (ErrDB 0)
      else if flt 1 then Inl (ErrDB 1)
      else let ordered = sort_key (\<lambda>r. - run_StartedAt r) q
           in Inr (if limit > 0 then take (nat limit) (drop (nat offset) ordered) else ordered, length q))"

lemma Create_log_tasks [simp]: "tasks (fst (Create_log flt now l s)) = tasks s"
  by (simp add: Create_log_def)

lemma Create_run_tables [simp]:
  "tasks (fst (Create_run flt now r s)) = tasks s"
  "folders (fst (Create_run flt now r s)) = folders s"
  "files (fst (Create_run flt now r s)) = files s"
  by (simp_all add: Create_run_def Let_def)

lemma Finish_run_tables [simp]:
  "tasks (fst (Finish_run flt now r s)) = tasks s"
  "folders (fst (Finish_run flt now r s)) = folders s"
  "files (fst (Finish_run flt now r s)) = files s"
  by (simp_all add: Finish_run_def Create_run_def Let_def)

end
