(* ===== verification/QueueProps.thy ===== *)
theory QueueProps
  imports Queue
begin

section \<open>What the upload worker guarantees\<close>

text \<open>
  The properties of \<open>Queue\<close>: the effective configuration, the retry delay in closed form, the lease
  that an uploading worker keeps, the conditions of a success, and that no attempt leaves its task
  behind.
\<close>

subsection \<open>Configuration\<close>

lemma go_div_third: "0 < l \<Longrightarrow> go_div l 3 = l div 3"
  by (simp add: go_div_nonneg)

lemma heartbeat_fits:
  fixes cfg0 g
  defines "cfg \<equiv> q_cfg (NewQueue g cfg0)"
  assumes "qc_HeartbeatInterval cfg0 < 2 ^ 62"
  shows "0 < qc_LeaseDuration cfg" "2 * qc_HeartbeatInterval cfg < qc_LeaseDuration cfg"
    and "3 \<le> qc_LeaseDuration cfg \<Longrightarrow> 0 < qc_HeartbeatInterval cfg"
proof -
  let ?hb = "qc_HeartbeatInterval cfg0"
  define l where "l = or_default (90 * second) (qc_LeaseDuration cfg0)"
  have l: "qc_LeaseDuration cfg = l" "0 < l"
    by (simp_all add: cfg_def NewQueue_def queue_defaults_def Let_def l_def or_default_def dur_defs)
  have b: "qc_HeartbeatInterval cfg = (if ?hb \<le> 0 \<or> wrap64 (?hb * 2) \<ge> l then go_div l 3 else ?hb)"
    by (simp add: cfg_def NewQueue_def queue_defaults_def Let_def l_def)
  have "2 * qc_HeartbeatInterval cfg < l \<and> (3 \<le> l \<longrightarrow> 0 < qc_HeartbeatInterval cfg)"
  proof (cases "?hb \<le> 0 \<or> wrap64 (?hb * 2) \<ge> l")
    case True
    then show ?thesis using b l go_div_third[OF l(2)] by simp linarith
  next
    case False
    then have "wrap64 (?hb * 2) = ?hb * 2" using assms(2) by (simp add: wrap64_id in_int64_def)
    then show ?thesis using False b by simp
  qed
  then show "0 < qc_LeaseDuration cfg" "2 * qc_HeartbeatInterval cfg < qc_LeaseDuration cfg"
    "3 \<le> qc_LeaseDuration cfg \<Longrightarrow> 0 < qc_HeartbeatInterval cfg" using l by auto
qed

text \<open>
  C37: every queue runs with a positive number of workers, at least one attempt per task and positive
  delays; its heartbeat fits twice into a lease of any configuration whose lease is not absurdly
  short; and the largest retry delay is the configured one unless it is below the base delay, in
  which case it is half an hour, whatever the base delay is.
\<close>
theorem NewQueue_config:
  fixes cfg0 g
  defines "cfg \<equiv> q_cfg (NewQueue g cfg0)"
  assumes "qc_HeartbeatInterval cfg0 < 2 ^ 62" "qc_MaxRetry cfg0 < 2 ^ 62" "g \<noteq> ''''"
  shows "0 < qc_MaxConcurrent cfg \<and> 1 \<le> q_maxAttempts (NewQueue g cfg0) \<and>
    q_maxAttempts (NewQueue g cfg0) = max 0 (qc_MaxRetry cfg0) + 1 \<and>
    0 < qc_PollInterval cfg \<and> 0 < qc_LeaseDuration cfg \<and> 0 < qc_TaskTimeout cfg \<and>
    0 < qc_RetryBaseDelay cfg \<and> 0 < qc_RetryMaxDelay cfg \<and> qc_InstanceID cfg \<noteq> '''' \<and>
    2 * qc_HeartbeatInterval cfg < qc_LeaseDuration cfg \<and>
    (3 \<le> qc_LeaseDuration cfg \<longrightarrow> 0 < qc_HeartbeatInterval cfg) \<and>
    qc_RetryMaxDelay cfg = (if qc_RetryMaxDelay cfg0 < qc_RetryBaseDelay cfg then 30 * minute else qc_RetryMaxDelay cfg0)"
proof -
  have cfg: "cfg = queue_defaults g cfg0" by (simp add: cfg_def NewQueue_def Let_def)
  have pos: "0 < or_default d x" if "0 < d" for d x using that by (simp add: or_default_def)
  have retry: "qc_MaxRetry cfg = max 0 (qc_MaxRetry cfg0)"
    and base: "qc_RetryBaseDelay cfg = or_default (30 * second) (qc_RetryBaseDelay cfg0)"
    and maxd: "qc_RetryMaxDelay cfg = (if qc_RetryMaxDelay cfg0 < qc_RetryBaseDelay cfg then 30 * minute else qc_RetryMaxDelay cfg0)"
    by (simp_all add: cfg queue_defaults_def Let_def)
  have fields: "0 < qc_MaxConcurrent cfg" "0 < qc_PollInterval cfg" "0 < qc_TaskTimeout cfg"
    "0 < qc_RetryBaseDelay cfg" "qc_InstanceID cfg \<noteq> ''''"
    using assms(4) by (simp_all add: cfg queue_defaults_def Let_def pos dur_defs)
  have "0 < qc_RetryMaxDelay cfg" using fields(4) by (simp add: maxd dur_defs)
  moreover have "q_maxAttempts (NewQueue g cfg0) = max 0 (qc_MaxRetry cfg0) + 1"
    using assms(3) retry by (simp add: NewQueue_def cfg Let_def wrap64_id in_int64_def)
  ultimately show ?thesis
    using fields heartbeat_fits[OF assms(2), of g, folded cfg_def] maxd by simp
qed

definition sample_config :: queue_config where
  "sample_config = \<lparr>qc_MaxConcurrent = 0, qc_MaxRetry = 2, qc_PollInterval = 0, qc_LeaseDuration = 90 * second,
     qc_HeartbeatInterval = 60 * second, qc_TaskTimeout = 0, qc_RetryBaseDelay = hour, qc_RetryMaxDelay = 0,
     qc_ProgressPersistInterval = 0, qc_InstanceID = '''', qc_ResourcePolicy = None\<rparr>"

theorem NewQueue_config_witness:
  "2 * qc_HeartbeatInterval (q_cfg (NewQueue ''host'' sample_config)) < 90 * second
   \<and> qc_RetryMaxDelay (q_cfg (NewQueue ''host'' sample_config)) = 30 * minute
   \<and> qc_RetryBaseDelay (q_cfg (NewQueue ''host'' sample_config)) = hour"
proof -
  have l: "qc_LeaseDuration (q_cfg (NewQueue ''host'' sample_config)) = 90 * second"
    "qc_RetryBaseDelay (q_cfg (NewQueue ''host'' sample_config)) = hour"
    by (simp_all add: NewQueue_def queue_defaults_def sample_config_def Let_def or_default_def dur_defs)
  show ?thesis
    using NewQueue_config[of sample_config "''host''"] unfolding l
    by (simp add: sample_config_def dur_defs)
qed

subsection \<open>The retry delay\<close>

lemma backoff_closed:
  assumes "0 < d" "0 < m" "m < 2 ^ 62"
  shows "min m (backoff m n d) = min m (d * 2 ^ n)"
  using assms(1)
proof (induction n arbitrary: d)
  case (Suc n)
  have half: "go_div m 2 = m div 2" using assms by (simp add: go_div_nonneg)
  have pow: "(1::int) \<le> 2 ^ n" by simp
  show ?case
  proof (cases "d < m")
    case False
    moreover have "d * 1 \<le> d * 2 ^ Suc n" using Suc.prems one_le_power[of "2::int" "Suc n"]
      by (intro mult_left_mono) simp_all
    ultimately have "m \<le> d * 2 ^ Suc n" by linarith
    with False show ?thesis by simp
  next
    case lt: True
    show ?thesis
    proof (cases "d > m div 2")
      case True
      have "d * 2 * 1 \<le> d * 2 * 2 ^ n" using Suc.prems pow by (intro mult_left_mono) auto
      moreover have "m \<le> d * 2" using True by linarith
      ultimately have "m \<le> d * 2 ^ Suc n" by simp
      with True lt show ?thesis by (simp add: half)
    next
      case False
      then have "d * 2 \<le> m" by linarith
      then have "wrap64 (d * 2) = d * 2" using Suc.prems assms(3) by (simp add: wrap64_id in_int64_def)
      with False lt Suc.IH[of "d * 2"] Suc.prems show ?thesis by (simp add: half mult.assoc)
    qed
  qed
qed simp

text \<open>
  the delay before the next attempt is the base delay doubled for every attempt already made,
  capped by the maximum, plus a jitter of at most a fifth; nothing overflows as long as the maximum is
  below \<open>2 ^ 62\<close> nanoseconds, however many attempts there were.
\<close>
theorem retryDelay_closed_form:
  assumes "0 < qc_RetryBaseDelay cfg" "0 < qc_RetryMaxDelay cfg" "qc_RetryMaxDelay cfg < 2 ^ 62"
    and "\<And>n. 0 < n \<Longrightarrow> 0 \<le> rnd n \<and> rnd n < n"
  shows "let d = min (qc_RetryMaxDelay cfg) (qc_RetryBaseDelay cfg * 2 ^ nat (max 1 attempt - 1))
    in d \<le> retryDelay cfg rnd attempt \<and> retryDelay cfg rnd attempt \<le> d + d div 5"
proof -
  let ?m = "qc_RetryMaxDelay cfg" and ?b = "qc_RetryBaseDelay cfg"
  define n where "n = nat (max 1 attempt - 1)"
  define d where "d = min ?m (?b * 2 ^ n)"
  have n: "nat ((if attempt < 1 then 1 else attempt) - 1) = n" by (auto simp: n_def max_def)
  have b: "(if backoff ?m n ?b > ?m then ?m else backoff ?m n ?b) = d"
    using backoff_closed[OF assms(1,2,3), of n] by (auto simp: d_def min_def split: if_splits)
  have d: "0 < d" "d \<le> ?m" using assms(1,2) by (auto simp: d_def)
  then have five: "go_div d 5 = d div 5" by (simp add: go_div_nonneg)
  have val: "retryDelay cfg rnd attempt = (if d div 5 > 0 then wrap64 (d + rnd (d div 5 + 1)) else d)"
    unfolding retryDelay_def Let_def n b five ..
  have "d \<le> retryDelay cfg rnd attempt \<and> retryDelay cfg rnd attempt \<le> d + d div 5"
  proof (cases "d div 5 > 0")
    case True
    then have r: "0 \<le> rnd (d div 5 + 1)" "rnd (d div 5 + 1) \<le> d div 5" using assms(4)[of "d div 5 + 1"] by auto
    have "in_int64 (d + rnd (d div 5 + 1))" using r d assms(3) by (simp add: in_int64_def)
    then show ?thesis using r True val by (simp add: wrap64_id)
  next
    case False
    then show ?thesis using val d by simp
  qed
  then show ?thesis by (simp add: d_def n_def Let_def)
qed

theorem retryDelay_closed_form_witness:
  "100 \<le> retryDelay (sample_config\<lparr>qc_RetryBaseDelay := 30, qc_RetryMaxDelay := 100\<rparr>) (\<lambda>n. n - 1) 4
   \<and> retryDelay (sample_config\<lparr>qc_RetryBaseDelay := 30, qc_RetryMaxDelay := 100\<rparr>) (\<lambda>n. n - 1) 4 \<le> 120"
  using retryDelay_closed_form[of "sample_config\<lparr>qc_RetryBaseDelay := 30, qc_RetryMaxDelay := 100\<rparr>" "\<lambda>n. n - 1" 4]
  by simp

subsection \<open>The lease of an uploading worker\<close>

text \<open>
  What can happen around an upload, as a schedule: the worker's own heartbeats and progress reports,
  and operations of anybody else on the queue.
\<close>
datatype beat =
    Beat fault time time time
  | Report fault fault time time progress
  | Foreign time "fault \<times> task_op"

fun to_during :: "beat \<Rightarrow> during" where
  "to_during (Beat flt started at now) = HeartbeatTick flt started at now"
| "to_during (Report flt fltLog now at p) = ProgressLine flt fltLog now at p"
| "to_during (Foreign n a) = Elsewhere (task_step n a)"

text \<open>
  A timely schedule: a tick starts no later than one interval after the previous one started
  (\<open>latest\<close>), takes no longer than its own timeout, and everything else happens before the next tick
  has to be over.
\<close>
fun timely :: "int \<Rightarrow> queue_config \<Rightarrow> string \<Rightarrow> time \<Rightarrow> beat list \<Rightarrow> bool" where
  "timely M cfg owner latest [] = True"
| "timely M cfg owner latest (Beat flt started at now # es) \<longleftrightarrow>
     started \<le> latest \<and> started \<le> at \<and> at \<le> now \<and> now \<le> started + attemptTimeout cfg
     \<and> timely M cfg owner (started + qc_HeartbeatInterval cfg) es"
| "timely M cfg owner latest (Report flt fltLog now at p # es) \<longleftrightarrow>
     at \<le> latest + attemptTimeout cfg \<and> timely M cfg owner latest es"
| "timely M cfg owner latest (Foreign n a # es) \<longleftrightarrow>
     n \<le> latest + attemptTimeout cfg \<and> task_actor a \<noteq> Some owner \<and> okop M a
     \<and> timely M cfg owner latest es"

fun latest_tick :: "queue_config \<Rightarrow> time \<Rightarrow> beat list \<Rightarrow> time" where
  "latest_tick cfg latest [] = latest"
| "latest_tick cfg latest (Beat flt started at now # es) =
     latest_tick cfg (started + qc_HeartbeatInterval cfg) es"
| "latest_tick cfg latest (_ # es) = latest_tick cfg latest es"

definition holds_lease :: "int \<Rightarrow> queue_config \<Rightarrow> string \<Rightarrow> nat \<Rightarrow> time \<Rightarrow> running \<Rightarrow> bool" where
  "holds_lease M cfg owner i latest r \<longleftrightarrow> task_inv M (ru_db r) \<and>
     (\<not> hb_stopped (ru_heartbeat r) \<longrightarrow>
        (\<exists>e. task_lease (ru_db r) i = Some (owner, e) \<and> hb_leaseDeadline (ru_heartbeat r) \<le> e) \<and>
        latest + attemptTimeout cfg < hb_leaseDeadline (ru_heartbeat r))"

lemma renew_by:
  assumes "task_by i s = Some t" "owned i owner t" "\<not> cancel_requested t"
  shows "task_by i (update_tasks (\<lambda>t. owned i owner t \<and> \<not> cancel_requested t) (renew_row at d) s) = Some (renew_row at d t)"
  using assms by (simp add: update_tasks_def task_by_update)

lemma task_lease_renewed:
  assumes "task_lease s i = Some (owner, e)" "RenewLease flt at i owner d s = (s', Inr True)" "task_inv M s"
  shows "task_lease s' i = Some (owner, at + d)"
proof -
  obtain t where t: "task_by i s = Some t" "owned i owner t" using assms(1) by (auto simp: task_lease_Some)
  let ?p = "\<lambda>t. owned i owner t \<and> \<not> cancel_requested t"
  have s': "s' = update_tasks ?p (renew_row at d) s" and aff: "0 < tasks_affected ?p (renew_row at d) s"
    using assms(2) by (auto simp: RenewLease_def Let_def split: if_splits)
  have "distinct (map task_ID (tasks s))" using assms(3) by (simp add: task_inv_def keys_fresh_def)
  obtain x where x: "x \<in> set (tasks s)" "?p x"
    using aff by (auto simp: tasks_affected_def rows_affected_def filter_empty_conv)
  then have "task_by i s = Some x" using task_by_in[OF \<open>distinct _\<close> x(1)] by (simp add: owned_def)
  with t x have "\<not> cancel_requested t" by simp
  from renew_by[OF t this, of at d] t show ?thesis
    by (auto simp: task_lease_Some s' owned_def renew_row_def)
qed

lemma tick_holds:
  assumes inv: "holds_lease M cfg owner i latest r"
    and beat: "2 * qc_HeartbeatInterval cfg < qc_LeaseDuration cfg"
    and time: "started \<le> latest" "started \<le> at" "at \<le> now" "now \<le> started + attemptTimeout cfg"
    and small: "0 < qc_HeartbeatInterval cfg" "qc_HeartbeatInterval cfg < 2 ^ 62"
  shows "holds_lease M cfg owner i (started + qc_HeartbeatInterval cfg) (during_step cfg owner i (HeartbeatTick flt started at now) r)"
proof (cases "hb_stopped (ru_heartbeat r)")
  case True
  then show ?thesis using inv by (simp add: holds_lease_def tick_def)
next
  case False
  let ?h = "ru_heartbeat r" and ?s = "ru_db r"
  obtain e where e: "task_lease ?s i = Some (owner, e)" "hb_leaseDeadline ?h \<le> e"
    "latest + attemptTimeout cfg < hb_leaseDeadline ?h" and ti: "task_inv M ?s"
    using inv False by (auto simp: holds_lease_def)
  have timeout: "attemptTimeout cfg \<le> qc_HeartbeatInterval cfg" "0 < attemptTimeout cfg"
    using small by (auto simp: attemptTimeout_def minDuration_def dur_defs)
  then have wrap: "wrap64 (qc_HeartbeatInterval cfg + attemptTimeout cfg) = qc_HeartbeatInterval cfg + attemptTimeout cfg"
    using small by (intro wrap64_id) (simp add: in_int64_def)
  obtain s' res where rn: "RenewLease flt at i owner (qc_LeaseDuration cfg) ?s = (s', res)" by fastforce
  have ti': "task_inv M s'"
    using task_step_inv[OF ti, of "(flt)" "OpRenew i owner (qc_LeaseDuration cfg)" at] rn by simp
  show ?thesis
  proof (cases res)
    case (Inl err)
    then have "s' = ?s" using rn by (auto simp: RenewLease_def Let_def split: if_splits)
    then show ?thesis
      using False Inl rn e ti time timeout
      by (auto simp: holds_lease_def tick_def renewalRetryWouldExceedLease_def wrap Let_def)
  next
    case (Inr active)
    show ?thesis
    proof (cases active)
      case True
      with Inr rn have "task_lease s' i = Some (owner, at + qc_LeaseDuration cfg)"
        using task_lease_renewed[OF e(1) _ ti] by simp
      then show ?thesis
        using False Inr True rn ti' time timeout beat
        by (auto simp: holds_lease_def tick_def Let_def)
    next
      case False': False
      then show ?thesis
        using False Inr rn ti' by (simp add: holds_lease_def tick_def Let_def)
    qed
  qed
qed

lemma task_lease_cong: "tasks s = tasks s' \<Longrightarrow> task_lease s i = task_lease s' i"
  by (simp add: task_lease_def task_by_def)

lemma UpdateProgress_lease:
  "task_lease (fst (UpdateProgress flt now i owner pct speed at s)) j = task_lease s j"
  by (auto simp: UpdateProgress_def task_lease_def update_tasks_def task_by_update progress_row_def
      split: option.splits)

lemma report_holds:
  assumes "holds_lease M cfg owner i latest r"
  shows "holds_lease M cfg owner i latest (report_progress cfg owner i flt fltLog now at p r)"
proof -
  let ?s = "ru_db r"
  obtain s1 res where up: "UpdateProgress flt at i owner (pr_Percent p) (pr_Speed p) now ?s = (s1, res)" by fastforce
  have lease: "task_lease s1 i = task_lease ?s i"
    using UpdateProgress_lease[of flt at i owner "pr_Percent p" "pr_Speed p" now ?s i] up by simp
  have ti: "task_inv M s1" if "task_inv M ?s"
    using task_step_inv[OF that, of flt "OpProgress i owner (pr_Percent p) (pr_Speed p) now" at] up by simp
  have log: "task_inv M (fst (Create_log f n l s1)) = task_inv M s1"
    "task_lease (fst (Create_log f n l s1)) i = task_lease s1 i" for f n l
    by (auto intro!: task_inv_cong task_lease_cong simp: Create_log_def)
  show ?thesis
    using assms lease ti
    by (cases res) (auto simp: holds_lease_def report_progress_def Let_def up log)
qed

lemma foreign_holds:
  assumes "holds_lease M cfg owner i latest r" "n \<le> latest + attemptTimeout cfg"
    and "task_actor a \<noteq> Some owner" "okop M a"
  shows "holds_lease M cfg owner i latest (during_step cfg owner i (Elsewhere (task_step n a)) r)"
proof -
  have ti: "task_inv M (ru_db r)" using assms(1) by (simp add: holds_lease_def)
  have ti': "task_inv M (task_step n a (ru_db r))" using tl.inv_step[OF ti assms(4)] .
  show ?thesis
  proof (cases "hb_stopped (ru_heartbeat r)")
    case False
    then obtain e where e: "task_lease (ru_db r) i = Some (owner, e)" "hb_leaseDeadline (ru_heartbeat r) \<le> e"
      "latest + attemptTimeout cfg < hb_leaseDeadline (ru_heartbeat r)"
      using assms(1) by (auto simp: holds_lease_def)
    then have "task_lease (task_step n a (ru_db r)) i = Some (owner, e)"
      using tl.live_kept[OF ti assms(4) e(1), of n] assms(2,3) by simp
    with e ti' show ?thesis by (auto simp: holds_lease_def)
  qed (use ti' in \<open>simp add: holds_lease_def\<close>)
qed

lemma during_holds:
  assumes "2 * qc_HeartbeatInterval cfg < qc_LeaseDuration cfg"
    "0 < qc_HeartbeatInterval cfg" "qc_HeartbeatInterval cfg < 2 ^ 62"
  shows "holds_lease M cfg owner i latest r \<Longrightarrow> timely M cfg owner latest es \<Longrightarrow>
    holds_lease M cfg owner i (latest_tick cfg latest es) (during_run cfg owner i (map to_during es) r)"
proof (induction es arbitrary: latest r)
  case (Cons b es)
  show ?case
  proof (cases b)
    case (Beat flt started at now)
    have "holds_lease M cfg owner i (started + qc_HeartbeatInterval cfg) (during_step cfg owner i (HeartbeatTick flt started at now) r)"
      using tick_holds[OF Cons.prems(1) assms(1) _ _ _ _ assms(2,3)] Cons.prems(2) by (simp add: Beat)
    from Cons.IH[OF this] Cons.prems(2) show ?thesis by (simp add: Beat during_run_def)
  next
    case (Report flt fltLog now at p)
    from Cons.IH[OF report_holds[OF Cons.prems(1)]] Cons.prems(2)
    show ?thesis by (simp add: Report during_run_def)
  next
    case (Foreign n a)
    from Cons.IH[OF foreign_holds[OF Cons.prems(1)]] Cons.prems(2)
    show ?thesis by (simp add: Foreign during_run_def)
  qed
qed (simp add: during_run_def)

text \<open>
  C3: while a worker uploads and its heartbeat has not given up, the task is leased to it, and to it
  alone, beyond the moment at which its next heartbeat has to be over: whatever renewals fail, and
  whatever other workers, users and the scanner do to the queue meanwhile.  So the worker renews its
  lease or stops its upload before anybody else can claim the task, and no task is ever uploaded twice
  at the same time.
\<close>
theorem upload_keeps_lease:
  fixes cfg g cfg0 t started latest
  defines "cfg \<equiv> q_cfg (NewQueue g cfg0)"
  assumes "3 \<le> qc_LeaseDuration cfg" "qc_HeartbeatInterval cfg0 < 2 ^ 62" "qc_LeaseDuration cfg < 2 ^ 62"
    and "task_inv M s" "task_by i s = Some t" "owned i owner t"
    and "hb_leaseDeadline (start_heartbeat env cfg t) > latest + attemptTimeout cfg"
    and "timely M cfg owner latest es"
    and "r = during_run cfg owner i (map to_during es)
       \<lparr>ru_db = s, ru_heartbeat = start_heartbeat env cfg t, ru_lastProgressAt = zero_time, ru_out = out\<rparr>"
    and "\<not> hb_stopped (ru_heartbeat r)"
  shows "\<exists>e. task_lease (ru_db r) i = Some (owner, e) \<and> latest_tick cfg latest es + attemptTimeout cfg < e"
proof -
  have row: "row_ok M t" using assms(5,6) by (auto simp: task_inv_def dest: task_by_Some)
  then obtain e where e: "task_LeaseExpiresAt t = Some e" using assms(7) by (auto simp: row_ok_def owned_def)
  have "holds_lease M cfg owner i latest
    \<lparr>ru_db = s, ru_heartbeat = start_heartbeat env cfg t, ru_lastProgressAt = zero_time, ru_out = out\<rparr>"
    using assms(5-8) e by (auto simp: holds_lease_def start_heartbeat_def task_lease_Some)
  moreover have "0 < qc_HeartbeatInterval cfg" "2 * qc_HeartbeatInterval cfg < qc_LeaseDuration cfg"
    using heartbeat_fits(2,3)[OF assms(3), of g] assms(2) by (simp_all add: cfg_def)
  ultimately
  have "holds_lease M cfg owner i (latest_tick cfg latest es) r"
    using during_holds[OF _ _ _ _ assms(9)] assms(4) unfolding assms(10) by simp
  with assms(11) show ?thesis by (auto simp: holds_lease_def)
qed

definition demo_env :: attempt_env where
  "demo_env = \<lparr>at_started = 0, at_finished = 40 * second, at_dbNow = 40 * second, at_fltCheck = no_fault,
     at_fltEnd = no_fault, at_fltLog = no_fault, at_fltStats = no_fault, at_os = demo_os,
     at_statBefore = (\<lambda>_. Inr (3, 0)), at_statAfter = (\<lambda>_. Inr (3, 0)), at_during = [],
     at_copy = (\<lparr>res_Success = True, res_Error = ''''\<rparr>, None), at_timedOut = False, at_parentDone = False,
     at_Int63n = (\<lambda>_. 0), at_sha256 = (\<lambda>_. ''f''), at_policyText = (\<lambda>_. ''refused''), at_durText = (\<lambda>_. ''4h'')\<rparr>"

definition demo_queue :: queue where
  "demo_queue = NewQueue ''host'' sample_config"

definition uploading_task :: upload_task where
  "uploading_task = claim_row 0 ''w'' (90 * second) (pending_task 1 ''a'')"

lemma demo_cfg:
  "qc_LeaseDuration (q_cfg demo_queue) = 90 * second" "qc_HeartbeatInterval (q_cfg demo_queue) = 30 * second"
  "attemptTimeout (q_cfg demo_queue) = 5 * second" "qc_ResourcePolicy (q_cfg demo_queue) = None"
  "q_maxAttempts demo_queue = 3"
  by (simp_all add: demo_queue_def NewQueue_def queue_defaults_def sample_config_def Let_def or_default_def
      attemptTimeout_def minDuration_def wrap64_def go_div_def dur_defs)

lemma demo_inv: "task_inv 3 (queue_db [uploading_task])" "task_by 1 (queue_db [uploading_task]) = Some uploading_task"
  "owned 1 ''w'' uploading_task"
  by (simp_all add: inv_defs samples uploading_task_def claim_row_def task_by_def first_where_def owned_def)

theorem upload_keeps_lease_witness:
  "\<exists>e. task_lease (ru_db (during_run (q_cfg demo_queue) ''w'' 1
         (map to_during [Beat no_fault (30 * second) (30 * second) (31 * second),
            Foreign (40 * second) (no_fault, OpRelease 1 ''v'')])
       \<lparr>ru_db = queue_db [uploading_task], ru_heartbeat = start_heartbeat demo_env (q_cfg demo_queue) uploading_task,
        ru_lastProgressAt = zero_time, ru_out = []\<rparr>)) 1 = Some (''w'', e) \<and> 65 * second < e"
proof -
  let ?es = "[Beat no_fault (30 * second) (30 * second) (31 * second), Foreign (40 * second) (no_fault, OpRelease 1 ''v'')]"
  let ?r = "during_run (q_cfg demo_queue) ''w'' 1 (map to_during ?es)
       \<lparr>ru_db = queue_db [uploading_task], ru_heartbeat = start_heartbeat demo_env (q_cfg demo_queue) uploading_task,
        ru_lastProgressAt = zero_time, ru_out = []\<rparr>"
  have start: "hb_leaseDeadline (start_heartbeat demo_env (q_cfg demo_queue) uploading_task) = 90 * second"
    by (simp add: start_heartbeat_def uploading_task_def claim_row_def)
  have timely: "timely 3 (q_cfg demo_queue) ''w'' (30 * second) ?es"
    by (simp add: demo_cfg dur_defs)
  have run: "\<not> hb_stopped (ru_heartbeat ?r)"
    by (simp add: during_run_def tick_def demo_cfg start_heartbeat_def RenewLease_def Let_def tasks_affected_def
        rows_affected_def samples uploading_task_def claim_row_def renew_row_def owned_def cancel_requested_def dur_defs)
  have "\<exists>e. task_lease (ru_db ?r) 1 = Some (''w'', e)
      \<and> latest_tick (q_cfg demo_queue) (30 * second) ?es + attemptTimeout (q_cfg demo_queue) < e"
    by (rule upload_keeps_lease[of "''host''" sample_config, folded demo_queue_def, where env = demo_env and t = uploading_task
          and M = 3 and s = "queue_db [uploading_task]" and latest = "30 * second" and out = "[]",
          OF _ _ _ demo_inv _ timely refl run])
      (simp_all add: demo_cfg start dur_defs sample_config_def)
  then show ?thesis by (simp add: demo_cfg dur_defs)
qed

subsection \<open>What a success means\<close>

lemma admit_Admitted:
  assumes "admit env cfg t fileRecord = Admitted t' f'"
  obtains f l rp where "fileRecord = Some f" "f' = Some (f\<lparr>fr_LocalPath := l\<rparr>)" "t' = t\<lparr>task_RemotePath := rp\<rparr>"
    and "\<And>pol. qc_ResourcePolicy cfg = Some pol \<Longrightarrow>
       ValidateLocalFile (at_os env) (Some pol) (fr_LocalPath f) = Inr l
       \<and> ValidateRemote (Some pol) (task_RemoteName t) (task_RemotePath t) = Inr rp"
    and "task_FileFingerprint t \<noteq> '''' \<Longrightarrow> \<exists>sz mt. at_statBefore env l = Inr (sz, mt)
       \<and> fileMetadataFingerprint (at_sha256 env) sz mt = task_FileFingerprint t"
proof -
  have v: "validateClaimedTask t fileRecord = None"
    using assms by (simp add: admit_def split: option.splits)
  then obtain f where f: "fileRecord = Some f" by (auto simp: validateClaimedTask_def split: option.splits)
  define checked where "checked = validated_paths (at_os env) (qc_ResourcePolicy cfg) (fr_LocalPath f) (task_RemoteName t) (task_RemotePath t)"
  have ad: "admit env cfg t fileRecord = (case checked of Inl e \<Rightarrow> AdmitFailure (at_policyText env e)
        | Inr (l, rp) \<Rightarrow>
            let t' = t\<lparr>task_RemotePath := rp\<rparr>; f' = map_option (\<lambda>f. f\<lparr>fr_LocalPath := l\<rparr>) fileRecord in
            if task_FileFingerprint t' = '''' then Admitted t' f'
            else (case at_statBefore env l of
                    Inl e \<Rightarrow> AdmitFailure (''stat local file: '' @ e)
                  | Inr (sz, modTime) \<Rightarrow>
                      if fileMetadataFingerprint (at_sha256 env) sz modTime \<noteq> task_FileFingerprint t'
                      then AdmitSuperseded else Admitted t' f'))"
    unfolding admit_def v by (simp add: f checked_def)
  note a = assms[unfolded ad]
  then obtain l rp where c: "checked = Inr (l, rp)" by (cases checked) auto
  have pol: "qc_ResourcePolicy cfg = Some pol \<Longrightarrow> ValidateLocalFile (at_os env) (Some pol) (fr_LocalPath f) = Inr l
       \<and> ValidateRemote (Some pol) (task_RemoteName t) (task_RemotePath t) = Inr rp" for pol
    using c by (auto simp: checked_def validated_paths_def bind_res_Inr)
  have "t' = t\<lparr>task_RemotePath := rp\<rparr> \<and> f' = Some (f\<lparr>fr_LocalPath := l\<rparr>) \<and>
    (task_FileFingerprint t \<noteq> '''' \<longrightarrow> (\<exists>sz mt. at_statBefore env l = Inr (sz, mt)
       \<and> fileMetadataFingerprint (at_sha256 env) sz mt = task_FileFingerprint t))"
    using a by (cases "at_statBefore env l") (auto simp: c f Let_def split: if_splits)
  with f pol show ?thesis using that by blast
qed

lemma during_step_out: "set (ru_out (during_step cfg owner i b r)) \<subseteq> set (ru_out r) \<union> range (OnProgress i)"
  by (cases b) (auto simp: report_progress_def Let_def split: sum.splits prod.splits)

lemma during_out: "set (ru_out (during_run cfg owner i bs r)) \<subseteq> set (ru_out r) \<union> range (OnProgress i)"
proof (induction bs arbitrary: r)
  case (Cons b bs)
  from Cons[of "during_step cfg owner i b r"] during_step_out[of cfg owner i b r]
  show ?case by (auto simp: during_run_def)
qed (simp add: during_run_def)

lemma finishFailure_out: "OnStatus j TaskStatusSuccess m \<notin> set (snd (finishFailure env q owner t e s))"
proof -
  have "failure_status M t \<noteq> TaskStatusSuccess" for M t by (simp add: failure_status_def)
  then have "snd (FailOrRetry flt now i owner msg nr M s) \<noteq> Inr TaskStatusSuccess" for flt now i msg nr M
    by (auto simp: FailOrRetry_def Let_def split: option.splits)
  then have "FailOrRetry flt now i owner msg nr M s \<noteq> (s1, Inr TaskStatusSuccess)" for flt now i msg nr M s1
    by (metis snd_conv)
  then show ?thesis by (auto simp: finishFailure_def Let_def split: prod.splits sum.splits)
qed

lemma finishCanceled_out: "OnStatus j TaskStatusSuccess m \<notin> set (snd (finishCanceled env owner i e s))"
  by (auto simp: finishCanceled_def split: prod.splits sum.splits)

lemma settle_success:
  assumes "OnStatus j TaskStatusSuccess m \<in> set (snd (settle env q owner t fileRecord lost s))"
  shows "\<not> lost \<and> \<not> at_parentDone env \<and> \<not> at_timedOut env \<and> res_Success (fst (at_copy env)) \<and> snd (at_copy env) = None
    \<and> verifyTaskFileFingerprint (at_sha256 env) (at_statAfter env) t fileRecord = None
    \<and> (\<exists>marked. snd (FinishSuccess (at_fltEnd env) (at_dbNow env) (task_ID t) owner (task_FileRecordID t)
         (case fileRecord of Some f \<Rightarrow> if task_FileFingerprint t = '''' then fr_Fingerprint f else task_FileFingerprint t
            | None \<Rightarrow> task_FileFingerprint t)
         (task_RemoteName t) (task_RemotePath t) (at_finished env)
         (go_div (at_finished env - at_started env) second) s) = Inr (True, marked))"
proof -
  obtain res err where c: "at_copy env = (res, err)" by fastforce
  define cancel where "cancel = (case IsCancellationRequested (at_fltCheck env) (task_ID t) s of Inl _ \<Rightarrow> False | Inr c \<Rightarrow> c)"
  define verdict where "verdict = verifyTaskFileFingerprint (at_sha256 env) (at_statAfter env) t fileRecord"
  have no: "OnStatus j TaskStatusSuccess m \<notin> set (snd (finishFailure env q owner t e s))"
    "OnStatus j TaskStatusSuccess m \<notin> set (snd (finishCanceled env owner (task_ID t) e s))" for e
    by (rule finishFailure_out, rule finishCanceled_out)
  note a = assms[unfolded settle_def Let_def c prod.case cancel_def[symmetric] verdict_def[symmetric]]
  have 1: "\<not> cancel"
  proof
    assume cancel
    then have "OnStatus j TaskStatusSuccess m \<in> set (snd (finishCanceled env owner (task_ID t) ''task canceled by user'' s))"
      using a by simp
    then show False using no(2) by blast
  qed
  have 2: "\<not> at_parentDone env" using a 1 by (auto split: if_splits)
  have 3: "\<not> lost" using a 1 2 by (auto split: if_splits)
  have 4: "\<not> at_timedOut env \<and> err = None \<and> res_Success res" using a 1 2 3 no by (auto split: if_splits)
  have 5: "verdict = None" using a 1 2 3 4 no by (auto split: option.splits)
  have "OnStatus j TaskStatusSuccess m \<in> set (snd (finishSuccess env owner t fileRecord s))"
    using a 1 2 3 4 5 by simp
  then have 6: "\<exists>marked. snd (FinishSuccess (at_fltEnd env) (at_dbNow env) (task_ID t) owner (task_FileRecordID t)
         (case fileRecord of Some f \<Rightarrow> if task_FileFingerprint t = '''' then fr_Fingerprint f else task_FileFingerprint t
            | None \<Rightarrow> task_FileFingerprint t)
         (task_RemoteName t) (task_RemotePath t) (at_finished env)
         (go_div (at_finished env - at_started env) second) s) = Inr (True, marked)"
    by (auto simp: finishSuccess_def Let_def split: prod.splits sum.splits if_splits)
  from 2 3 4 5 6 show ?thesis by (simp add: c verdict_def)
qed

lemma finish_not_lost:
  "Observed LeaseLost \<notin> set (snd (finishSuccess env owner t f s))"
  "Observed LeaseLost \<notin> set (snd (finishFailure env q owner t e s))"
  "Observed LeaseLost \<notin> set (snd (finishCanceled env owner i e s))"
  by (auto simp: finishSuccess_def finishFailure_def finishCanceled_def Let_def split: prod.splits sum.splits)

lemma settle_not_lost:
  "OnStatus j TaskStatusSuccess m \<in> set (snd (settle env q owner t f lost s))
   \<Longrightarrow> Observed LeaseLost \<notin> set (snd (settle env q owner t f lost s))"
  by (auto simp: settle_def Let_def finish_not_lost split: prod.splits if_splits option.splits)

lemma during_run_keeps: "set (ru_out r0) \<subseteq> set (ru_out (during_run cfg owner i bs r0))"
proof (induction bs arbitrary: r0)
  case (Cons b bs)
  have "set (ru_out r0) \<subseteq> set (ru_out (during_step cfg owner i b r0))"
    by (cases b) (auto simp: report_progress_def Let_def split: sum.splits prod.splits)
  with Cons[of "during_step cfg owner i b r0"] show ?case by (auto simp: during_run_def)
qed (simp add: during_run_def)

text \<open>
  C4: a worker reports a success only after rclone copied, without an error, a timeout, a shutdown or
  a lost lease, from a file that the resource policy admits to a path that it admits; and, for a task
  bound to a version of its file, only if the file had that version both before rclone started and
  after it ended.
\<close>
theorem success_means_uploaded:
  assumes "processClaimed env q owner t fileRecord s = (s', out)"
    and "OnStatus j TaskStatusSuccess m \<in> set out"
  shows "\<exists>l rp. CopyStarted l (task_RemoteName t) rp \<in> set out \<and>
    res_Success (fst (at_copy env)) \<and> snd (at_copy env) = None \<and> \<not> at_timedOut env \<and> \<not> at_parentDone env \<and>
    Observed LeaseLost \<notin> set out \<and>
    (\<forall>pol. qc_ResourcePolicy (q_cfg q) = Some pol \<longrightarrow>
       (\<exists>f. fileRecord = Some f \<and> ValidateLocalFile (at_os env) (Some pol) (fr_LocalPath f) = Inr l) \<and>
       ValidateRemote (Some pol) (task_RemoteName t) (task_RemotePath t) = Inr rp) \<and>
    (task_FileFingerprint t \<noteq> '''' \<longrightarrow>
       (\<forall>stat \<in> {at_statBefore env, at_statAfter env}.
          \<exists>sz mt. stat l = Inr (sz, mt) \<and> fileMetadataFingerprint (at_sha256 env) sz mt = task_FileFingerprint t))"
proof -
  have no: "OnStatus j TaskStatusSuccess m \<notin> set (snd (finishFailure env q owner t e s))"
    "OnStatus j TaskStatusSuccess m \<notin> set (snd (finishCanceled env owner (task_ID t) e s))" for e
    by (rule finishFailure_out, rule finishCanceled_out)
  have "\<exists>t' f'. admit env (q_cfg q) t fileRecord = Admitted t' f'"
  proof (cases "admit env (q_cfg q) t fileRecord")
    case (AdmitFailure e)
    then have "out = WorkerStarted # snd (finishFailure env q owner t e s) @ [WorkerReleased]"
      using assms(1) by (simp add: processClaimed_def split: prod.splits)
    then show ?thesis using no(1)[of e] assms(2) by simp
  next
    case AdmitSuperseded
    then have "out = WorkerStarted # snd (finishCanceled env owner (task_ID t) ''file version was superseded before upload'' s) @ [WorkerReleased]"
      using assms(1) by (simp add: processClaimed_def split: prod.splits)
    then show ?thesis using no(2)[of "''file version was superseded before upload''"] assms(2) by simp
  qed simp
  then obtain t' f' where ad: "admit env (q_cfg q) t fileRecord = Admitted t' f'" by blast
  from admit_Admitted[OF ad] obtain f l rp where f: "fileRecord = Some f" "f' = Some (f\<lparr>fr_LocalPath := l\<rparr>)"
    "t' = t\<lparr>task_RemotePath := rp\<rparr>"
    and pol: "\<And>pol. qc_ResourcePolicy (q_cfg q) = Some pol \<Longrightarrow>
       ValidateLocalFile (at_os env) (Some pol) (fr_LocalPath f) = Inr l
       \<and> ValidateRemote (Some pol) (task_RemoteName t) (task_RemotePath t) = Inr rp"
    and before: "task_FileFingerprint t \<noteq> '''' \<Longrightarrow> \<exists>sz mt. at_statBefore env l = Inr (sz, mt)
       \<and> fileMetadataFingerprint (at_sha256 env) sz mt = task_FileFingerprint t" by blast
  define r0 where "r0 = \<lparr>ru_db = s, ru_heartbeat = start_heartbeat env (q_cfg q) t', ru_lastProgressAt = zero_time,
      ru_out = [CopyStarted l (task_RemoteName t') (task_RemotePath t')]\<rparr>"
  define r where "r = during_run (q_cfg q) owner (task_ID t') (at_during env) r0"
  define st where "st = settle env q owner t' f' (hb_leaseLost (ru_heartbeat r)) (ru_db r)"
  have out: "out = WorkerStarted # (ru_out r @ snd st) @ [WorkerReleased]"
    using assms(1) f(2) by (auto simp: processClaimed_def ad r_def r0_def st_def Let_def case_prod_beta)
  have start: "CopyStarted l (task_RemoteName t) rp \<in> set (ru_out r)"
    using during_run_keeps[of r0] by (force simp: r_def r0_def f(3))
  have r_out: "set (ru_out r) \<subseteq> {CopyStarted l (task_RemoteName t) rp} \<union> range (OnProgress (task_ID t'))"
    using during_out[of "q_cfg q" owner "task_ID t'" "at_during env" r0] by (simp add: r_def r0_def f(3))
  then have settled: "OnStatus j TaskStatusSuccess m \<in> set (snd (settle env q owner t' f' (hb_leaseLost (ru_heartbeat r)) (ru_db r)))"
    using assms(2) out by (auto simp: st_def)
  note ss = settle_success[OF settled]
  have lost: "Observed LeaseLost \<notin> set out"
    using settle_not_lost[OF settled] r_out out by (auto simp: st_def)
  have after: "task_FileFingerprint t \<noteq> '''' \<Longrightarrow> \<exists>sz mt. at_statAfter env l = Inr (sz, mt)
       \<and> fileMetadataFingerprint (at_sha256 env) sz mt = task_FileFingerprint t"
    using ss by (auto simp: verifyTaskFileFingerprint_def f split: sum.splits if_splits)
  have "CopyStarted l (task_RemoteName t) rp \<in> set out" using start out by simp
  with ss lost pol before after f(1) show ?thesis
    by (intro exI[of _ l] exI[of _ rp]) auto
qed

definition unowned :: "nat \<Rightarrow> string \<Rightarrow> db \<Rightarrow> bool" where
  "unowned i owner s \<longleftrightarrow> (\<forall>x \<in> set (tasks s). \<not> owned i owner x)"

lemma unowned_cong: "tasks s = tasks s' \<Longrightarrow> unowned i owner s = unowned i owner s'"
  by (simp add: unowned_def)

lemma unowned_update:
  assumes "\<And>x. x \<in> set (tasks s) \<Longrightarrow> p x \<Longrightarrow> \<not> owned i owner (u x)" "\<And>x. x \<in> set (tasks s) \<Longrightarrow> owned i owner x \<Longrightarrow> p x"
  shows "unowned i owner (update_tasks p u s)"
  using assms by (auto simp: unowned_def update_tasks_def update_where_def)

lemma unaffected_none:
  assumes "tasks_affected p u s = 0" "\<And>x. p x \<Longrightarrow> task_Status (u x) \<noteq> task_Status x"
  shows "\<forall>x \<in> set (tasks s). \<not> p x"
  using assms by (fastforce simp: tasks_affected_def rows_affected_def filter_empty_conv)

lemma FinishCanceled_unowned: "unowned i owner (fst (FinishCanceled no_fault now i owner at msg s))"
  by (auto simp: FinishCanceled_def Let_def canceled_row_def owned_def intro!: unowned_update)

lemma FailOrRetry_unowned: "unowned i owner (fst (FailOrRetry no_fault now i owner msg nr M s))"
proof (cases "first_where (owned i owner) (tasks s)")
  case None
  then have "unowned i owner s" by (auto simp: unowned_def first_where_def find_None_iff)
  with None show ?thesis by (simp add: FailOrRetry_def)
next
  case (Some t)
  have "failure_status M t \<noteq> TaskStatusRunning" by (simp add: failure_status_def)
  with Some show ?thesis
    by (auto simp: FailOrRetry_def Let_def fail_row_def owned_def intro!: unowned_update)
qed

lemma ReleaseLease_unowned:
  assumes "distinct (map task_ID (tasks s))"
  shows "unowned i owner (fst (ReleaseLease no_fault now i owner s))"
proof -
  let ?p = "\<lambda>t. owned i owner t \<and> cancel_requested t"
  let ?u = "canceled_row now now ''task canceled while worker lease was being released''"
  show ?thesis
  proof (cases "0 < tasks_affected ?p ?u s")
    case True
    then obtain x where x: "x \<in> set (tasks s)" "?p x"
      by (auto simp: tasks_affected_def rows_affected_def filter_empty_conv)
    have "?p y" if "y \<in> set (tasks s)" "owned i owner y" for y
      using assms x that by (metis distinct_map inj_onD owned_def)
    then have "unowned i owner (update_tasks ?p ?u s)"
      by (intro unowned_update) (auto simp: canceled_row_def owned_def)
    with True show ?thesis by (simp add: ReleaseLease_def Let_def)
  next
    case False
    then have none: "\<forall>x \<in> set (tasks s). \<not> ?p x"
      by (intro unaffected_none[where u = ?u]) (auto simp: canceled_row_def owned_def)
    then have "update_tasks ?p ?u s = s" by (simp add: update_tasks_def update_where_none)
    with False none show ?thesis
      by (auto simp: ReleaseLease_def Let_def release_row_def owned_def intro!: unowned_update)
  qed
qed

lemma FinishSuccess_unowned:
  assumes "\<forall>x \<in> set (tasks s). owned i owner x \<longrightarrow> \<not> cancel_requested x"
  shows "unowned i owner (fst (FinishSuccess no_fault now i owner fid fp rn rp at dur s))"
proof -
  let ?p = "\<lambda>t. owned i owner t \<and> \<not> cancel_requested t" and ?u = "succeed_row now at dur"
  show ?thesis
  proof (cases "tasks_affected ?p ?u s = 0")
    case True
    have "task_Status (?u x) \<noteq> task_Status x" if "?p x" for x
      using that by (simp add: succeed_row_def owned_def)
    with unaffected_none[OF True] assms show ?thesis
      using True by (auto simp: FinishSuccess_def Let_def unowned_def)
  next
    case False
    have "unowned i owner (update_tasks ?p ?u s)"
      using assms by (intro unowned_update) (auto simp: succeed_row_def owned_def)
    then have "unowned i owner ((update_tasks ?p ?u s)\<lparr>files := fs\<rparr>)" for fs
      by (simp add: unowned_def)
    then show ?thesis using False by (simp add: FinishSuccess_def Let_def)
  qed
qed

lemma stats_tasks [simp]:
  "tasks (fst (RecordUploadSuccess flt now w sz at s)) = tasks s"
  "tasks (fst (RecordUploadFailure flt now w at s)) = tasks s"
  by (simp_all add: RecordUploadSuccess_def RecordUploadFailure_def update_folders_def)

lemma finishCanceled_unowned:
  assumes "at_fltEnd env = no_fault"
  shows "unowned i owner (fst (finishCanceled env owner i msg s))"
proof -
  obtain s1 r where f: "FinishCanceled no_fault (at_dbNow env) i owner (at_finished env) msg s = (s1, r)" by fastforce
  then have "unowned i owner s1" using FinishCanceled_unowned[of i owner "at_dbNow env" "at_finished env" msg s] by simp
  then show ?thesis
    by (cases r) (auto simp: finishCanceled_def assms f unowned_def)
qed

lemma finishFailure_unowned:
  assumes "at_fltEnd env = no_fault"
  shows "unowned (task_ID t) owner (fst (finishFailure env q owner t e s))"
proof -
  define nr where "nr = at_finished env + retryDelay (q_cfg q) (at_Int63n env) (int (task_RetryCount t))"
  obtain s1 r where f: "FailOrRetry no_fault (at_dbNow env) (task_ID t) owner (truncate_bytes e 8192) nr (q_maxAttempts q) s = (s1, r)"
    by fastforce
  then have "unowned (task_ID t) owner s1"
    using FailOrRetry_unowned[of "task_ID t" owner "at_dbNow env" "truncate_bytes e 8192" nr "q_maxAttempts q" s] by simp
  then show ?thesis
    by (cases r) (auto simp: finishFailure_def assms nr_def[symmetric] f unowned_def Let_def)
qed

lemma finishSuccess_unowned:
  assumes "at_fltEnd env = no_fault" "\<forall>x \<in> set (tasks s). owned (task_ID t) owner x \<longrightarrow> \<not> cancel_requested x"
  shows "unowned (task_ID t) owner (fst (finishSuccess env owner t fileRecord s))"
proof -
  define fp where "fp = (case fileRecord of Some f \<Rightarrow> if task_FileFingerprint t = '''' then fr_Fingerprint f else task_FileFingerprint t
             | None \<Rightarrow> task_FileFingerprint t)"
  obtain s1 r where f: "FinishSuccess no_fault (at_dbNow env) (task_ID t) owner (task_FileRecordID t) fp
       (task_RemoteName t) (task_RemotePath t) (at_finished env) (go_div (at_finished env - at_started env) second) s = (s1, r)"
    by fastforce
  have u: "unowned (task_ID t) owner s1"
    using FinishSuccess_unowned[OF assms(2)] f by (metis fst_conv)
  show ?thesis
    using u by (cases r) (auto simp: finishSuccess_def assms(1) fp_def[symmetric] f unowned_def Let_def split: if_splits)
qed

lemma settle_unowned:
  assumes "at_fltEnd env = no_fault" "at_fltCheck env = no_fault" "task_inv M s"
  shows "Observed LeaseLost \<in> set (snd (settle env q owner t f lost s)) \<or>
    unowned (task_ID t) owner (fst (settle env q owner t f lost s))"
proof -
  have dist: "distinct (map task_ID (tasks s))" using assms(3) by (simp add: task_inv_def keys_fresh_def)
  define cancel where "cancel = (case IsCancellationRequested no_fault (task_ID t) s of Inl _ \<Rightarrow> False | Inr c \<Rightarrow> c)"
  have nc: "\<forall>x \<in> set (tasks s). owned (task_ID t) owner x \<longrightarrow> \<not> cancel_requested x" if "\<not> cancel"
  proof (intro ballI impI)
    fix x assume x: "x \<in> set (tasks s)" "owned (task_ID t) owner x"
    then have "task_by (task_ID t) s = Some x" using task_by_in[OF dist x(1)] by (simp add: owned_def)
    with that show "\<not> cancel_requested x"
      by (simp add: cancel_def IsCancellationRequested_def cancel_requested_def)
  qed
  obtain res err where c: "at_copy env = (res, err)" by fastforce
  note ends = finishCanceled_unowned[OF assms(1)] finishFailure_unowned[OF assms(1)]
  show ?thesis
  proof (cases "cancel \<or> at_parentDone env \<or> lost")
    case True
    then show ?thesis
      using ends(1)[of "task_ID t"] ReleaseLease_unowned[OF dist]
      by (auto simp: settle_def c assms(2) cancel_def[symmetric] assms(1) Let_def)
  next
    case False
    with finishSuccess_unowned[OF assms(1) nc] ends show ?thesis
      by (auto simp: settle_def c assms(2) cancel_def[symmetric] Let_def split: option.splits)
  qed
qed

lemma during_inv:
  assumes "\<And>f s. Elsewhere f \<in> set bs \<Longrightarrow> task_inv M s \<Longrightarrow> task_inv M (f s)" "task_inv M (ru_db r)"
  shows "task_inv M (ru_db (during_run cfg owner i bs r))"
  using assms
proof (induction bs arbitrary: r)
  case (Cons b bs)
  have "task_inv M (ru_db (during_step cfg owner i b r))"
  proof (cases b)
    case (HeartbeatTick flt started at now)
    obtain s' res where rn: "RenewLease flt at i owner (qc_LeaseDuration cfg) (ru_db r) = (s', res)" by fastforce
    with task_step_inv[OF Cons.prems(2), of flt "OpRenew i owner (qc_LeaseDuration cfg)" at] have "task_inv M s'" by simp
    with Cons.prems(2) rn show ?thesis
      by (cases res) (auto simp: HeartbeatTick tick_def Let_def)
  next
    case (ProgressLine flt fltLog now at p)
    obtain s1 res where up: "UpdateProgress flt at i owner (pr_Percent p) (pr_Speed p) now (ru_db r) = (s1, res)" by fastforce
    with task_step_inv[OF Cons.prems(2), of flt "OpProgress i owner (pr_Percent p) (pr_Speed p) now" at]
    have "task_inv M s1" by simp
    moreover have "task_inv M (fst (Create_log f n l s1)) = task_inv M s1" for f n l
      by (auto intro!: task_inv_cong simp: Create_log_def)
    ultimately show ?thesis using Cons.prems(2) up
      by (cases res) (auto simp: ProgressLine report_progress_def Let_def)
  qed (use Cons.prems in auto)
  with Cons show ?case by (simp add: during_run_def)
qed (simp add: during_run_def)

text \<open>
  C5: however an attempt goes - refused before it starts, superseded, cancelled, shut down, failed or
  successful - when it ends and the calls that end it reach the database, the task is no longer running
  under this worker; the only exception is a worker that has lost its lease, which leaves the task to
  whoever gets it.  No task is left behind in the running state by a worker that is still alive.
\<close>
theorem attempt_settles:
  assumes "processClaimed env q owner t fileRecord s = (s', out)"
    and "at_fltEnd env = no_fault" "at_fltCheck env = no_fault" "task_inv M s"
    and "\<And>f s. Elsewhere f \<in> set (at_during env) \<Longrightarrow> task_inv M s \<Longrightarrow> task_inv M (f s)"
  shows "Observed LeaseLost \<in> set out \<or> (\<forall>x \<in> set (tasks s'). \<not> owned (task_ID t) owner x)"
proof -
  have "Observed LeaseLost \<in> set out \<or> unowned (task_ID t) owner s'"
  proof (cases "admit env (q_cfg q) t fileRecord")
    case (AdmitFailure e)
    then show ?thesis
      using assms(1) finishFailure_unowned[OF assms(2), of t owner q e s]
      by (auto simp: processClaimed_def Let_def case_prod_beta)
  next
    case AdmitSuperseded
    then show ?thesis
      using assms(1) finishCanceled_unowned[OF assms(2), of "task_ID t" owner "''file version was superseded before upload''" s]
      by (auto simp: processClaimed_def Let_def case_prod_beta)
  next
    case (Admitted t' f')
    then have id: "task_ID t' = task_ID t" by (auto elim!: admit_Admitted)
    define r where "r = during_run (q_cfg q) owner (task_ID t') (at_during env)
        \<lparr>ru_db = s, ru_heartbeat = start_heartbeat env (q_cfg q) t', ru_lastProgressAt = zero_time,
         ru_out = [CopyStarted (case f' of None \<Rightarrow> '''' | Some f \<Rightarrow> fr_LocalPath f) (task_RemoteName t') (task_RemotePath t')]\<rparr>"
    have "task_inv M (ru_db r)" unfolding r_def by (rule during_inv) (use assms(4,5) in auto)
    from settle_unowned[OF assms(2,3) this, of q owner t' f' "hb_leaseLost (ru_heartbeat r)"]
    show ?thesis
      using assms(1) Admitted by (auto simp: processClaimed_def r_def Let_def case_prod_beta id)
  qed
  then show ?thesis by (simp add: unowned_def)
qed

definition sample_record :: file_record where
  "sample_record = sample_file 1 ''f''"

definition demo_db :: db where
  "demo_db = (queue_db [uploading_task])\<lparr>files := [sample_record]\<rparr>"

lemma demo_db_inv: "task_inv 3 demo_db"
  using demo_inv(1) by (rule task_inv_cong[THEN iffD1, rotated 2]) (simp_all add: demo_db_def)

lemmas demo_simps = demo_db_def demo_env_def sample_record_def sample_file_def uploading_task_def claim_row_def
  samples processClaimed_def admit_def validateClaimedTask_def validated_paths_def fileMetadataFingerprint_def
  during_run_def start_heartbeat_def settle_def IsCancellationRequested_def task_by_def first_where_def
  verifyTaskFileFingerprint_def finishSuccess_def FinishSuccess_def Create_log_def RecordUploadSuccess_def
  update_folders_def update_tasks_def update_where_def tasks_affected_def rows_affected_def owned_def
  cancel_requested_def succeed_row_def

lemma demo_run:
  "OnStatus 1 TaskStatusSuccess ''upload succeeded'' \<in> set (snd (processClaimed demo_env demo_queue ''w'' uploading_task (Some sample_record) demo_db))
   \<and> Observed LeaseLost \<notin> set (snd (processClaimed demo_env demo_queue ''w'' uploading_task (Some sample_record) demo_db))"
  by (simp add: demo_simps demo_cfg Let_def)

theorem success_means_uploaded_witness:
  "\<exists>l rp. CopyStarted l ''r'' rp
     \<in> set (snd (processClaimed demo_env demo_queue ''w'' uploading_task (Some sample_record) demo_db))"
proof -
  have "task_RemoteName uploading_task = ''r''" by (simp add: uploading_task_def claim_row_def samples)
  then show ?thesis
    using success_means_uploaded[OF prod.collapse[symmetric] conjunct1[OF demo_run]] by metis
qed

theorem attempt_settles_witness:
  "list_all (\<lambda>x. \<not> owned 1 ''w'' x)
     (tasks (fst (processClaimed demo_env demo_queue ''w'' uploading_task (Some sample_record) demo_db)))"
proof -
  have "task_ID uploading_task = 1" by (simp add: uploading_task_def claim_row_def samples)
  then show ?thesis
    using attempt_settles[OF prod.collapse[symmetric] _ _ demo_db_inv, of demo_env demo_queue "''w''" uploading_task "Some sample_record"]
      demo_run by (simp add: demo_env_def list_all_iff)
qed

end
