(* ===== verification/Events.thy ===== *)
theory Events
  imports Prelude "HOL-Library.Word" "HOL-Library.AList"
begin

section \<open>The event hub\<close>

text \<open>
  \<open>internal/events/hub.go\<close>: the subscribers, each a channel with room for 64 events, and the three
  operations under the hub's lock; a client's receive is an operation of its own.  A channel is the
  list of the events in it, oldest first.  The property: what waits in a channel is always a suffix of
  what was published, so slow clients lose old snapshots only.
\<close>

(* src/internal/events/hub.go 11-21 Event *)
record event =
  ev_Type :: string
  ev_TaskID :: nat
  ev_Status :: string
  ev_Percent :: int
  ev_BytesDone :: int
  ev_BytesTotal :: int
  ev_Speed :: int
  ev_Message :: string
  ev_Timestamp :: time

(* src/internal/events/hub.go 23-28 Hub *)
record hub =
  hub_subscribers :: "(64 word \<times> event list) list"
  hub_nextID :: "64 word"
  hub_maxSubscribers :: int

definition chan_capacity :: nat where "chan_capacity = 64"

(* src/internal/events/hub.go 30-35 NewHub *)
definition NewHub :: "int \<Rightarrow> hub" where
  "NewHub maxSubscribers =
     \<lparr>hub_subscribers = [], hub_nextID = 0,
      hub_maxSubscribers = (if maxSubscribers \<le> 0 then 100 else maxSubscribers)\<rparr>"

text \<open>\<open>ErrSubscriberLimit\<close>, or the identity of the new channel; the counter wraps like a \<open>uint64\<close>.\<close>
(* src/internal/events/hub.go 37-57 Hub.Subscribe *)
definition Subscribe :: "hub \<Rightarrow> (unit + 64 word) \<times> hub" where
  "Subscribe h =
     (if int (length (hub_subscribers h)) \<ge> hub_maxSubscribers h then (Inl (), h)
      else let i = hub_nextID h + 1
           in (Inr i, h\<lparr>hub_nextID := i, hub_subscribers := AList.update i [] (hub_subscribers h)\<rparr>))"

text \<open>The closure \<open>Subscribe\<close> returns; \<open>done\<close> is the state of its \<open>sync.Once\<close>.\<close>
(* src/internal/events/hub.go 48-55 Hub.Subscribe *)
definition cancel_subscription :: "bool \<Rightarrow> 64 word \<Rightarrow> hub \<Rightarrow> bool \<times> hub" where
  "cancel_subscription done i h =
     (True, if done then h else h\<lparr>hub_subscribers := AList.delete i (hub_subscribers h)\<rparr>)"

text \<open>Sending to one channel: if it is full, drop its oldest event and try again.\<close>
definition offer :: "event \<Rightarrow> event list \<Rightarrow> event list" where
  "offer e ch =
     (if length ch < chan_capacity then ch @ [e]
      else let ch' = drop 1 ch in if length ch' < chan_capacity then ch' @ [e] else ch')"

definition stamp :: "time \<Rightarrow> event \<Rightarrow> event" where
  "stamp now e = (if ev_Timestamp e = zero_time then e\<lparr>ev_Timestamp := now\<rparr> else e)"

(* src/internal/events/hub.go 59-80 Hub.Publish *)
definition Publish :: "time \<Rightarrow> event \<Rightarrow> hub \<Rightarrow> hub" where
  "Publish now e h =
     h\<lparr>hub_subscribers := map (\<lambda>(i, ch). (i, offer (stamp now e) ch)) (hub_subscribers h)\<rparr>"

text \<open>A client receives the oldest event of its channel.\<close>
definition receive :: "64 word \<Rightarrow> hub \<Rightarrow> event option \<times> hub" where
  "receive i h =
     (case map_of (hub_subscribers h) i of
        Some (e # ch) \<Rightarrow> (Some e, h\<lparr>hub_subscribers := AList.update i ch (hub_subscribers h)\<rparr>)
      | _ \<Rightarrow> (None, h))"

subsection \<open>Runs\<close>

datatype hub_op =
    HSubscribe
  | HCancel bool "64 word"
  | HPublish time event
  | HReceive "64 word"

fun hub_exec :: "hub_op \<Rightarrow> hub \<Rightarrow> hub" where
  "hub_exec HSubscribe h = snd (Subscribe h)"
| "hub_exec (HCancel d i) h = snd (cancel_subscription d i h)"
| "hub_exec (HPublish now e) h = Publish now e h"
| "hub_exec (HReceive i) h = snd (receive i h)"

fun published :: "hub_op list \<Rightarrow> event list" where
  "published [] = []"
| "published (HPublish now e # ops) = stamp now e # published ops"
| "published (_ # ops) = published ops"

lemma published_append: "published (xs @ ys) = published xs @ published ys"
  by (induction xs rule: published.induct) auto

definition hub_inv :: "event list \<Rightarrow> hub \<Rightarrow> bool" where
  "hub_inv sent h \<longleftrightarrow> distinct (map fst (hub_subscribers h)) \<and>
     int (length (hub_subscribers h)) \<le> hub_maxSubscribers h \<and>
     (\<forall>i ch. map_of (hub_subscribers h) i = Some ch \<longrightarrow> length ch \<le> chan_capacity \<and> suffix ch sent)"

declare map_of_eq_Some_iff [simp del] Some_eq_map_of_iff [simp del]

lemma hub_invD:
  "hub_inv sent h \<Longrightarrow> map_of (hub_subscribers h) i = Some ch \<Longrightarrow> length ch \<le> chan_capacity \<and> suffix ch sent"
  by (simp add: hub_inv_def)

lemma length_AList_update_new: "length (AList.update k v xs) \<le> Suc (length xs)"
  by (induction xs) auto

lemma length_AList_update_old:
  "map_of xs k = Some u \<Longrightarrow> length (AList.update k v xs) = length xs"
  by (induction xs) (auto split: if_splits)

lemma length_AList_delete: "length (AList.delete k xs) \<le> length xs"
  by (simp add: AList.delete_eq)

lemma offer_suffix:
  assumes "length ch \<le> chan_capacity" "suffix ch sent"
  shows "length (offer e ch) \<le> chan_capacity \<and> suffix (offer e ch) (sent @ [e]) \<and>
    offer e ch \<noteq> [] \<and> last (offer e ch) = e"
proof -
  have d: "suffix (drop 1 ch) sent" using assms(2) suffix_drop suffix_order.trans by blast
  have "chan_capacity > 0" by (simp add: chan_capacity_def)
  with assms d show ?thesis
    by (auto simp: offer_def Let_def)
qed

lemma map_of_map_values: "map_of (map (\<lambda>(i, ch). (i, f ch)) xs) i = map_option f (map_of xs i)"
  by (induction xs) auto

lemma Subscribe_inv: "hub_inv sent h \<Longrightarrow> hub_inv sent (snd (Subscribe h))"
  using length_AList_update_new[of "hub_nextID h + 1" "[]" "hub_subscribers h"]
  by (auto simp: hub_inv_def Subscribe_def Let_def update_conv distinct_update split: if_splits)

lemma cancel_inv: "hub_inv sent h \<Longrightarrow> hub_inv sent (snd (cancel_subscription d i h))"
  using length_AList_delete[of i "hub_subscribers h"]
  by (auto simp: hub_inv_def cancel_subscription_def delete_conv distinct_delete split: if_splits)

lemma Publish_inv:
  assumes "hub_inv sent h"
  shows "hub_inv (sent @ [stamp now e]) (Publish now e h)"
  unfolding hub_inv_def
proof (intro conjI allI impI)
  show "distinct (map fst (hub_subscribers (Publish now e h)))"
    "int (length (hub_subscribers (Publish now e h))) \<le> hub_maxSubscribers (Publish now e h)"
    using assms by (simp_all add: hub_inv_def Publish_def split_def comp_def)
  fix i ch
  assume "map_of (hub_subscribers (Publish now e h)) i = Some ch"
  then obtain ch' where "map_of (hub_subscribers h) i = Some ch'" "ch = offer (stamp now e) ch'"
    by (auto simp: Publish_def map_of_map_values)
  with hub_invD[OF assms] offer_suffix[of ch' sent "stamp now e"]
  show "length ch \<le> chan_capacity" "suffix ch (sent @ [stamp now e])" by blast+
qed

lemma receive_inv: "hub_inv sent h \<Longrightarrow> hub_inv sent (snd (receive i h))"
  by (auto simp: hub_inv_def receive_def update_conv distinct_update length_AList_update_old
      split: option.splits list.splits) (fastforce dest: suffix_ConsD)+

lemma hub_exec_inv: "hub_inv sent h \<Longrightarrow> hub_inv (sent @ published [a]) (hub_exec a h)"
  using Subscribe_inv cancel_inv Publish_inv receive_inv by (cases a) auto

lemma hub_max_exec: "hub_maxSubscribers (hub_exec a h) = hub_maxSubscribers h"
  by (cases a) (auto simp: Subscribe_def Let_def cancel_subscription_def Publish_def receive_def
      split: option.splits list.splits)

lemma hub_run_inv: "hub_inv sent h \<Longrightarrow> hub_inv (sent @ published ops) (fold hub_exec ops h)"
proof (induction ops arbitrary: sent h)
  case (Cons a ops)
  then show ?case
    using Cons.IH[OF hub_exec_inv[OF Cons.prems, of a]] published_append[of "[a]" ops] by simp
qed simp

lemma hub_max_run: "hub_maxSubscribers (fold hub_exec ops h) = hub_maxSubscribers h"
  by (induction ops arbitrary: h) (auto simp: hub_max_exec)

lemma NewHub_inv: "hub_inv [] (NewHub n)"
  by (simp add: hub_inv_def NewHub_def)


definition sample_event :: event where
  "sample_event = \<lparr>ev_Type = ''task'', ev_TaskID = 1, ev_Status = '''', ev_Percent = 0, ev_BytesDone = 0,
     ev_BytesTotal = 0, ev_Speed = 0, ev_Message = '''', ev_Timestamp = 5\<rparr>"


end
