(* ===== verification/Walk.thy ===== *)
theory Walk
  imports GoPath
begin

section \<open>Walking a directory tree\<close>

text \<open>
  \<open>filepath.WalkDir\<close> of the standard library, as the scanner uses it: a directory tree whose listings
  are in lexical order and may fail, and the walk that calls a visitor for every entry, which may skip
  a directory or stop.  The interface \<open>tree_visitor\<close> says what a visitor must keep, and its lemma that
  the whole walk keeps it.
\<close>

text \<open>
  An entry: a non-directory with the result of its \<open>Info\<close> (regular or not, size, modification time),
  or a directory with the error of its listing, if any, and the entries listed.
\<close>
datatype entry =
    FileEntry string "(string, bool \<times> int \<times> time) result"
  | DirEntry string "string option" "entry list"

fun entry_name :: "entry \<Rightarrow> string" where
  "entry_name (FileEntry n _) = n"
| "entry_name (DirEntry n _ _) = n"

fun entry_is_dir :: "entry \<Rightarrow> bool" where
  "entry_is_dir (FileEntry _ _) = False"
| "entry_is_dir (DirEntry _ _ _) = True"

datatype 'e verdict = Go_on | Skip_dir | Stop 'e

fun walkDir ::
    "(string \<Rightarrow> entry option \<Rightarrow> string option \<Rightarrow> 'a \<Rightarrow> 'a \<times> 'e verdict) \<Rightarrow> string \<Rightarrow> entry \<Rightarrow> 'a \<Rightarrow> 'a \<times> 'e verdict"
and walkEntries ::
    "(string \<Rightarrow> entry option \<Rightarrow> string option \<Rightarrow> 'a \<Rightarrow> 'a \<times> 'e verdict) \<Rightarrow> string \<Rightarrow> entry list \<Rightarrow> 'a \<Rightarrow> 'a \<times> 'e verdict" where
  "walkDir visit path (FileEntry n i) acc = visit path (Some (FileEntry n i)) None acc"
| "walkDir visit path (DirEntry n err es) acc =
     (case visit path (Some (DirEntry n err es)) None acc of
        (acc1, Skip_dir) \<Rightarrow> (acc1, Go_on)
      | (acc1, Stop e) \<Rightarrow> (acc1, Stop e)
      | (acc1, Go_on) \<Rightarrow>
          (case err of
             None \<Rightarrow> walkEntries visit path es acc1
           | Some problem \<Rightarrow>
               (case visit path (Some (DirEntry n err es)) (Some problem) acc1 of
                  (acc2, Skip_dir) \<Rightarrow> (acc2, Go_on)
                | (acc2, Stop e) \<Rightarrow> (acc2, Stop e)
                | (acc2, Go_on) \<Rightarrow> walkEntries visit path es acc2)))"
| "walkEntries visit path [] acc = (acc, Go_on)"
| "walkEntries visit path (e # es) acc =
     (case walkDir visit (path_Join [path, entry_name e]) e acc of
        (acc1, Go_on) \<Rightarrow> walkEntries visit path es acc1
      | (acc1, Skip_dir) \<Rightarrow> (acc1, Go_on)
      | (acc1, Stop x) \<Rightarrow> (acc1, Stop x))"

text \<open>The root's \<open>Lstat\<close> may fail; a skip of the root itself is no error.\<close>
definition WalkDir ::
    "(string \<Rightarrow> entry option \<Rightarrow> string option \<Rightarrow> 'a \<Rightarrow> 'a \<times> 'e verdict) \<Rightarrow> string \<Rightarrow> (string, entry) result \<Rightarrow> 'a \<Rightarrow> 'a \<times> 'e option" where
  "WalkDir visit root lstat acc =
     (case (case lstat of Inl e \<Rightarrow> visit root None (Some e) acc | Inr entry \<Rightarrow> walkDir visit root entry acc) of
        (acc', Stop e) \<Rightarrow> (acc', Some e)
      | (acc', _) \<Rightarrow> (acc', None))"

text \<open>The entries of a tree with their paths.\<close>
fun tree_entries :: "string \<Rightarrow> entry \<Rightarrow> (string \<times> entry) list"
and list_entries :: "string \<Rightarrow> entry list \<Rightarrow> (string \<times> entry) list" where
  "tree_entries path (FileEntry n i) = [(path, FileEntry n i)]"
| "tree_entries path (DirEntry n err es) = (path, DirEntry n err es) # list_entries path es"
| "list_entries path [] = []"
| "list_entries path (e # es) = tree_entries (path_Join [path, entry_name e]) e @ list_entries path es"

text \<open>What the visitor is asked about.\<close>
definition visits :: "string \<Rightarrow> (string, entry) result \<Rightarrow> (string \<times> entry option) set" where
  "visits root lstat =
     (case lstat of Inl _ \<Rightarrow> {(root, None)} | Inr e \<Rightarrow> (\<lambda>(p, x). (p, Some x)) ` set (tree_entries root e))"

locale tree_visitor =
  fixes visit :: "string \<Rightarrow> entry option \<Rightarrow> string option \<Rightarrow> 'a \<Rightarrow> 'a \<times> 'e verdict"
    and inv :: "'a \<Rightarrow> bool"
    and asked :: "string \<Rightarrow> entry option \<Rightarrow> bool"
  assumes keeps: "inv acc \<Longrightarrow> asked path entry \<Longrightarrow> inv (fst (visit path entry problem acc))"
begin

lemma walkDir_keeps:
  "inv acc \<Longrightarrow> \<forall>(p, x) \<in> set (tree_entries path e). asked p (Some x) \<Longrightarrow> inv (fst (walkDir visit path e acc))"
  "inv acc \<Longrightarrow> \<forall>(p, x) \<in> set (list_entries path es). asked p (Some x) \<Longrightarrow> inv (fst (walkEntries visit path es acc))"
proof (induction path e and path es arbitrary: acc and acc rule: tree_entries_list_entries.induct)
  case (2 path n err es)
  have 1: "inv (fst (visit path (Some (DirEntry n err es)) problem acc'))" if "inv acc'" for acc' problem
    using keeps[OF that] "2.prems"(2) by simp
  obtain acc1 v1 where v1: "visit path (Some (DirEntry n err es)) None acc = (acc1, v1)" by fastforce
  with 1[OF "2.prems"(1), of None] have i1: "inv acc1" by simp
  have rest: "inv (fst (walkEntries visit path es acc'))" if "inv acc'" for acc'
    using "2.IH"[OF that] "2.prems"(2) by simp
  obtain acc2 v2 where v2: "visit path (Some (DirEntry n err es)) err acc1 = (acc2, v2)" by fastforce
  with 1[OF i1, of err] have i2: "inv acc2" by simp
  show ?case
    using v1 v2 i1 i2 rest[OF i1] rest[OF i2] by (cases err) (auto split: verdict.splits)
next
  case (4 path e es)
  obtain acc1 v1 where v1: "walkDir visit (path_Join [path, entry_name e]) e acc = (acc1, v1)" by fastforce
  with "4.IH"(1)[OF "4.prems"(1)] "4.prems"(2) have i1: "inv acc1" by auto
  with "4.IH"(2)[OF i1] "4.prems"(2) v1 show ?case by (auto split: verdict.splits)
qed (use keeps in auto)

lemma WalkDir_keeps:
  assumes "inv acc" "\<forall>(p, x) \<in> visits root lstat. asked p x"
  shows "inv (fst (WalkDir visit root lstat acc))"
proof (cases lstat)
  case (Inl e)
  obtain acc' v where "visit root None (Some e) acc = (acc', v)" by fastforce
  with keeps[OF assms(1), of root None "Some e"] assms(2) Inl show ?thesis
    by (auto simp: WalkDir_def visits_def split: verdict.splits)
next
  case (Inr e)
  obtain acc' v where w: "walkDir visit root e acc = (acc', v)" by fastforce
  have "\<forall>(p, x) \<in> set (tree_entries root e). asked p (Some x)" using assms(2) Inr by (auto simp: visits_def)
  from walkDir_keeps(1)[OF assms(1) this] w Inr show ?thesis
    by (auto simp: WalkDir_def split: verdict.splits)
qed

end

end
