(* ===== verification/WatchScanner.thy ===== *)
theory WatchScanner
  imports Walk WatchRepo FileRepo LogRepo ResourcePolicy
begin

section \<open>The watch-folder scanner\<close>

text \<open>
  \<open>internal/scheduler/watch_folder_scanner.go\<close>: the filters and helpers, the visit of one file (its
  snapshot, the decision to upload it), the scan of a folder with everything it writes, and the life of
  one claimed scan.  The surroundings (clock, contexts, faults, file system, SHA-256) are a record.
  The map of snapshots by path is a function; each path is visited once, so the records the code
  shares by pointer are values here.
\<close>

subsection \<open>Filters and helpers\<close>

(* src/internal/scheduler/watch_folder_scanner.go 24-37 parseFilterKeywords *)
definition parseFilterKeywords :: "string \<Rightarrow> string list" where
  "parseFilterKeywords raw =
     (if raw = '''' then []
      else filter (\<lambda>k. k \<noteq> '''') (map TrimSpace (Split (ReplaceCRLF raw) (byte 10))))"

(* src/internal/scheduler/watch_folder_scanner.go 39-47 matchFilterKeywords *)
definition matchFilterKeywords :: "string \<Rightarrow> string list \<Rightarrow> bool" where
  "matchFilterKeywords path keywords =
     list_ex (\<lambda>k. Contains path k \<or> Contains (path_Base path) k) keywords"

(* src/internal/scheduler/watch_folder_scanner.go 695-698 metadataFingerprint *)
definition metadataFingerprint :: "(string \<Rightarrow> string) \<Rightarrow> int \<Rightarrow> time \<Rightarrow> string" where
  "metadataFingerprint sha sz modTime = sha (show_int sz @ byte0 # show_int modTime)"

(* src/internal/scheduler/watch_folder_scanner.go 700-715 fileVersionStable *)
definition fileVersionStable :: "time \<Rightarrow> time \<Rightarrow> time option \<Rightarrow> dur \<Rightarrow> bool" where
  "fileVersionStable now modTime observedAt period =
     (if period \<le> 0 then True
      else if modTime > now then
        (case observedAt of None \<Rightarrow> False | Some seen \<Rightarrow> now - seen \<ge> period)
      else now - modTime \<ge> period)"

(* src/internal/scheduler/watch_folder_scanner.go 717-721 taskIdempotencyKey *)
definition taskIdempotencyKey :: "(string \<Rightarrow> string) \<Rightarrow> nat \<Rightarrow> string \<Rightarrow> string \<Rightarrow> string \<Rightarrow> string \<Rightarrow> string" where
  "taskIdempotencyKey sha watchFolderID localPath fingerprint remoteName remotePath =
     sha (show_nat watchFolderID @ byte0 # path_Clean localPath @ byte0 # fingerprint
          @ byte0 # remoteName @ byte0 # remotePath)"

(* src/internal/scheduler/watch_folder_scanner.go 723-730 joinRemotePath *)
definition joinRemotePath :: "string \<Rightarrow> string \<Rightarrow> string" where
  "joinRemotePath prefix0 relative0 =
     (let pre = TrimSuffix prefix0 ''/''; relative = TrimPrefix relative0 ''/''
      in if pre = '''' then relative else pre @ ''/'' @ relative)"

(* src/internal/scheduler/watch_folder_scanner.go 732-738 relativeDepth *)
definition relativeDepth :: "string \<Rightarrow> nat" where
  "relativeDepth relativePath =
     (let clean = path_Clean relativePath
      in if clean = ''.'' \<or> clean = '''' then 0 else length (Split clean slash))"

(* src/internal/scheduler/watch_folder_scanner.go 740-748 pathWithinAny *)
definition pathWithinAny :: "string \<Rightarrow> string list \<Rightarrow> bool" where
  "pathWithinAny candidate roots = list_ex (\<lambda>root. rel_inside (path_Rel root candidate)) roots"

subsection \<open>Configuration\<close>

(* src/internal/scheduler/watch_folder_scanner.go 96-109 WatchFolderScannerConfig *)
record scanner_config =
  wc_PollInterval :: dur
  wc_DefaultInterval :: dur
  wc_FolderTimeout :: dur
  wc_FileStablePeriod :: dur
  wc_MaxConcurrent :: int
  wc_BatchSize :: int
  wc_InstanceID :: string
  wc_LeaseDuration :: dur
  wc_Heartbeat :: dur
  wc_ResourcePolicy :: "resource_policy option"

(* src/internal/scheduler/watch_folder_scanner.go 121-163 NewWatchFolderScanner *)
definition NewWatchFolderScanner :: "string \<Rightarrow> scanner_config \<Rightarrow> scanner_config" where
  "NewWatchFolderScanner generatedID c =
     (let lease = (if wc_LeaseDuration c \<le> 0 then 90 * second else wc_LeaseDuration c)
      in c\<lparr>wc_PollInterval := (if wc_PollInterval c \<le> 0 then 30 * second else wc_PollInterval c),
           wc_DefaultInterval := (if wc_DefaultInterval c \<le> 0 then 5 * minute else wc_DefaultInterval c),
           wc_FolderTimeout := (if wc_FolderTimeout c \<le> 0 then 30 * minute else wc_FolderTimeout c),
           wc_FileStablePeriod := (if wc_FileStablePeriod c < 0 then 0 else wc_FileStablePeriod c),
           wc_MaxConcurrent := (if wc_MaxConcurrent c \<le> 0 then 2 else wc_MaxConcurrent c),
           wc_BatchSize := (if wc_BatchSize c \<le> 0 then 500 else wc_BatchSize c),
           wc_InstanceID := (if wc_InstanceID c = '''' then generatedID else wc_InstanceID c),
           wc_LeaseDuration := lease,
           wc_Heartbeat := (if wc_Heartbeat c \<le> 0 \<or> wrap64 (wc_Heartbeat c * 2) \<ge> lease
                            then go_div lease 3 else wc_Heartbeat c)\<rparr>)"

(* src/internal/scheduler/watch_folder_scanner.go 688-693 watchFolderScanner.intervalFor *)
definition intervalFor :: "scanner_config \<Rightarrow> watch_folder \<Rightarrow> dur" where
  "intervalFor cfg w =
     (if wf_ScanIntervalSeconds w > 0 then wrap64 (wf_ScanIntervalSeconds w * second) else wc_DefaultInterval cfg)"

subsection \<open>The state of a scan\<close>

(* src/internal/scheduler/watch_folder_scanner.go 397-405 folderScanStats *)
record folder_stats =
  fs_FilesSeen :: int
  fs_TotalBytes :: int
  fs_FilesUnchanged :: int
  fs_FilesStableSkipped :: int
  fs_FilesMissing :: int
  fs_TasksCreated :: int
  fs_ScanErrors :: int

definition no_stats :: folder_stats where
  "no_stats = \<lparr>fs_FilesSeen = 0, fs_TotalBytes = 0, fs_FilesUnchanged = 0, fs_FilesStableSkipped = 0,
     fs_FilesMissing = 0, fs_TasksCreated = 0, fs_ScanErrors = 0\<rparr>"

datatype ctx_err = Canceled | DeadlineExceeded

datatype problem =
    WalkProblem string string
  | RelProblem string
  | InfoProblem string string
  | PipelineProblem string pipeline_error
  | RemotePathTooLong string
  | SnapshotIDUnavailable string

datatype walk_stop = WalkCtx ctx_err | WalkRoot string

datatype scan_error =
    LocalPathEmpty
  | ResolveLocalPath
  | PolicyRefused policy_error
  | StatLocalPath
  | LocalNotDirectory
  | PipelineInvalid pipeline_error
  | LoadSnapshots repo_error
  | LoadOpenTasks repo_error
  | ContextEnded ctx_err
  | UpdateFailed repo_error
  | MarkMissingFailed repo_error
  | CreateFailed repo_error
  | ReloadFailed repo_error
  | TasksFailed repo_error
  | CompletedWithErrors int problem
  | CompletedWithWalkError int string
  | ScanLeaseProblem

text \<open>The variables that the visitor closes over.\<close>
record scan_acc =
  sa_stats :: folder_stats
  sa_firstProblem :: "problem option"
  sa_recordByPath :: "string \<Rightarrow> file_record option"
  sa_newSnapshots :: "file_record list"
  sa_changedSnapshots :: "file_record list"
  sa_clearUploadedIDs :: "nat list"
  sa_taskCandidates :: "upload_task list"
  sa_seenPaths :: "string list"
  sa_excludedPrefixes :: "string list"
  sa_activeKeys :: "string list"
  sa_ctxChecks :: nat

text \<open>
  The surroundings: the clock when a path is visited and later, the answers of the context's
  successive checks, the regular-expression engine, SHA-256 in hexadecimal, the file system, what
  others do to the database during the walk, and the faults of the calls in their order.
\<close>
record 'p scan_env =
  se_clock :: "string \<Rightarrow> time"
  se_now :: time
  se_ctx :: "nat \<Rightarrow> ctx_err option"
  se_rx :: "'p regex_engine"
  se_sha256 :: "string \<Rightarrow> string"
  se_os :: os
  se_lstat :: "string \<Rightarrow> (string, entry) result"
  se_meanwhile :: "db \<Rightarrow> db"
  se_fltLoad :: fault
  se_fltOpen :: fault
  se_fltUpdate :: fault
  se_fltMissing :: fault
  se_fltCreate :: fault
  se_fltReload :: fault
  se_fltTasks :: fault

(* src/internal/scheduler/watch_folder_scanner.go 471-476 watchFolderScanner.scanFolder *)
definition recordProblem :: "problem \<Rightarrow> scan_acc \<Rightarrow> scan_acc" where
  "recordProblem p a =
     a\<lparr>sa_stats := (sa_stats a)\<lparr>fs_ScanErrors := fs_ScanErrors (sa_stats a) + 1\<rparr>,
       sa_firstProblem := (case sa_firstProblem a of None \<Rightarrow> Some p | Some q \<Rightarrow> Some q)\<rparr>"

definition count_unchanged :: "int \<Rightarrow> scan_acc \<Rightarrow> scan_acc" where
  "count_unchanged n a = a\<lparr>sa_stats := (sa_stats a)\<lparr>fs_FilesUnchanged := fs_FilesUnchanged (sa_stats a) + n\<rparr>\<rparr>"

subsection \<open>One file\<close>

text \<open>The zero values of the structs the scanner builds.\<close>
definition blank_record :: "string \<Rightarrow> file_record" where
  "blank_record localPath = \<lparr>fr_ID = 0, fr_WatchFolderID = 0, fr_LocalPath = localPath, fr_RelativePath = '''',
     fr_RemoteName = '''', fr_RemotePath = '''', fr_FileSize = 0, fr_FileModTime = zero_time, fr_Fingerprint = '''',
     fr_FileHash = '''', fr_LastSeenAt = None, fr_MissingAt = None, fr_UploadedAt = None,
     fr_CreatedAt = zero_time, fr_UpdatedAt = zero_time\<rparr>"

definition upload_candidate :: "watch_folder \<Rightarrow> nat \<Rightarrow> string \<Rightarrow> string \<Rightarrow> int \<Rightarrow> string \<Rightarrow> string \<Rightarrow> upload_task" where
  "upload_candidate w recordID localPath remotePath sz fingerprint key =
     \<lparr>task_ID = 0, task_FileRecordID = recordID, task_WatchFolderID = wf_ID w,
      task_WatchFolderName = wf_Name w, task_FileName = path_Base localPath, task_LocalPath = localPath,
      task_RemoteName = wf_RemoteName w, task_RemotePath = remotePath, task_Status = TaskStatusPending,
      task_Progress = 0, task_Speed = 0, task_RetryCount = 0, task_Priority = 0, task_ErrorMsg = '''',
      task_DurationSeconds = 0, task_StartedAt = None, task_FinishedAt = None, task_LastStatusAt = None,
      task_LastProgressAt = None, task_NextRetryAt = None, task_LeaseOwner = '''', task_LeaseExpiresAt = None,
      task_HeartbeatAt = None, task_CancelRequestedAt = None, task_CanceledAt = None, task_FileSize = sz,
      task_FileFingerprint = fingerprint, task_IdempotencyKey = Some key, task_AccumulatedFailures = 0,
      task_CreatedAt = zero_time, task_UpdatedAt = zero_time\<rparr>"

text \<open>The snapshot of a visited file: the record as it now is in memory, and what has to be written.\<close>
(* src/internal/scheduler/watch_folder_scanner.go 543-581 watchFolderScanner.scanFolder *)
definition observe_file ::
    "watch_folder \<Rightarrow> time \<Rightarrow> string \<Rightarrow> string \<Rightarrow> string \<Rightarrow> string \<Rightarrow> int \<Rightarrow> time \<Rightarrow> scan_acc \<Rightarrow> scan_acc \<times> file_record" where
  "observe_file w now localPath relativeSlash remotePath fingerprint sz modTime a =
     (let found = sa_recordByPath a localPath;
          exists = found \<noteq> None;
          fr = (case found of Some f \<Rightarrow> f | None \<Rightarrow> blank_record localPath);
          previousFingerprint = (if exists then fr_Fingerprint fr else '''');
          versionChanged = (exists \<and> previousFingerprint \<noteq> '''' \<and> previousFingerprint \<noteq> fingerprint);
          targetChanged = (exists \<and> (fr_WatchFolderID fr \<noteq> wf_ID w \<or> fr_RemoteName fr \<noteq> wf_RemoteName w
                             \<or> fr_RemotePath fr \<noteq> remotePath));
          legacySnapshot = (exists \<and> previousFingerprint = '''');
          needsSnapshotWrite = (\<not> exists \<or> previousFingerprint \<noteq> fingerprint \<or> targetChanged
             \<or> fr_RelativePath fr \<noteq> relativeSlash \<or> fr_MissingAt fr \<noteq> None);
          clearUploaded = (\<not> legacySnapshot \<and> (versionChanged \<or> targetChanged));
          fr' = fr\<lparr>fr_WatchFolderID := wf_ID w, fr_RelativePath := relativeSlash,
                  fr_RemoteName := wf_RemoteName w, fr_RemotePath := remotePath, fr_FileSize := sz,
                  fr_FileModTime := modTime, fr_Fingerprint := fingerprint, fr_LastSeenAt := Some now,
                  fr_UploadedAt := (if clearUploaded then None else fr_UploadedAt fr)\<rparr>
      in if \<not> needsSnapshotWrite then (a, fr)
         else if \<not> exists then
           (a\<lparr>sa_newSnapshots := sa_newSnapshots a @ [fr'],
              sa_recordByPath := (sa_recordByPath a)(localPath := Some fr')\<rparr>, fr')
         else
           (a\<lparr>sa_changedSnapshots := sa_changedSnapshots a @ [fr'],
              sa_recordByPath := (sa_recordByPath a)(localPath := Some fr'),
              sa_clearUploadedIDs := (if clearUploaded then sa_clearUploadedIDs a @ [fr_ID fr']
                                      else sa_clearUploadedIDs a)\<rparr>, fr'))"

(* src/internal/scheduler/watch_folder_scanner.go 583-617 watchFolderScanner.scanFolder *)
definition decide_upload ::
    "dur \<Rightarrow> (string \<Rightarrow> string) \<Rightarrow> string list \<Rightarrow> watch_folder \<Rightarrow> time \<Rightarrow> string \<Rightarrow> string \<Rightarrow> string \<Rightarrow> int \<Rightarrow> time \<Rightarrow>
       file_record \<Rightarrow> scan_acc \<Rightarrow> scan_acc" where
  "decide_upload period sha legacyActivePaths w now localPath remotePath fingerprint sz modTime fr a =
     (if \<not> fileVersionStable now modTime (fr_LastSeenAt fr) period then
        a\<lparr>sa_stats := (sa_stats a)\<lparr>fs_FilesStableSkipped := fs_FilesStableSkipped (sa_stats a) + 1\<rparr>\<rparr>
      else if fr_UploadedAt fr \<noteq> None then count_unchanged 1 a
      else let key = taskIdempotencyKey sha (wf_ID w) localPath fingerprint (wf_RemoteName w) remotePath in
        if key \<in> set (sa_activeKeys a) then count_unchanged 1 a
        else if localPath \<in> set legacyActivePaths then count_unchanged 1 a
        else a\<lparr>sa_taskCandidates := sa_taskCandidates a @
                 [upload_candidate w (fr_ID fr) localPath remotePath sz fingerprint key],
               sa_activeKeys := key # sa_activeKeys a\<rparr>)"

(* src/internal/scheduler/watch_folder_scanner.go 523-617 watchFolderScanner.scanFolder *)
definition visit_file ::
    "'p scan_env \<Rightarrow> dur \<Rightarrow> 'p regexExtractStep list \<Rightarrow> string list \<Rightarrow> string \<Rightarrow> watch_folder \<Rightarrow>
       string \<Rightarrow> string \<Rightarrow> string \<Rightarrow> int \<Rightarrow> time \<Rightarrow> scan_acc \<Rightarrow> scan_acc" where
  "visit_file env period pipeline legacyActivePaths remotePrefix w path relativeSlash name sz modTime a =
     (let localPath = path_Clean path;
          a1 = a\<lparr>sa_stats := (sa_stats a)\<lparr>fs_FilesSeen := fs_FilesSeen (sa_stats a) + 1,
                   fs_TotalBytes := fs_TotalBytes (sa_stats a) + sz\<rparr>,
                 sa_seenPaths := localPath # sa_seenPaths a\<rparr>;
          fingerprint = metadataFingerprint (se_sha256 env) sz modTime
      in case Resolve (se_rx env) pipeline name of
           Inl e \<Rightarrow> recordProblem (PipelineProblem localPath e) a1
         | Inr matched \<Rightarrow>
             let remoteRelativePath = (case matched of None \<Rightarrow> relativeSlash
                                         | Some directory \<Rightarrow> joinRemotePath directory relativeSlash);
                 remotePath = joinRemotePath remotePrefix remoteRelativePath
             in if length remotePath > 768 then recordProblem (RemotePathTooLong localPath) a1
                else let now = se_clock env path;
                         (a2, fr) = observe_file w now localPath relativeSlash remotePath fingerprint sz modTime a1
                     in decide_upload period (se_sha256 env) legacyActivePaths w now localPath remotePath
                          fingerprint sz modTime fr a2)"

text \<open>The visitor of the walk.\<close>
(* src/internal/scheduler/watch_folder_scanner.go 478-618 watchFolderScanner.scanFolder *)
definition scan_visit ::
    "'p scan_env \<Rightarrow> dur \<Rightarrow> 'p regexExtractStep list \<Rightarrow> string list \<Rightarrow> string list \<Rightarrow> string \<Rightarrow> watch_folder \<Rightarrow> string \<Rightarrow>
       string \<Rightarrow> entry option \<Rightarrow> string option \<Rightarrow> scan_acc \<Rightarrow> scan_acc \<times> walk_stop verdict" where
  "scan_visit env period pipeline legacyActivePaths keywords remotePrefix w root path entry walkProblem a0 =
     (let a = a0\<lparr>sa_ctxChecks := sa_ctxChecks a0 + 1\<rparr> in
      case se_ctx env (sa_ctxChecks a0) of
        Some e \<Rightarrow> (a, Stop (WalkCtx e))
      | None \<Rightarrow>
        (case (walkProblem, entry) of
           (Some e, _) \<Rightarrow>
             (recordProblem (WalkProblem path e) a,
              if path = root then Stop (WalkRoot e)
              else if (case entry of Some x \<Rightarrow> entry_is_dir x | None \<Rightarrow> False) then Skip_dir else Go_on)
         | (None, None) \<Rightarrow> (a, Go_on)
         | (None, Some x) \<Rightarrow>
           (case path_Rel root path of
              Inl _ \<Rightarrow> (recordProblem (RelProblem path) a, Go_on)
            | Inr relativePath \<Rightarrow>
              if relativePath \<noteq> ''.'' \<and> matchFilterKeywords relativePath keywords then
                (if entry_is_dir x then
                   (a\<lparr>sa_excludedPrefixes := sa_excludedPrefixes a @ [path_Clean path]\<rparr>, Skip_dir)
                 else (a\<lparr>sa_seenPaths := path_Clean path # sa_seenPaths a\<rparr>, Go_on))
              else (case x of
                DirEntry _ _ _ \<Rightarrow>
                  if wf_MaxDepth w > 0 \<and> relativePath \<noteq> ''.'' \<and> int (relativeDepth relativePath) > wf_MaxDepth w
                  then (a\<lparr>sa_excludedPrefixes := sa_excludedPrefixes a @ [path_Clean path]\<rparr>, Skip_dir)
                  else (a, Go_on)
              | FileEntry _ (Inl e) \<Rightarrow> (recordProblem (InfoProblem path e) a, Go_on)
              | FileEntry name (Inr (regular, sz, modTime)) \<Rightarrow>
                  if \<not> regular then (a, Go_on)
                  else (visit_file env period pipeline legacyActivePaths remotePrefix w path relativePath
                          name sz modTime a, Go_on)))))"

subsection \<open>One folder\<close>

text \<open>The tasks that are under way: their keys, or the paths of those that predate the keys.\<close>
definition active_of :: "upload_task list \<Rightarrow> string list \<times> string list" where
  "active_of openTasks =
     (List.map_filter (\<lambda>t. case task_IdempotencyKey t of Some k \<Rightarrow> if k \<noteq> '''' then Some k else None | None \<Rightarrow> None) openTasks,
      List.map_filter (\<lambda>t. if (case task_IdempotencyKey t of Some k \<Rightarrow> k \<noteq> '''' | None \<Rightarrow> False) then None
                     else if task_LocalPath t \<noteq> '''' then Some (path_Clean (task_LocalPath t)) else None) openTasks)"

definition records_by_path :: "file_record list \<Rightarrow> string \<Rightarrow> file_record option" where
  "records_by_path fs p = map_of (rev (map (\<lambda>f. (path_Clean (fr_LocalPath f), f)) fs)) p"

definition initial_acc :: "file_record list \<Rightarrow> string list \<Rightarrow> scan_acc" where
  "initial_acc records keys =
     \<lparr>sa_stats = no_stats, sa_firstProblem = None, sa_recordByPath = records_by_path records,
      sa_newSnapshots = [], sa_changedSnapshots = [], sa_clearUploadedIDs = [], sa_taskCandidates = [],
      sa_seenPaths = [], sa_excludedPrefixes = [], sa_activeKeys = keys, sa_ctxChecks = 0\<rparr>"

text \<open>What is checked before anything is read: the root and the remote path to scan for.\<close>
(* src/internal/scheduler/watch_folder_scanner.go 409-437 watchFolderScanner.scanFolder *)
definition prepare_scan ::
    "'p scan_env \<Rightarrow> scanner_config \<Rightarrow> watch_folder \<Rightarrow> (scan_error, string \<times> watch_folder \<times> 'p regexExtractStep list) result" where
  "prepare_scan env cfg w =
     (if TrimSpace (wf_LocalPath w) = '''' then Inl LocalPathEmpty
      else case filepath_Abs (se_os env) (path_Clean (wf_LocalPath w)) of
        None \<Rightarrow> Inl ResolveLocalPath
      | Some root0 \<Rightarrow>
          bind_res
            (case wc_ResourcePolicy cfg of
               None \<Rightarrow> Inr (root0, w)
             | Some pol \<Rightarrow>
                 (case ValidateLocalDirectory (se_os env) (Some pol) root0 of
                    Inl e \<Rightarrow> Inl (PolicyRefused e)
                  | Inr root \<Rightarrow>
                      (case ValidateRemote (Some pol) (wf_RemoteName w) (wf_RemotePath w) of
                         Inl e \<Rightarrow> Inl (PolicyRefused e)
                       | Inr remotePath \<Rightarrow> Inr (root, w\<lparr>wf_RemotePath := remotePath\<rparr>))))
            (\<lambda>(root, w').
               case os_Stat (se_os env) root of
                 None \<Rightarrow> Inl StatLocalPath
               | Some kind \<Rightarrow>
                   if kind \<noteq> Directory then Inl LocalNotDirectory
                   else (case Compile_pipeline (se_rx env) (wf_PathPipeline w') of
                           Inl e \<Rightarrow> Inl (PipelineInvalid e)
                         | Inr steps \<Rightarrow> Inr (root, w', steps))))"

text \<open>The walk itself, over the snapshots and open tasks that were loaded.\<close>
(* src/internal/scheduler/watch_folder_scanner.go 447-478 watchFolderScanner.scanFolder *)
definition run_walk ::
    "'p scan_env \<Rightarrow> scanner_config \<Rightarrow> string \<Rightarrow> watch_folder \<Rightarrow> 'p regexExtractStep list \<Rightarrow>
       file_record list \<Rightarrow> upload_task list \<Rightarrow> scan_acc \<times> walk_stop option" where
  "run_walk env cfg root w steps records openTasks =
     (let (keys, legacy) = active_of openTasks
      in WalkDir (scan_visit env (wc_FileStablePeriod cfg) steps legacy (parseFilterKeywords (wf_FilterKeywords w))
             (TrimSuffix (wf_RemotePath w) ''/'') w root)
           root (se_lstat env root) (initial_acc records keys))"

text \<open>The snapshots to mark as missing: loaded, not seen, not marked yet and not below a skipped directory.\<close>
(* src/internal/scheduler/watch_folder_scanner.go 626-633 watchFolderScanner.scanFolder *)
definition missing_ids :: "file_record list \<Rightarrow> scan_acc \<Rightarrow> nat list" where
  "missing_ids records a =
     map fr_ID (filter (\<lambda>f. let p = path_Clean (fr_LocalPath f) in
         \<not> (p \<in> set (sa_seenPaths a) \<or> fr_MissingAt f \<noteq> None \<or> pathWithinAny p (sa_excludedPrefixes a))) records)"

text \<open>The candidates get the keys of their persisted snapshots; one without is a problem and dropped.\<close>
fun bind_records :: "(string \<Rightarrow> file_record option) \<Rightarrow> upload_task list \<Rightarrow> scan_acc \<Rightarrow> scan_acc \<times> upload_task list" where
  "bind_records byPath [] a = (a, [])"
| "bind_records byPath (t # ts) a =
     (case byPath (path_Clean (task_LocalPath t)) of
        Some f \<Rightarrow>
          if fr_ID f \<noteq> 0 then
            (let (a', ts') = bind_records byPath ts a in (a', t\<lparr>task_FileRecordID := fr_ID f\<rparr> # ts'))
          else
            (let (a', ts') = bind_records byPath ts (recordProblem (SnapshotIDUnavailable (task_LocalPath t)) a)
             in (a', if task_FileRecordID t \<noteq> 0 then t # ts' else ts'))
      | None \<Rightarrow>
          (let (a', ts') = bind_records byPath ts (recordProblem (SnapshotIDUnavailable (task_LocalPath t)) a)
           in (a', if task_FileRecordID t \<noteq> 0 then t # ts' else ts')))"

definition set_missing :: "int \<Rightarrow> folder_stats \<Rightarrow> folder_stats" where
  "set_missing n st = st\<lparr>fs_FilesMissing := n\<rparr>"

text \<open>How a scan that got through reports what went wrong on the way.\<close>
(* src/internal/scheduler/watch_folder_scanner.go 674-686 watchFolderScanner.scanFolder *)
definition scan_verdict :: "folder_stats \<Rightarrow> problem option \<Rightarrow> walk_stop option \<Rightarrow> scan_error option" where
  "scan_verdict st firstProblem walkErr =
     (case walkErr of
        Some (WalkCtx e) \<Rightarrow> Some (ContextEnded e)
      | Some (WalkRoot e) \<Rightarrow>
          (case firstProblem of
             Some p \<Rightarrow> Some (CompletedWithErrors (fs_ScanErrors st) p)
           | None \<Rightarrow> Some (CompletedWithWalkError (fs_ScanErrors st) e))
      | None \<Rightarrow>
          (case firstProblem of
             Some p \<Rightarrow> Some (CompletedWithErrors (fs_ScanErrors st) p) | None \<Rightarrow> None))"

text \<open>
  The snapshots are written, in the order of the code: changed ones, then missing ones (after a walk
  without any problem), then new ones, and reloaded.  A failed call ends the scan with the counts so
  far; otherwise the counts go on, with the map of the persisted snapshots.
\<close>
(* src/internal/scheduler/watch_folder_scanner.go 622-651 watchFolderScanner.scanFolder *)
definition write_snapshots ::
    "'p scan_env \<Rightarrow> scanner_config \<Rightarrow> nat \<Rightarrow> string \<Rightarrow> file_record list \<Rightarrow> bool \<Rightarrow> scan_acc \<Rightarrow> db \<Rightarrow>
       db \<times> (folder_stats \<times> scan_error, scan_acc \<times> (string \<Rightarrow> file_record option)) result" where
  "write_snapshots env cfg folderID root records complete a s =
     (case UpdateSnapshots (se_fltUpdate env) (se_now env) (sa_changedSnapshots a) (sa_clearUploadedIDs a) (wc_BatchSize cfg) s of
        (s1, Inl e) \<Rightarrow> (s1, Inl (sa_stats a, UpdateFailed e))
      | (s1, Inr _) \<Rightarrow>
        (case (if complete then MarkMissing (se_fltMissing env) (se_now env) (missing_ids records a) (se_now env) (wc_BatchSize cfg) s1
               else (s1, Inr ())) of
           (s2, Inl e) \<Rightarrow> (s2, Inl (sa_stats a, MarkMissingFailed e))
         | (s2, Inr _) \<Rightarrow>
           let a2 = (if complete then a\<lparr>sa_stats := set_missing (int (length (missing_ids records a))) (sa_stats a)\<rparr> else a) in
           (case CreateSnapshots (se_fltCreate env) (se_now env) (sa_newSnapshots a) (wc_BatchSize cfg) s2 of
              (s3, Inl e) \<Rightarrow> (s3, Inl (sa_stats a2, CreateFailed e))
            | (s3, Inr inserted) \<Rightarrow>
              (case (if sa_newSnapshots a = [] then Inr [] else ListForWatchFolder (se_fltReload env) folderID root s3) of
                 Inl e \<Rightarrow> (s3, Inl (sa_stats a2, ReloadFailed e))
               | Inr persisted \<Rightarrow>
                   (s3, Inr (a2, \<lambda>p. case records_by_path persisted p of Some f \<Rightarrow> Some f
                                       | None \<Rightarrow> (case records_by_path inserted p of Some f \<Rightarrow> Some f
                                                  | None \<Rightarrow> sa_recordByPath a p)))))))"

text \<open>The candidates with a persisted snapshot become tasks, unless their key exists already.\<close>
(* src/internal/scheduler/watch_folder_scanner.go 652-686 watchFolderScanner.scanFolder *)
definition write_tasks ::
    "'p scan_env \<Rightarrow> scanner_config \<Rightarrow> walk_stop option \<Rightarrow> (string \<Rightarrow> file_record option) \<Rightarrow> scan_acc \<Rightarrow> db \<Rightarrow>
       db \<times> folder_stats \<times> scan_error option" where
  "write_tasks env cfg walkErr byPath a s =
     (let (a3, validTasks) = bind_records byPath (sa_taskCandidates a) a
      in if validTasks = [] then (s, sa_stats a3, scan_verdict (sa_stats a3) (sa_firstProblem a3) walkErr)
         else (case CreateManyIfAbsent (se_fltTasks env) (se_now env) validTasks (wc_BatchSize cfg) s of
                 (s4, Inl e) \<Rightarrow> (s4, sa_stats a3, Some (TasksFailed e))
               | (s4, Inr n) \<Rightarrow>
                   let st = (sa_stats a3)\<lparr>fs_TasksCreated := fs_TasksCreated (sa_stats a3) + int n,
                              fs_FilesUnchanged := fs_FilesUnchanged (sa_stats a3) + int (length validTasks) - int n\<rparr>
                   in (s4, st, scan_verdict st (sa_firstProblem a3) walkErr)))"

(* src/internal/scheduler/watch_folder_scanner.go 622-686 watchFolderScanner.scanFolder *)
definition store_scan ::
    "'p scan_env \<Rightarrow> scanner_config \<Rightarrow> watch_folder \<Rightarrow> string \<Rightarrow> file_record list \<Rightarrow> scan_acc \<Rightarrow> walk_stop option \<Rightarrow>
       db \<Rightarrow> db \<times> folder_stats \<times> scan_error option" where
  "store_scan env cfg w root records a walkErr s =
     (case write_snapshots env cfg (wf_ID w) root records (walkErr = None \<and> sa_firstProblem a = None) a s of
        (s1, Inl (st, e)) \<Rightarrow> (s1, st, Some e)
      | (s1, Inr (a2, byPath)) \<Rightarrow> write_tasks env cfg walkErr byPath a2 s1)"

(* src/internal/scheduler/watch_folder_scanner.go 407-686 watchFolderScanner.scanFolder *)
definition scanFolder ::
    "'p scan_env \<Rightarrow> scanner_config \<Rightarrow> watch_folder \<Rightarrow> db \<Rightarrow> db \<times> folder_stats \<times> scan_error option" where
  "scanFolder env cfg w0 s =
     (case prepare_scan env cfg w0 of
        Inl e \<Rightarrow> (s, no_stats, Some e)
      | Inr (root, w, steps) \<Rightarrow>
        (case ListForWatchFolder (se_fltLoad env) (wf_ID w) root s of
           Inl e \<Rightarrow> (s, no_stats, Some (LoadSnapshots e))
         | Inr records \<Rightarrow>
           (case ListOpenByWatchFolder (se_fltOpen env) (wf_ID w) s of
              Inl e \<Rightarrow> (s, no_stats, Some (LoadOpenTasks e))
            | Inr openTasks \<Rightarrow>
              let (a, walkErr) = run_walk env cfg root w steps records openTasks;
                  s1 = se_meanwhile env s
              in case se_ctx env (sa_ctxChecks a) of
                   Some e \<Rightarrow> (s1, sa_stats a, Some (ContextEnded e))
                 | None \<Rightarrow> store_scan env cfg w root records a walkErr s1)))"

subsection \<open>One claimed scan\<close>

text \<open>
  The surroundings of a scan beyond those of \<open>scanFolder\<close>: when it starts and ends, the ticks of its
  heartbeat (fault and clock), whether the parent context has ended, whether a failing database call
  reported a cancelled context, the error texts, and the faults of the remaining calls.
\<close>
record 'p one_env = "'p scan_env" +
  oe_started :: time
  oe_finished :: time
  oe_beats :: "(fault \<times> time) list"
  oe_parentDone :: bool
  oe_dbCanceled :: bool
  oe_errorText :: "scan_error list \<Rightarrow> string"
  oe_fltClaim :: fault
  oe_fltRun :: fault
  oe_fltFinish :: fault
  oe_fltRunFinish :: fault

text \<open>
  The heartbeats of a scan.  They touch the folder's row only, which \<open>scanFolder\<close> does not read, so
  they are run ahead of it; what a lost lease does to the walk is an answer of its context.
\<close>
(* src/internal/scheduler/watch_folder_scanner.go 290-312 watchFolderScanner.scanOneFolder *)
fun scan_heartbeats :: "scanner_config \<Rightarrow> nat \<Rightarrow> (fault \<times> time) list \<Rightarrow> db \<Rightarrow> db \<times> bool" where
  "scan_heartbeats cfg i [] s = (s, False)"
| "scan_heartbeats cfg i ((flt, now) # bs) s =
     (case RenewScanLease flt now i (wc_InstanceID cfg) (wc_LeaseDuration cfg) s of
        (s', Inr True) \<Rightarrow> scan_heartbeats cfg i bs s'
      | (s', _) \<Rightarrow> (s', True))"

text \<open>\<open>errors.Is(scanErr, context.Canceled)\<close>.\<close>
fun is_canceled :: "bool \<Rightarrow> scan_error \<Rightarrow> bool" where
  "is_canceled dbCanceled (ContextEnded e) = (e = Canceled)"
| "is_canceled dbCanceled (LoadSnapshots _) = dbCanceled"
| "is_canceled dbCanceled (LoadOpenTasks _) = dbCanceled"
| "is_canceled dbCanceled (UpdateFailed _) = dbCanceled"
| "is_canceled dbCanceled (MarkMissingFailed _) = dbCanceled"
| "is_canceled dbCanceled (CreateFailed _) = dbCanceled"
| "is_canceled dbCanceled (ReloadFailed _) = dbCanceled"
| "is_canceled dbCanceled (TasksFailed _) = dbCanceled"
| "is_canceled dbCanceled _ = False"

definition milliseconds :: "dur \<Rightarrow> int" where "milliseconds d = go_div d 1000000"

text \<open>The columns, the status of the run and the message a scan ends with.\<close>
(* src/internal/scheduler/watch_folder_scanner.go 322-355 watchFolderScanner.scanOneFolder *)
definition scan_outcome ::
    "'p one_env \<Rightarrow> scanner_config \<Rightarrow> watch_folder \<Rightarrow> folder_stats \<Rightarrow> scan_error list \<Rightarrow> scan_columns \<times> run_status \<times> string" where
  "scan_outcome env cfg w st errs =
     (let duration = oe_finished env - oe_started env;
          errorMessage = (if errs = [] then '''' else truncate_bytes (oe_errorText env errs) 4096);
          canceled = (errs \<noteq> [] \<and> list_ex (is_canceled (oe_dbCanceled env)) errs \<and> oe_parentDone env);
          status = (if errs = [] \<or> canceled then WatchFolderStatusWatching else WatchFolderStatusError);
          runStatus = (if errs = [] then ScanRunStatusSuccess
                       else if canceled then ScanRunStatusCanceled else ScanRunStatusFailed)
      in (\<lparr>sc_Status = status, sc_LastError = errorMessage, sc_FinishedAt = oe_finished env,
           sc_DurationMs = milliseconds duration,
           sc_NextScanAt = (if canceled then None else Some (oe_finished env + intervalFor cfg w)),
           sc_TotalFileCount = fs_FilesSeen st, sc_TotalFileSize = fs_TotalBytes st,
           sc_SuccessAt = (if errs = [] then Some (oe_finished env) else None)\<rparr>, runStatus, errorMessage))"

definition new_run :: "watch_folder \<Rightarrow> time \<Rightarrow> scan_run" where
  "new_run w started = \<lparr>run_ID = 0, run_WatchFolderID = wf_ID w, run_WatchFolderName = wf_Name w,
     run_Status = ScanRunStatusRunning, run_StartedAt = started, run_FinishedAt = None,
     run_DurationMilliseconds = 0, run_FilesSeen = 0, run_TotalBytes = 0, run_FilesUnchanged = 0,
     run_FilesStableSkipped = 0, run_FilesMissing = 0, run_TasksCreated = 0, run_ScanErrors = 0,
     run_ErrorMessage = '''', run_CreatedAt = zero_time\<rparr>"

definition finished_run :: "scan_run \<Rightarrow> run_status \<Rightarrow> time \<Rightarrow> folder_stats \<Rightarrow> string \<Rightarrow> scan_run" where
  "finished_run r status finished st msg =
     r\<lparr>run_Status := status, run_FinishedAt := Some finished,
       run_DurationMilliseconds := milliseconds (finished - run_StartedAt r), run_FilesSeen := fs_FilesSeen st,
       run_TotalBytes := fs_TotalBytes st, run_FilesUnchanged := fs_FilesUnchanged st,
       run_FilesStableSkipped := fs_FilesStableSkipped st, run_FilesMissing := fs_FilesMissing st,
       run_TasksCreated := fs_TasksCreated st, run_ScanErrors := fs_ScanErrors st, run_ErrorMessage := msg\<rparr>"

datatype scan_failure =
    ClaimFailed repo_error
  | ScanFailed "scan_error list" "finish_error option" "repo_error option"

text \<open>The two writes that end a scan: the folder with its lease, and the run if it was created.\<close>
(* src/internal/scheduler/watch_folder_scanner.go 357-380 watchFolderScanner.scanOneFolder *)
definition close_scan ::
    "'p one_env \<Rightarrow> scanner_config \<Rightarrow> watch_folder \<Rightarrow> scan_run \<Rightarrow> folder_stats \<Rightarrow> scan_error list \<Rightarrow> db \<Rightarrow>
       db \<times> finish_error option \<times> repo_error option" where
  "close_scan env cfg w r st errs s =
     (let (columns, runStatus, msg) = scan_outcome env cfg w st errs;
          (s1, finish) = FinishScan (oe_fltFinish env) (oe_finished env) (wf_ID w) (wc_InstanceID cfg) columns s;
          finishErr = (case finish of Inl e \<Rightarrow> Some e | Inr _ \<Rightarrow> None)
      in if run_ID r = 0 then (s1, finishErr, None)
         else (case Finish_run (oe_fltRunFinish env) (oe_finished env)
                      (finished_run r runStatus (oe_finished env) st msg) s1 of
                 (s2, Inl e) \<Rightarrow> (s2, finishErr, Some e)
               | (s2, Inr _) \<Rightarrow> (s2, finishErr, None)))"

text \<open>A claimed scan: the database, the counts and errors, and the run.\<close>
(* src/internal/scheduler/watch_folder_scanner.go 276-321 watchFolderScanner.scanOneFolder *)
definition conduct_scan ::
    "'p one_env \<Rightarrow> scanner_config \<Rightarrow> watch_folder \<Rightarrow> db \<Rightarrow> db \<times> scan_run \<times> folder_stats \<times> scan_error list" where
  "conduct_scan env cfg w s =
     (let r0 = new_run w (oe_started env);
          (s1, created) = Create_run (oe_fltRun env) (oe_started env) r0 s;
          r = (case created of Inl _ \<Rightarrow> r0 | Inr r \<Rightarrow> r);
          (s2, leaseProblem) = scan_heartbeats cfg (wf_ID w) (oe_beats env) s1;
          (s3, st, scanErr) = scanFolder (scan_env.truncate env) cfg w s2
      in (s3, r, st, (case scanErr of None \<Rightarrow> [] | Some e \<Rightarrow> [e]) @ (if leaseProblem then [ScanLeaseProblem] else [])))"

text \<open>The number of tasks created, and the errors joined.\<close>
(* src/internal/scheduler/watch_folder_scanner.go 266-395 watchFolderScanner.scanOneFolder *)
definition scanOneFolder ::
    "'p one_env \<Rightarrow> scanner_config \<Rightarrow> watch_folder \<Rightarrow> db \<Rightarrow> db \<times> int \<times> scan_failure option" where
  "scanOneFolder env cfg w s =
     (case ClaimForScan (oe_fltClaim env) (oe_started env) (wf_ID w) (wc_InstanceID cfg) (wf_UpdatedAt w)
             (oe_started env) (wc_LeaseDuration cfg) s of
        (s1, Inl e) \<Rightarrow> (s1, 0, Some (ClaimFailed e))
      | (s1, Inr claimed) \<Rightarrow>
          if \<not> claimed then (s1, 0, None)
          else
            let (s2, r, st, errs) = conduct_scan env cfg w s1;
                (s3, finishErr, runErr) = close_scan env cfg w r st errs s2
            in (s3, fs_TasksCreated st,
                if errs = [] \<and> finishErr = None \<and> runErr = None then None
                else Some (ScanFailed errs finishErr runErr)))"

subsection \<open>A scan cycle\<close>

text \<open>
  The due folders, scanned by at most \<open>MaxConcurrent\<close> goroutines at a time; the model runs those that
  were launched (\<open>launched\<close>, all of them unless the context ended) one after the other.
\<close>
(* src/internal/scheduler/watch_folder_scanner.go 207-264 watchFolderScanner.scanDueFolders *)
definition scanDueFolders ::
    "fault \<Rightarrow> time \<Rightarrow> (watch_folder \<Rightarrow> 'p one_env) \<Rightarrow> scanner_config \<Rightarrow> nat \<Rightarrow> db \<Rightarrow>
       db \<times> (repo_error, int \<times> (nat \<times> scan_failure) list \<times> bool) result" where
  "scanDueFolders flt now envs cfg launched s =
     (case ListEnabledForScan flt now s of
        Inl e \<Rightarrow> (s, Inl e)
      | Inr due \<Rightarrow>
          let (s', created, errs) =
            fold (\<lambda>w (s, n, errs). case scanOneFolder (envs w) cfg w s of
                     (s', k, None) \<Rightarrow> (s', n + k, errs)
                   | (s', k, Some e) \<Rightarrow> (s', n + k, errs @ [(wf_ID w, e)]))
              (take launched due) (s, 0, [])
          in (s', Inr (created, errs, launched < length due)))"

text \<open>The answer of the database and whether the scanner is woken (its channel holds one token).\<close>
(* src/internal/scheduler/watch_folder_scanner.go 82-94 watchFolderScanner.ScanNow *)
definition ScanNow :: "fault \<Rightarrow> time \<Rightarrow> db \<times> bool \<Rightarrow> (db \<times> bool) \<times> (repo_error, nat) result" where
  "ScanNow flt now = (\<lambda>(s, wake).
     case ScheduleAllEnabledNow flt now s of
       (s', Inl e) \<Rightarrow> ((s', wake), Inl e)
     | (s', Inr scheduled) \<Rightarrow> ((s', True), Inr scheduled))"

end
