(* ===== verification/ScannerProps.thy ===== *)
theory ScannerProps
  imports WatchScanner
begin

section \<open>What a scan guarantees\<close>

text \<open>
  The properties of \<open>WatchScanner\<close>, from two invariants that the visitor keeps through the walk (two
  interpretations of \<open>tree_visitor\<close>): what the upload candidates are, and where the snapshots to be
  written come from.
\<close>

subsection \<open>The candidates of a walk\<close>

definition candidate_ok :: "(string \<Rightarrow> string) \<Rightarrow> watch_folder \<Rightarrow> string \<Rightarrow> upload_task \<Rightarrow> bool" where
  "candidate_ok sha w pre t \<longleftrightarrow> fresh_task t \<and> task_WatchFolderID t = wf_ID w \<and>
     task_RemoteName t = wf_RemoteName w \<and> length (task_RemotePath t) \<le> 768 \<and>
     (\<exists>rel. task_RemotePath t = joinRemotePath pre rel) \<and>
     task_IdempotencyKey t = Some (taskIdempotencyKey sha (wf_ID w) (task_LocalPath t) (task_FileFingerprint t)
       (wf_RemoteName w) (task_RemotePath t))"

definition candidates_inv :: "(string \<Rightarrow> string) \<Rightarrow> watch_folder \<Rightarrow> string \<Rightarrow> string list \<Rightarrow> scan_acc \<Rightarrow> bool" where
  "candidates_inv sha w pre openKeys a \<longleftrightarrow>
     (\<forall>t \<in> set (sa_taskCandidates a). candidate_ok sha w pre t) \<and>
     distinct (map task_IdempotencyKey (sa_taskCandidates a)) \<and>
     (\<forall>t \<in> set (sa_taskCandidates a). task_IdempotencyKey t \<in> Some ` (set (sa_activeKeys a) - set openKeys)) \<and>
     set openKeys \<subseteq> set (sa_activeKeys a)"

lemma candidates_inv_cong:
  "sa_taskCandidates a = sa_taskCandidates b \<Longrightarrow> sa_activeKeys a = sa_activeKeys b \<Longrightarrow>
     candidates_inv sha w pre ks a = candidates_inv sha w pre ks b"
  by (simp add: candidates_inv_def)

lemma recordProblem_fields [simp]:
  "sa_taskCandidates (recordProblem p a) = sa_taskCandidates a" "sa_activeKeys (recordProblem p a) = sa_activeKeys a"
  "sa_changedSnapshots (recordProblem p a) = sa_changedSnapshots a" "sa_recordByPath (recordProblem p a) = sa_recordByPath a"
  "sa_newSnapshots (recordProblem p a) = sa_newSnapshots a" "sa_seenPaths (recordProblem p a) = sa_seenPaths a"
  "sa_excludedPrefixes (recordProblem p a) = sa_excludedPrefixes a" "sa_firstProblem (recordProblem p a) \<noteq> None"
  by (simp_all add: recordProblem_def split: option.splits)

lemma observe_file_fields:
  assumes "observe_file w now lp rel rp fp sz mt a = (a', fr)"
  shows "sa_taskCandidates a' = sa_taskCandidates a" "sa_activeKeys a' = sa_activeKeys a"
  using assms by (auto simp: observe_file_def Let_def split: if_splits)

lemma decide_upload_candidates:
  assumes "candidates_inv sha w pre ks a" "length (joinRemotePath pre rel) \<le> 768"
  shows "candidates_inv sha w pre ks (decide_upload period sha legacy w now lp (joinRemotePath pre rel) fp sz mt fr a)"
proof -
  define key where "key = taskIdempotencyKey sha (wf_ID w) lp fp (wf_RemoteName w) (joinRemotePath pre rel)"
  define t where "t = upload_candidate w (fr_ID fr) lp (joinRemotePath pre rel) sz fp key"
  define a' where "a' = a\<lparr>sa_taskCandidates := sa_taskCandidates a @ [t], sa_activeKeys := key # sa_activeKeys a\<rparr>"
  have t: "candidate_ok sha w pre t" "task_IdempotencyKey t = Some key"
    using assms(2) by (auto simp: candidate_ok_def t_def upload_candidate_def fresh_task_def key_def)
  have new: "candidates_inv sha w pre ks a'" if "key \<notin> set (sa_activeKeys a)"
    using assms(1) t that by (auto simp: candidates_inv_def a'_def image_iff)
  have same: "candidates_inv sha w pre ks (a\<lparr>sa_stats := st\<rparr>)" for st
    using assms(1) by (simp add: candidates_inv_def)
  show ?thesis
    using new same unfolding decide_upload_def count_unchanged_def Let_def key_def[symmetric] t_def[symmetric] a'_def[symmetric]
    by auto
qed

lemma visit_file_candidates:
  assumes "candidates_inv (se_sha256 env) w pre ks a"
  shows "candidates_inv (se_sha256 env) w pre ks (visit_file env period pipeline legacy pre w path rel name sz mt a)"
proof -
  define a1 where "a1 = a\<lparr>sa_stats := (sa_stats a)\<lparr>fs_FilesSeen := fs_FilesSeen (sa_stats a) + 1,
                   fs_TotalBytes := fs_TotalBytes (sa_stats a) + sz\<rparr>,
                 sa_seenPaths := path_Clean path # sa_seenPaths a\<rparr>"
  have a1: "candidates_inv (se_sha256 env) w pre ks a1" using assms by (simp add: candidates_inv_def a1_def)
  have p: "candidates_inv (se_sha256 env) w pre ks (recordProblem q a1)" for q
    using a1 by (simp add: candidates_inv_def)
  show ?thesis
  proof (cases "Resolve (se_rx env) pipeline name")
    case (Inl e)
    then show ?thesis using p by (simp add: visit_file_def a1_def[symmetric])
  next
    case (Inr matched)
    define rr where "rr = (case matched of None \<Rightarrow> rel | Some d \<Rightarrow> joinRemotePath d rel)"
    show ?thesis
    proof (cases "length (joinRemotePath pre rr) > 768")
      case True
      then show ?thesis using Inr p by (simp add: visit_file_def a1_def[symmetric] rr_def[symmetric] Let_def)
    next
      case False
      obtain a2 fr where o: "observe_file w (se_clock env path) (path_Clean path) rel (joinRemotePath pre rr)
          (metadataFingerprint (se_sha256 env) sz mt) sz mt a1 = (a2, fr)" by fastforce
      have "candidates_inv (se_sha256 env) w pre ks a2"
        using a1 observe_file_fields[OF o] by (simp add: candidates_inv_def)
      from decide_upload_candidates[OF this] False Inr o
      show ?thesis by (simp add: visit_file_def a1_def[symmetric] rr_def[symmetric] Let_def)
    qed
  qed
qed

lemma scan_visit_cases:
  assumes "\<And>x. P (a\<lparr>sa_ctxChecks := x\<rparr>)" "\<And>b q. P b \<Longrightarrow> P (recordProblem q b)"
    "\<And>b x. P b \<Longrightarrow> P (b\<lparr>sa_excludedPrefixes := x\<rparr>)" "\<And>b x. P b \<Longrightarrow> P (b\<lparr>sa_seenPaths := x\<rparr>)"
    "\<And>b rel name sz mt. P b \<Longrightarrow> P (visit_file env period pipeline legacy pre w path rel name sz mt b)"
  shows "P (fst (scan_visit env period pipeline legacy kws pre w root path entry problem a))"
proof -
  define b where "b = a\<lparr>sa_ctxChecks := Suc (sa_ctxChecks a)\<rparr>"
  have b: "P b" using assms(1) by (simp add: b_def)
  show ?thesis
  proof (cases "se_ctx env (sa_ctxChecks a)")
    case (Some e)
    then show ?thesis using assms(1) by (simp add: scan_visit_def Let_def)
  next
    case None
    show ?thesis
    proof (cases problem)
      case (Some e)
      then show ?thesis using None b assms(2) by (simp add: scan_visit_def b_def[symmetric] Let_def)
    next
      case np: None
      show ?thesis
      proof (cases entry)
        case None
        then show ?thesis using np \<open>se_ctx _ _ = None\<close> b by (simp add: scan_visit_def b_def[symmetric] Let_def)
      next
        case (Some x)
        show ?thesis
        proof (cases x)
          case (FileEntry n info)
          then show ?thesis using np \<open>se_ctx _ _ = None\<close> Some b assms(2,4,5)
            by (cases info) (auto simp: scan_visit_def b_def[symmetric] Let_def split: sum.splits)
        next
          case (DirEntry n err es)
          then show ?thesis using np \<open>se_ctx _ _ = None\<close> Some b assms(2,3)
            by (auto simp: scan_visit_def b_def[symmetric] Let_def split: sum.splits)
        qed
      qed
    qed
  qed
qed

interpretation cv: tree_visitor
  "scan_visit env period pipeline legacy kws pre w root" "candidates_inv (se_sha256 env) w pre ks" "\<lambda>_ _. True"
  for env period pipeline legacy kws pre w root ks
proof (unfold_locales, rule scan_visit_cases, goal_cases)
  case (1 acc path entry problem x)
  then show ?case by (simp add: candidates_inv_def)
next
  case (5 acc path entry problem b rel name sz mt)
  then show ?case by (simp add: visit_file_candidates)
qed (simp_all add: candidates_inv_def)

lemma run_walk_candidates:
  assumes "run_walk env cfg root w steps records openTasks = (a, e)"
  shows "candidates_inv (se_sha256 env) w (TrimSuffix (wf_RemotePath w) ''/'') (fst (active_of openTasks)) a"
proof -
  obtain keys legacy where k: "active_of openTasks = (keys, legacy)" by fastforce
  have "candidates_inv (se_sha256 env) w (TrimSuffix (wf_RemotePath w) ''/'') keys (initial_acc records keys)"
    by (simp add: candidates_inv_def initial_acc_def)
  then have "candidates_inv (se_sha256 env) w (TrimSuffix (wf_RemotePath w) ''/'') keys
      (fst (WalkDir (scan_visit env (wc_FileStablePeriod cfg) steps legacy (parseFilterKeywords (wf_FilterKeywords w))
        (TrimSuffix (wf_RemotePath w) ''/'') w root) root (se_lstat env root) (initial_acc records keys)))"
    by (rule cv.WalkDir_keeps) simp
  then show ?thesis using assms k by (simp add: run_walk_def)
qed

text \<open>
  C9: every task a scan decides on is a fresh pending task for the scanned folder and remote, with a
  remote path of at most 768 bytes below the folder's remote path and the key of exactly this version
  of this file at this destination; no two of them have the same key, and none has the key of a task
  that is already under way.
\<close>
theorem scan_candidates:
  assumes "run_walk env cfg root w steps records openTasks = (a, e)"
  shows "(\<forall>t \<in> set (sa_taskCandidates a).
      fresh_task t \<and> task_WatchFolderID t = wf_ID w \<and> task_RemoteName t = wf_RemoteName w \<and>
      length (task_RemotePath t) \<le> 768 \<and>
      (TrimSuffix (TrimSuffix (wf_RemotePath w) ''/'') ''/'' \<noteq> '''' \<longrightarrow>
         prefix (TrimSuffix (TrimSuffix (wf_RemotePath w) ''/'') ''/'' @ ''/'') (task_RemotePath t)) \<and>
      task_IdempotencyKey t = Some (taskIdempotencyKey (se_sha256 env) (wf_ID w) (task_LocalPath t)
        (task_FileFingerprint t) (wf_RemoteName w) (task_RemotePath t)) \<and>
      (\<forall>u \<in> set openTasks. task_IdempotencyKey u \<noteq> Some '''' \<longrightarrow> task_IdempotencyKey u \<noteq> task_IdempotencyKey t)) \<and>
    distinct (map task_IdempotencyKey (sa_taskCandidates a))"
proof -
  note inv = run_walk_candidates[OF assms]
  have key: "u \<in> set openTasks \<Longrightarrow> task_IdempotencyKey u = Some k \<Longrightarrow> k \<noteq> '''' \<Longrightarrow> k \<in> set (fst (active_of openTasks))" for u k
    by (induction openTasks) (auto simp: active_of_def List.map_filter_simps split: option.splits)
  have below: "TrimSuffix pre ''/'' \<noteq> '''' \<Longrightarrow> prefix (TrimSuffix pre ''/'' @ ''/'') (joinRemotePath pre rel)" for pre rel
    by (simp add: joinRemotePath_def Let_def)
  show ?thesis
  proof (intro conjI ballI)
    fix t assume t: "t \<in> set (sa_taskCandidates a)"
    then have ok: "candidate_ok (se_sha256 env) w (TrimSuffix (wf_RemotePath w) ''/'') t"
      and fresh: "task_IdempotencyKey t \<in> Some ` (set (sa_activeKeys a) - set (fst (active_of openTasks)))"
      using inv by (auto simp: candidates_inv_def)
    show "fresh_task t" "task_WatchFolderID t = wf_ID w" "task_RemoteName t = wf_RemoteName w"
      "length (task_RemotePath t) \<le> 768" using ok by (auto simp: candidate_ok_def)
    show "TrimSuffix (TrimSuffix (wf_RemotePath w) ''/'') ''/'' \<noteq> '''' \<longrightarrow>
         prefix (TrimSuffix (TrimSuffix (wf_RemotePath w) ''/'') ''/'' @ ''/'') (task_RemotePath t)"
      using ok below by (auto simp: candidate_ok_def)
    show "task_IdempotencyKey t = Some (taskIdempotencyKey (se_sha256 env) (wf_ID w) (task_LocalPath t)
        (task_FileFingerprint t) (wf_RemoteName w) (task_RemotePath t))" using ok by (simp add: candidate_ok_def)
    fix u assume "u \<in> set openTasks"
    then show "task_IdempotencyKey u \<noteq> Some '''' \<longrightarrow> task_IdempotencyKey u \<noteq> task_IdempotencyKey t"
      using fresh key[of u] by (cases "task_IdempotencyKey u") auto
  qed (use inv in \<open>simp add: candidates_inv_def\<close>)
qed

subsection \<open>A scan and the task queue\<close>

lemma bind_records_fresh:
  "bind_records byPath ts a = (a', ts') \<Longrightarrow> list_all fresh_task ts \<Longrightarrow> list_all fresh_task ts'"
proof (induction ts arbitrary: a a' ts')
  case (Cons t ts)
  have "fresh_task (t\<lparr>task_FileRecordID := i\<rparr>)" for i using Cons.prems(2) by (simp add: fresh_task_def)
  with Cons show ?case by (auto split: option.splits if_splits prod.splits)
qed simp

lemma files_only:
  "tasks (fst (UpdateSnapshots flt now rs ids b s)) = tasks s \<and> next_task (fst (UpdateSnapshots flt now rs ids b s)) = next_task s"
  "tasks (fst (MarkMissing flt now ms at b s)) = tasks s \<and> next_task (fst (MarkMissing flt now ms at b s)) = next_task s"
  "tasks (fst (CreateSnapshots flt now rs b s)) = tasks s \<and> next_task (fst (CreateSnapshots flt now rs b s)) = next_task s"
proof -
  have "tasks (fst (update_file_batches flt k now ids bs s)) = tasks s \<and> next_task (fst (update_file_batches flt k now ids bs s)) = next_task s"
    for k bs s by (induction bs arbitrary: k s) (auto simp: Let_def)
  then show "tasks (fst (UpdateSnapshots flt now rs ids b s)) = tasks s \<and> next_task (fst (UpdateSnapshots flt now rs ids b s)) = next_task s"
    by (simp add: UpdateSnapshots_def)
  have "tasks (fst (mark_missing_batches flt k now at bs s)) = tasks s \<and> next_task (fst (mark_missing_batches flt k now at bs s)) = next_task s"
    for k bs s by (induction bs arbitrary: k s) auto
  then show "tasks (fst (MarkMissing flt now ms at b s)) = tasks s \<and> next_task (fst (MarkMissing flt now ms at b s)) = next_task s"
    by (simp add: MarkMissing_def)
  have one: "tasks (fst (insert_file now f s)) = tasks s \<and> next_task (fst (insert_file now f s)) = next_task s" for f s
    by (simp add: insert_file_def Let_def)
  have many: "tasks (fst (insert_files now rs s)) = tasks s \<and> next_task (fst (insert_files now rs s)) = next_task s" for rs s
    by (induction rs arbitrary: s) (simp_all add: one case_prod_beta Let_def)
  have "insert_file_batches flt k now bs s = Inr (s', fs) \<Longrightarrow> tasks s' = tasks s \<and> next_task s' = next_task s" for k bs s s' fs
  proof (induction bs arbitrary: k s fs)
    case (Cons x bs)
    obtain s1 fs1 where i: "insert_files now x s = (s1, fs1)" by fastforce
    obtain gs where "insert_file_batches flt (k + 1) now bs s1 = Inr (s', gs)"
      using Cons.prems i by (auto simp: bind_res_Inr split: if_splits)
    from Cons.IH[OF this] many[of x s] i show ?case by simp
  qed simp
  then show "tasks (fst (CreateSnapshots flt now rs b s)) = tasks s \<and> next_task (fst (CreateSnapshots flt now rs b s)) = next_task s"
    by (auto simp: CreateSnapshots_def split: sum.splits)
qed

definition queue_part :: "db \<Rightarrow> upload_task list \<times> nat" where
  "queue_part s = (tasks s, next_task s)"

lemma queue_part_inv: "queue_part s = queue_part s' \<Longrightarrow> task_inv M s = task_inv M s'"
  unfolding queue_part_def by (rule task_inv_cong) auto

lemma queue_part_folder_ops [simp]:
  "queue_part (fst (ClaimForScan flt now i o1 u st d s)) = queue_part s"
  "queue_part (fst (RenewScanLease flt now i o1 d s)) = queue_part s"
  "queue_part (fst (FinishScan flt now i o1 c s)) = queue_part s"
  "queue_part (fst (Create_run flt now r s)) = queue_part s"
  "queue_part (fst (Finish_run flt now r s)) = queue_part s"
  by (simp_all add: queue_part_def ClaimForScan_def RenewScanLease_def FinishScan_def Create_run_def Finish_run_def
      update_folders_def Let_def)

lemma queue_part_file_ops [simp]:
  "queue_part (fst (UpdateSnapshots flt now rs ids b s)) = queue_part s"
  "queue_part (fst (MarkMissing flt now ms at b s)) = queue_part s"
  "queue_part (fst (CreateSnapshots flt now rs b s)) = queue_part s"
  using files_only by (simp_all add: queue_part_def)

lemma queue_part_heartbeats: "queue_part (fst (scan_heartbeats cfg i bs s)) = queue_part s"
proof (induction bs arbitrary: s)
  case (Cons b bs)
  obtain flt now where b: "b = (flt, now)" by fastforce
  obtain s' r where r: "RenewScanLease flt now i (wc_InstanceID cfg) (wc_LeaseDuration cfg) s = (s', r)" by fastforce
  with queue_part_folder_ops(2)[of flt now i "wc_InstanceID cfg" "wc_LeaseDuration cfg" s]
  have "queue_part s' = queue_part s" by simp
  with Cons[of s'] r b show ?case by (cases r) (auto split: bool.splits)
qed simp

lemma write_snapshots_queue: "queue_part (fst (write_snapshots env cfg fid root records complete a s)) = queue_part s"
proof -
  let ?now = "se_now env" and ?b = "wc_BatchSize cfg"
  obtain s1 r1 where 1: "UpdateSnapshots (se_fltUpdate env) ?now (sa_changedSnapshots a) (sa_clearUploadedIDs a) ?b s = (s1, r1)" by fastforce
  then have q1: "queue_part s1 = queue_part s" by (metis fst_conv queue_part_file_ops(1))
  obtain s2 r2 where 2: "(if complete then MarkMissing (se_fltMissing env) ?now (missing_ids records a) ?now ?b s1 else (s1, Inr ())) = (s2, r2)" by fastforce
  then have q2: "queue_part s2 = queue_part s" using q1 by (metis fst_conv queue_part_file_ops(2))
  obtain s3 r3 where 3: "CreateSnapshots (se_fltCreate env) ?now (sa_newSnapshots a) ?b s2 = (s3, r3)" by fastforce
  then have q3: "queue_part s3 = queue_part s" using q2 by (metis fst_conv queue_part_file_ops(3))
  show ?thesis
    unfolding write_snapshots_def Let_def 1 prod.case 2 3
    using q1 q2 q3 by (auto split: sum.splits)
qed

lemma write_snapshots_candidates:
  "write_snapshots env cfg fid root records complete a s = (s', Inr (a2, byPath)) \<Longrightarrow>
     sa_taskCandidates a2 = sa_taskCandidates a"
  unfolding write_snapshots_def Let_def by (auto split: prod.splits sum.splits if_splits)

lemma write_tasks_queue:
  assumes "list_all fresh_task (sa_taskCandidates a)"
  shows "fst (write_tasks env cfg we byPath a s) = s \<or>
    (\<exists>ts. list_all fresh_task ts \<and>
       fst (write_tasks env cfg we byPath a s) = fst (CreateManyIfAbsent (se_fltTasks env) (se_now env) ts (wc_BatchSize cfg) s))"
proof -
  obtain a3 valid where v: "bind_records byPath (sa_taskCandidates a) a = (a3, valid)" by fastforce
  obtain s4 r where c: "CreateManyIfAbsent (se_fltTasks env) (se_now env) valid (wc_BatchSize cfg) s = (s4, r)" by fastforce
  have "fst (write_tasks env cfg we byPath a s) = (if valid = [] then s else s4)"
    by (cases r) (simp_all add: write_tasks_def v c Let_def)
  with bind_records_fresh[OF v assms] c show ?thesis by (metis fst_conv)
qed

lemma scanFolder_inv:
  assumes "task_inv M s" "\<And>s. task_inv M s \<Longrightarrow> task_inv M (se_meanwhile env s)"
  shows "task_inv M (fst (scanFolder env cfg w0 s))"
proof (cases "prepare_scan env cfg w0")
  case (Inr x)
  obtain root w steps where x: "x = (root, w, steps)" by (cases x) auto
  show ?thesis
  proof (cases "ListForWatchFolder (se_fltLoad env) (wf_ID w) root s")
    case records: (Inr records)
    show ?thesis
    proof (cases "ListOpenByWatchFolder (se_fltOpen env) (wf_ID w) s")
      case open1: (Inr openTasks)
      obtain a we where walk: "run_walk env cfg root w steps records openTasks = (a, we)" by fastforce
      have fresh: "list_all fresh_task (sa_taskCandidates a)"
        using run_walk_candidates[OF walk] by (auto simp: candidates_inv_def candidate_ok_def list_all_iff)
      let ?s1 = "se_meanwhile env s"
      have inv1: "task_inv M ?s1" using assms by blast
      obtain s2 r where ws: "write_snapshots env cfg (wf_ID w) root records (we = None \<and> sa_firstProblem a = None) a ?s1 = (s2, r)" by fastforce
      then have inv2: "task_inv M s2" using inv1 write_snapshots_queue queue_part_inv by (metis fst_conv)
      have "task_inv M (fst (store_scan env cfg w root records a we ?s1))"
      proof (cases r)
        case (Inl e)
        then show ?thesis using ws inv2 by (cases e) (simp add: store_scan_def)
      next
        case (Inr y)
        obtain a2 byPath where y: "y = (a2, byPath)" by (cases y)
        have "list_all fresh_task (sa_taskCandidates a2)"
          using fresh write_snapshots_candidates[of env cfg "wf_ID w" root records _ a ?s1 s2 a2 byPath] ws Inr y by simp
        from write_tasks_queue[OF this, of env cfg we byPath s2]
        have "task_inv M (fst (write_tasks env cfg we byPath a2 s2))"
          using inv2 task_step_inv[OF inv2, of "se_fltTasks env" "OpCreateMany _ (wc_BatchSize cfg)" "se_now env"] by auto
        then show ?thesis using ws Inr y by (simp add: store_scan_def)
      qed
      then show ?thesis using Inr x records open1 walk inv1
        by (cases "se_ctx env (sa_ctxChecks a)") (simp_all add: scanFolder_def Let_def)
    qed (use assms Inr x records in \<open>simp add: scanFolder_def\<close>)
  qed (use assms Inr x in \<open>simp add: scanFolder_def\<close>)
qed (use assms in \<open>simp add: scanFolder_def\<close>)

lemma conduct_scan_inv:
  assumes "task_inv M s" "\<And>s. task_inv M s \<Longrightarrow> task_inv M (se_meanwhile env s)"
  shows "task_inv M (fst (conduct_scan env cfg w s))"
proof -
  obtain s1 r1 where 1: "Create_run (oe_fltRun env) (oe_started env) (new_run w (oe_started env)) s = (s1, r1)" by fastforce
  then have i1: "task_inv M s1" using assms(1) queue_part_inv by (metis fst_conv queue_part_folder_ops(4))
  obtain s2 lp where 2: "scan_heartbeats cfg (wf_ID w) (oe_beats env) s1 = (s2, lp)" by fastforce
  then have i2: "task_inv M s2" using i1 queue_part_inv by (metis fst_conv queue_part_heartbeats)
  have m: "\<And>s. task_inv M s \<Longrightarrow> task_inv M (se_meanwhile (scan_env.truncate env) s)"
    using assms(2) by (simp add: scan_env.defs)
  obtain s3 st se where 3: "scanFolder (scan_env.truncate env) cfg w s2 = (s3, st, se)" by (metis prod.exhaust)
  from scanFolder_inv[OF i2 m, of cfg w] 3 have "task_inv M s3" by simp
  then show ?thesis by (simp add: conduct_scan_def 1 2 3 Let_def)
qed

lemma close_scan_queue: "queue_part (fst (close_scan env cfg w r st errs s)) = queue_part s"
proof -
  obtain columns rs msg where o: "scan_outcome env cfg w st errs = (columns, rs, msg)" by (metis prod.exhaust)
  obtain s1 f where 1: "FinishScan (oe_fltFinish env) (oe_finished env) (wf_ID w) (wc_InstanceID cfg) columns s = (s1, f)" by fastforce
  then have q1: "queue_part s1 = queue_part s" by (metis fst_conv queue_part_folder_ops(3))
  obtain s2 g where 2: "Finish_run (oe_fltRunFinish env) (oe_finished env) (finished_run r rs (oe_finished env) st msg) s1 = (s2, g)" by fastforce
  then have "queue_part s2 = queue_part s" using q1 by (metis fst_conv queue_part_folder_ops(5))
  with q1 show ?thesis by (cases g) (simp_all add: close_scan_def o 1 2 Let_def)
qed

text \<open>
  C6: a scan, whatever it finds, whichever of its database calls fail and however it ends, keeps the
  queue's invariant: it only adds fresh pending tasks under new keys.
\<close>
theorem scan_keeps_queue:
  assumes "task_inv M s" "\<And>s. task_inv M s \<Longrightarrow> task_inv M (se_meanwhile env s)"
  shows "task_inv M (fst (scanOneFolder env cfg w s))"
proof -
  obtain s1 r1 where 1: "ClaimForScan (oe_fltClaim env) (oe_started env) (wf_ID w) (wc_InstanceID cfg) (wf_UpdatedAt w)
      (oe_started env) (wc_LeaseDuration cfg) s = (s1, r1)" by fastforce
  then have i1: "task_inv M s1" using assms(1) queue_part_inv by (metis fst_conv queue_part_folder_ops(1))
  obtain s2 r st errs where 2: "conduct_scan env cfg w s1 = (s2, r, st, errs)" by (metis prod.exhaust)
  with conduct_scan_inv[OF i1 assms(2), of cfg w] have i2: "task_inv M s2" by simp
  obtain s3 fe re where 3: "close_scan env cfg w r st errs s2 = (s3, fe, re)" by (metis prod.exhaust)
  then have "task_inv M s3" using i2 close_scan_queue queue_part_inv by (metis fst_conv)
  with i1 show ?thesis by (cases r1) (simp_all add: scanOneFolder_def 1 2 3 Let_def)
qed

subsection \<open>Missing files\<close>

definition same_mark :: "file_record \<Rightarrow> file_record \<Rightarrow> bool" where
  "same_mark f g \<longleftrightarrow> fr_ID g = fr_ID f \<and> fr_MissingAt g = fr_MissingAt f"

definition clean_paths :: "file_record list \<Rightarrow> string set" where
  "clean_paths recs = (\<lambda>f. path_Clean (fr_LocalPath f)) ` set recs"

text \<open>A snapshot in memory is a loaded one, mark included, or a new one at a path that was not loaded.\<close>
definition from_loaded :: "file_record list \<Rightarrow> file_record \<Rightarrow> bool" where
  "from_loaded recs r \<longleftrightarrow> (\<exists>f \<in> set recs. same_mark f r) \<or> (fr_ID r = 0 \<and> fr_LocalPath r \<notin> clean_paths recs)"

definition snapshots_inv :: "file_record list \<Rightarrow> scan_acc \<Rightarrow> bool" where
  "snapshots_inv recs a \<longleftrightarrow> (\<forall>r \<in> set (sa_changedSnapshots a). from_loaded recs r) \<and>
     (\<forall>p r. sa_recordByPath a p = Some r \<longrightarrow> from_loaded recs r) \<and>
     (\<forall>p \<in> clean_paths recs. sa_recordByPath a p \<noteq> None)"

lemma snapshots_inv_cong:
  "sa_changedSnapshots a = sa_changedSnapshots b \<Longrightarrow> sa_recordByPath a = sa_recordByPath b \<Longrightarrow>
     snapshots_inv recs a = snapshots_inv recs b"
  by (simp add: snapshots_inv_def)

lemma observe_file_snapshots:
  assumes "snapshots_inv recs a"
  shows "snapshots_inv recs (fst (observe_file w now lp rel rp fp sz mt a))"
proof (cases "sa_recordByPath a lp")
  case None
  then have "lp \<notin> clean_paths recs" using assms by (auto simp: snapshots_inv_def)
  then have "from_loaded recs r" if "fr_ID r = 0" "fr_LocalPath r = lp" for r
    using that by (simp add: from_loaded_def)
  with None assms show ?thesis
    by (auto simp: observe_file_def Let_def snapshots_inv_def blank_record_def)
next
  case (Some f)
  have "from_loaded recs f" using assms Some by (simp add: snapshots_inv_def)
  then have "from_loaded recs r" if "fr_ID r = fr_ID f" "fr_LocalPath r = fr_LocalPath f" "fr_MissingAt r = fr_MissingAt f" for r
    using that by (auto simp: from_loaded_def same_mark_def)
  with Some assms show ?thesis
    by (auto simp: observe_file_def Let_def snapshots_inv_def)
qed

lemma decide_upload_fields [simp]:
  "sa_changedSnapshots (decide_upload period sha legacy w now lp rp fp sz mt fr a) = sa_changedSnapshots a"
  "sa_recordByPath (decide_upload period sha legacy w now lp rp fp sz mt fr a) = sa_recordByPath a"
  by (simp_all add: decide_upload_def count_unchanged_def Let_def)

lemma visit_file_snapshots:
  assumes "snapshots_inv recs a"
  shows "snapshots_inv recs (visit_file env period pipeline legacy pre w path rel name sz mt a)"
proof -
  define a1 where "a1 = a\<lparr>sa_stats := (sa_stats a)\<lparr>fs_FilesSeen := fs_FilesSeen (sa_stats a) + 1,
                   fs_TotalBytes := fs_TotalBytes (sa_stats a) + sz\<rparr>,
                 sa_seenPaths := path_Clean path # sa_seenPaths a\<rparr>"
  have a1: "snapshots_inv recs a1" using assms by (simp add: snapshots_inv_def a1_def)
  have p: "snapshots_inv recs (recordProblem q a1)" for q using a1 by (simp add: snapshots_inv_def)
  have d: "snapshots_inv recs (decide_upload per sha legacy w now lp rp fp sz mt fr b) = snapshots_inv recs b"
    for per sha now lp rp fp fr b by (simp add: snapshots_inv_def)
  show ?thesis
    using p observe_file_snapshots[OF a1]
    by (auto simp: visit_file_def a1_def[symmetric] Let_def d case_prod_beta split: sum.splits)
qed

interpretation mv: tree_visitor
  "scan_visit env period pipeline legacy kws pre w root" "snapshots_inv recs" "\<lambda>_ _. True"
  for env period pipeline legacy kws pre w root recs
proof (unfold_locales, rule scan_visit_cases, goal_cases)
  case (5 acc path entry problem b rel name sz mt)
  then show ?case by (simp add: visit_file_snapshots)
qed (simp_all add: snapshots_inv_def)

lemma records_by_path_None: "records_by_path fs p = None \<longleftrightarrow> p \<notin> clean_paths fs"
  by (auto simp: records_by_path_def clean_paths_def map_of_eq_None_iff image_image)

lemma records_by_path_Some: "records_by_path fs p = Some f \<Longrightarrow> f \<in> set fs"
  unfolding records_by_path_def by (drule map_of_SomeD) auto

lemma run_walk_snapshots:
  assumes "run_walk env cfg root w steps records openTasks = (a, e)"
  shows "snapshots_inv records a"
proof -
  obtain keys legacy where k: "active_of openTasks = (keys, legacy)" by fastforce
  have "snapshots_inv records (initial_acc records keys)"
    by (auto simp: snapshots_inv_def initial_acc_def records_by_path_None from_loaded_def same_mark_def
        dest: records_by_path_Some)
  then have "snapshots_inv records (fst (WalkDir (scan_visit env (wc_FileStablePeriod cfg) steps legacy
      (parseFilterKeywords (wf_FilterKeywords w)) (TrimSuffix (wf_RemotePath w) ''/'') w root)
      root (se_lstat env root) (initial_acc records keys)))"
    by (rule mv.WalkDir_keeps) simp
  then show ?thesis using assms k by (simp add: run_walk_def)
qed

text \<open>The rows of the loaded snapshots, with their marks.\<close>
definition marks_kept :: "file_record list \<Rightarrow> file_record list \<Rightarrow> bool" where
  "marks_kept recs fs \<longleftrightarrow> (\<forall>f \<in> set recs. \<exists>x \<in> set fs. same_mark f x \<and> fr_LocalPath x = fr_LocalPath f)"

lemma upsert_marks:
  assumes "marks_kept recs fs" "distinct (map fr_ID recs)" "\<forall>f \<in> set recs. fr_ID f \<noteq> 0"
    and "\<forall>f \<in> set recs. path_Clean (fr_LocalPath f) = fr_LocalPath f" "from_loaded recs r"
  shows "marks_kept recs (upsert_file r fs)"
  unfolding marks_kept_def
proof
  fix f assume f: "f \<in> set recs"
  then obtain x where x: "x \<in> set fs" "same_mark f x" "fr_LocalPath x = fr_LocalPath f"
    using assms(1) by (auto simp: marks_kept_def)
  show "\<exists>x \<in> set (upsert_file r fs). same_mark f x \<and> fr_LocalPath x = fr_LocalPath f"
  proof (cases "\<exists>g \<in> set recs. same_mark g r")
    case True
    then obtain g where g: "g \<in> set recs" "same_mark g r" by blast
    have ex: "\<exists>y \<in> set fs. fr_ID y = fr_ID r" using assms(1) g by (auto simp: marks_kept_def same_mark_def)
    let ?y = "if fr_ID x = fr_ID r then snapshot_columns r x else x"
    have "fr_ID x = fr_ID r \<Longrightarrow> g = f"
      using assms(2) f g x by (metis distinct_map inj_onD same_mark_def)
    then have "same_mark f ?y \<and> fr_LocalPath ?y = fr_LocalPath f"
      using g(2) x by (auto simp: same_mark_def snapshot_columns_def)
    moreover have "?y \<in> set (upsert_file r fs)"
      using ex x(1) by (auto simp: upsert_file_def set_update_where)
    ultimately show ?thesis by blast
  next
    case False
    then have r: "fr_ID r = 0" "fr_LocalPath r \<notin> clean_paths recs" using assms(5) by (auto simp: from_loaded_def)
    then have "fr_LocalPath x \<noteq> fr_LocalPath r" using f x assms(4) by (force simp: clean_paths_def)
    moreover have "fr_ID x \<noteq> fr_ID r" using f x(2) r(1) assms(3) by (auto simp: same_mark_def)
    ultimately have "x \<in> set (upsert_file r fs)"
      using x(1) by (force simp: upsert_file_def set_update_where)
    with x show ?thesis by blast
  qed
qed

lemma fold_upsert_marks:
  assumes "distinct (map fr_ID recs)" "\<forall>f \<in> set recs. fr_ID f \<noteq> 0" "\<forall>f \<in> set recs. path_Clean (fr_LocalPath f) = fr_LocalPath f"
  shows "marks_kept recs fs \<Longrightarrow> \<forall>r \<in> set rs. from_loaded recs r \<Longrightarrow> marks_kept recs (fold upsert_file rs fs)"
  by (induction rs arbitrary: fs) (auto intro: upsert_marks[OF _ assms])

lemma clear_uploaded_marks: "marks_kept recs fs \<Longrightarrow> marks_kept recs (clear_uploaded ids now fs)"
  unfolding marks_kept_def
proof
  fix f assume "\<forall>f \<in> set recs. \<exists>x \<in> set fs. same_mark f x \<and> fr_LocalPath x = fr_LocalPath f" "f \<in> set recs"
  then obtain x where x: "x \<in> set fs" "same_mark f x" "fr_LocalPath x = fr_LocalPath f" by blast
  let ?y = "if fr_ID x \<in> set ids then x\<lparr>fr_UploadedAt := None, fr_UpdatedAt := now\<rparr> else x"
  have "?y \<in> set (clear_uploaded ids now fs)" using x(1) by (auto simp: clear_uploaded_def set_update_where)
  moreover have "same_mark f ?y \<and> fr_LocalPath ?y = fr_LocalPath f" using x by (simp add: same_mark_def)
  ultimately show "\<exists>x \<in> set (clear_uploaded ids now fs). same_mark f x \<and> fr_LocalPath x = fr_LocalPath f" by blast
qed

lemma UpdateSnapshots_marks:
  assumes "distinct (map fr_ID recs)" "\<forall>f \<in> set recs. fr_ID f \<noteq> 0" "\<forall>f \<in> set recs. path_Clean (fr_LocalPath f) = fr_LocalPath f"
    and "marks_kept recs (files s)" "\<forall>r \<in> set rs. from_loaded recs r"
  shows "marks_kept recs (files (fst (UpdateSnapshots flt now rs ids b s)))"
proof -
  have "marks_kept recs (files s) \<Longrightarrow> \<forall>r \<in> set (concat bs). from_loaded recs r \<Longrightarrow>
      marks_kept recs (files (fst (update_file_batches flt k now ids bs s)))" for k bs s
  proof (induction bs arbitrary: k s)
    case (Cons x bs)
    have stamped: "from_loaded recs (r\<lparr>fr_UpdatedAt := now\<rparr>)" if "from_loaded recs r" for r
      using that by (simp add: from_loaded_def same_mark_def)
    let ?c = "filter (\<lambda>i. i \<in> set ids) (map fr_ID x)"
    let ?fs = "if ?c \<noteq> [] then clear_uploaded ?c now (files s) else files s"
    define s1 where "s1 = s\<lparr>files := fold upsert_file (map (\<lambda>f. f\<lparr>fr_UpdatedAt := now\<rparr>) x) ?fs\<rparr>"
    have "files s1 = fold upsert_file (map (\<lambda>f. f\<lparr>fr_UpdatedAt := now\<rparr>) x) ?fs" by (simp add: s1_def)
    moreover have "marks_kept recs (fold upsert_file (map (\<lambda>f. f\<lparr>fr_UpdatedAt := now\<rparr>) x) ?fs)"
      by (rule fold_upsert_marks[OF assms(1-3)]) (use Cons.prems clear_uploaded_marks stamped in auto)
    ultimately have "marks_kept recs (files s1)" by (simp only:)
    then have ih: "marks_kept recs (files (fst (update_file_batches flt (k + 4) now ids bs s1)))"
      using Cons.IH Cons.prems(2) by simp
    have "update_file_batches flt k now ids (x # bs) s \<in> {(s, Inl (ErrDB k)), (s, Inl (ErrDB (k + 1))), (s, Inl (ErrDB (k + 2))),
        (s, Inl (ErrDB (k + 3))), update_file_batches flt (k + 4) now ids bs s1}"
      unfolding update_file_batches.simps(2) Let_def s1_def by simp
    with ih Cons.prems(1) show ?case by auto
  qed simp
  from this[OF assms(4), of "batches (effective_batch b) rs" 0] assms(4,5) show ?thesis
    unfolding concat_batches[OF effective_batch_pos] by (simp add: UpdateSnapshots_def)
qed

text \<open>The fate of one loaded snapshot's mark: kept, or set now if it was to be marked.\<close>
definition mark_after :: "time \<Rightarrow> nat list \<Rightarrow> file_record \<Rightarrow> file_record list \<Rightarrow> bool" where
  "mark_after now ids f fs \<longleftrightarrow> (\<exists>x \<in> set fs. fr_ID x = fr_ID f \<and>
     (fr_MissingAt x = fr_MissingAt f \<or> fr_MissingAt f = None \<and> fr_ID f \<in> set ids \<and> fr_MissingAt x = Some now))"

lemma MarkMissing_marks:
  assumes "mark_after now ids f (files s)"
  shows "mark_after now ids f (files (fst (MarkMissing flt n ids now b s)))"
proof -
  have "mark_after now ids f (files s) \<Longrightarrow> set (concat bs) \<subseteq> set ids \<Longrightarrow>
      mark_after now ids f (files (fst (mark_missing_batches flt k n now bs s)))" for k bs s
  proof (induction bs arbitrary: k s)
    case (Cons x bs)
    let ?fs = "update_where (\<lambda>f. fr_ID f \<in> set x \<and> fr_MissingAt f = None) (\<lambda>f. f\<lparr>fr_MissingAt := Some now, fr_UpdatedAt := n\<rparr>) (files s)"
    obtain y where y: "y \<in> set (files s)" "fr_ID y = fr_ID f"
      "fr_MissingAt y = fr_MissingAt f \<or> fr_MissingAt f = None \<and> fr_ID f \<in> set ids \<and> fr_MissingAt y = Some now"
      using Cons.prems(1) by (auto simp: mark_after_def)
    let ?y = "if fr_ID y \<in> set x \<and> fr_MissingAt y = None then y\<lparr>fr_MissingAt := Some now, fr_UpdatedAt := n\<rparr> else y"
    have "?y \<in> set ?fs" using y(1) by (auto simp: set_update_where)
    moreover have "fr_ID ?y = fr_ID f \<and> (fr_MissingAt ?y = fr_MissingAt f \<or>
        fr_MissingAt f = None \<and> fr_ID f \<in> set ids \<and> fr_MissingAt ?y = Some now)"
      using y Cons.prems(2) by auto
    ultimately have "mark_after now ids f ?fs" unfolding mark_after_def by blast
    with Cons show ?case by simp
  qed simp
  from this[OF assms, of "batches (effective_batch b) ids" 0] show ?thesis
    unfolding concat_batches[OF effective_batch_pos] by (simp add: MarkMissing_def)
qed

lemma CreateSnapshots_keeps: "set (files s) \<subseteq> set (files (fst (CreateSnapshots flt now rs b s)))"
proof -
  have one: "set (files s) \<subseteq> set (files (fst (insert_file now f s)))" for f s
    by (auto simp: insert_file_def Let_def)
  have many: "set (files s) \<subseteq> set (files (fst (insert_files now rs s)))" for rs s
  proof (induction rs arbitrary: s)
    case (Cons r rs)
    then show ?case using one[of s r] Cons[of "fst (insert_file now r s)"] by (auto simp: case_prod_beta Let_def)
  qed simp
  have "insert_file_batches flt k now bs s = Inr (s', fs) \<Longrightarrow> set (files s) \<subseteq> set (files s')" for k bs s s' fs
  proof (induction bs arbitrary: k s fs)
    case (Cons x bs)
    obtain s1 fs1 where i: "insert_files now x s = (s1, fs1)" by fastforce
    obtain gs where "insert_file_batches flt (k + 1) now bs s1 = Inr (s', gs)"
      using Cons.prems i by (auto simp: bind_res_Inr split: if_splits)
    from Cons.IH[OF this] many[of s x] i show ?case by auto
  qed simp
  then show ?thesis by (auto simp: CreateSnapshots_def split: sum.splits)
qed

lemma mark_after_mono: "mark_after now ids f fs \<Longrightarrow> set fs \<subseteq> set gs \<Longrightarrow> mark_after now ids f gs"
  by (auto simp: mark_after_def)

lemma write_snapshots_marks:
  assumes "marks_kept recs (files s)" "distinct (map fr_ID recs)" "\<forall>f \<in> set recs. fr_ID f \<noteq> 0"
    "\<forall>f \<in> set recs. path_Clean (fr_LocalPath f) = fr_LocalPath f" "snapshots_inv recs a" "f \<in> set recs"
  shows "mark_after (se_now env) (if complete then missing_ids recs a else []) f
    (files (fst (write_snapshots env cfg fid root recs complete a s)))"
proof -
  let ?now = "se_now env" and ?b = "wc_BatchSize cfg" and ?ids = "if complete then missing_ids recs a else []"
  obtain s1 r1 where 1: "UpdateSnapshots (se_fltUpdate env) ?now (sa_changedSnapshots a) (sa_clearUploadedIDs a) ?b s = (s1, r1)" by fastforce
  have "marks_kept recs (files s1)"
    using UpdateSnapshots_marks[OF assms(2-4,1), of "sa_changedSnapshots a" "se_fltUpdate env" ?now "sa_clearUploadedIDs a" ?b] assms(5) 1
    by (simp add: snapshots_inv_def)
  then have m1: "mark_after ?now ?ids f (files s1)"
    using assms(6) by (auto simp: marks_kept_def mark_after_def same_mark_def)
  obtain s2 r2 where 2: "(if complete then MarkMissing (se_fltMissing env) ?now (missing_ids recs a) ?now ?b s1 else (s1, Inr ())) = (s2, r2)" by fastforce
  have m2: "mark_after ?now ?ids f (files s2)"
    using m1 MarkMissing_marks[of ?now "missing_ids recs a" f s1 "se_fltMissing env" ?now ?b] 2
    by (cases complete) auto
  obtain s3 r3 where 3: "CreateSnapshots (se_fltCreate env) ?now (sa_newSnapshots a) ?b s2 = (s3, r3)" by fastforce
  have m3: "mark_after ?now ?ids f (files s3)"
    using mark_after_mono[OF m2] CreateSnapshots_keeps[of s2 "se_fltCreate env" ?now "sa_newSnapshots a" ?b] 3 by simp
  show ?thesis
    unfolding write_snapshots_def Let_def 1 prod.case 2 3
    using m1 m2 m3 by (auto split: sum.splits)
qed

lemma CreateManyIfAbsent_files: "files (fst (CreateManyIfAbsent flt now ts b s)) = files s"
proof -
  have one: "files (fst (insert_task now t s)) = files s" for t s by (simp add: insert_task_def Let_def)
  have many: "files (fst (insert_batch now ts s)) = files s" for ts s
    by (induction ts arbitrary: s) (simp_all add: one case_prod_beta Let_def)
  have "insert_batches flt k now bs s = Inr (s', n) \<Longrightarrow> files s' = files s" for k bs s s' n
  proof (induction bs arbitrary: k s n)
    case (Cons x bs)
    obtain s1 n1 where i: "insert_batch now x s = (s1, n1)" by fastforce
    obtain m where "insert_batches flt (k + 1) now bs s1 = Inr (s', m)"
      using Cons.prems i by (auto simp: bind_res_Inr split: if_splits)
    from Cons.IH[OF this] many[of x s] i show ?case by simp
  qed simp
  then show ?thesis by (auto simp: CreateManyIfAbsent_def split: sum.splits)
qed

lemma write_tasks_files: "files (fst (write_tasks env cfg we byPath a s)) = files s"
proof -
  obtain a3 valid where v: "bind_records byPath (sa_taskCandidates a) a = (a3, valid)" by fastforce
  obtain s4 r where c: "CreateManyIfAbsent (se_fltTasks env) (se_now env) valid (wc_BatchSize cfg) s = (s4, r)" by fastforce
  then have "files s4 = files s" by (metis CreateManyIfAbsent_files fst_conv)
  then show ?thesis by (cases r) (simp_all add: write_tasks_def v c Let_def)
qed


subsection \<open>Samples the witnesses run on\<close>

definition demo_scan_config :: scanner_config where
  "demo_scan_config = \<lparr>wc_PollInterval = second, wc_DefaultInterval = minute, wc_FolderTimeout = hour,
     wc_FileStablePeriod = 0, wc_MaxConcurrent = 1, wc_BatchSize = 2, wc_InstanceID = ''host'',
     wc_LeaseDuration = minute, wc_Heartbeat = second, wc_ResourcePolicy = None\<rparr>"

definition demo_tree :: entry where
  "demo_tree = DirEntry ''d'' None [FileEntry ''a.txt'' (Inr (True, 3, 5))]"

definition demo_scan_env :: "string scan_env" where
  "demo_scan_env = \<lparr>se_clock = (\<lambda>_. 100), se_now = 200, se_ctx = (\<lambda>_. None), se_rx = demo_engine,
     se_sha256 = (\<lambda>_. ''k''), se_os = demo_os, se_lstat = (\<lambda>_. Inr demo_tree), se_meanwhile = (\<lambda>s. s),
     se_fltLoad = no_fault, se_fltOpen = no_fault, se_fltUpdate = no_fault, se_fltMissing = no_fault,
     se_fltCreate = no_fault, se_fltReload = no_fault, se_fltTasks = no_fault\<rparr>"

definition missing_record :: file_record where
  "missing_record = (sample_file 4 ''k'')\<lparr>fr_LocalPath := ''/d/a.txt'', fr_MissingAt := Some 7\<rparr>"

definition demo_scan_db :: db where
  "demo_scan_db = empty_db\<lparr>files := [missing_record]\<rparr>"

lemma demo_paths:
  "path_Join [''/d'', ''a.txt''] = ''/d/a.txt''" "path_Rel ''/d'' ''/d'' = Inr ''.''"
  "path_Rel ''/d'' ''/d/a.txt'' = Inr ''a.txt''" "path_Clean ''/d/a.txt'' = ''/d/a.txt''"
  by code_simp+

definition demo_folder :: watch_folder where
  "demo_folder = sample_folder 1 WatchFolderStatusWatching"

lemma visit_file_seen: "path_Clean path \<in> set (sa_seenPaths (visit_file env period pipeline legacy pre w path rel name sz mt a))"
proof -
  have o: "sa_seenPaths (fst (observe_file w now lp rel rp fp sz mt b)) = sa_seenPaths b" for now lp rp fp b
    by (simp add: observe_file_def Let_def)
  have d: "sa_seenPaths (decide_upload per sha legacy w now lp rp fp sz mt fr b) = sa_seenPaths b" for per sha now lp rp fp fr b
    by (simp add: decide_upload_def count_unchanged_def Let_def)
  show ?thesis
    by (auto simp: visit_file_def Let_def d o case_prod_beta split: sum.splits)
qed

lemma demo_ctx: "se_ctx demo_scan_env k = None" by (simp add: demo_scan_env_def)

lemma demo_visits:
  "scan_visit demo_scan_env period [] legacy [] pre w ''/d'' ''/d'' (Some (DirEntry n err es)) None a =
     (a\<lparr>sa_ctxChecks := Suc (sa_ctxChecks a)\<rparr>, Go_on)" if "wf_MaxDepth w = 0"
  using that by (simp add: scan_visit_def demo_scan_env_def demo_paths Let_def)

lemma demo_visits2:
  "scan_visit demo_scan_env period [] legacy [] pre w ''/d'' ''/d/a.txt'' (Some (FileEntry n (Inr (True, sz, mt)))) None a =
     (visit_file demo_scan_env period [] legacy pre w ''/d/a.txt'' ''a.txt'' n sz mt (a\<lparr>sa_ctxChecks := Suc (sa_ctxChecks a)\<rparr>), Go_on)"
  by (simp add: scan_visit_def demo_ctx demo_paths matchFilterKeywords_def Let_def)

lemma demo_walk:
  "''/d/a.txt'' \<in> set (sa_seenPaths (fst (run_walk demo_scan_env demo_scan_config ''/d'' demo_folder [] [missing_record] [])))"
proof -
  have l: "se_lstat demo_scan_env ''/d'' = Inr (DirEntry ''d'' None [FileEntry ''a.txt'' (Inr (True, 3, 5))])"
    by (simp add: demo_scan_env_def demo_tree_def)
  have k: "parseFilterKeywords (wf_FilterKeywords demo_folder) = []"
    "wf_MaxDepth demo_folder = 0"
    by (simp_all add: demo_folder_def sample_folder_def parseFilterKeywords_def)
  show ?thesis
    using visit_file_seen[of "''/d/a.txt''"]
    by (simp add: run_walk_def WalkDir_def l k demo_visits demo_visits2 demo_paths case_prod_beta Let_def)
qed

definition demo_one :: "string one_env" where
  "demo_one = scan_env.extend demo_scan_env (one_env.fields 100 200 [(no_fault, 150)] False False (\<lambda>_. ''failed'')
     no_fault no_fault no_fault no_fault)"

theorem scan_candidates_witness:
  "distinct (map task_IdempotencyKey (sa_taskCandidates
     (fst (run_walk demo_scan_env demo_scan_config ''/d'' demo_folder [] [] []))))"
  using scan_candidates[OF prod.collapse[symmetric], of demo_scan_env demo_scan_config "''/d''" demo_folder "[]" "[]" "[]"]
  by blast

theorem scan_keeps_queue_witness:
  "task_inv 3 (fst (scanOneFolder demo_one demo_scan_config demo_folder (queue_db [pending_task 1 ''a''])))"
proof (rule scan_keeps_queue)
  show "task_inv 3 (queue_db [pending_task 1 ''a''])" by (simp add: inv_defs samples)
qed (simp add: demo_one_def scan_env.defs one_env.defs demo_scan_env_def)


end
