(* ===== verification/Auth.thy ===== *)
theory Auth
  imports ResourcePolicy
begin

section \<open>Authentication\<close>

text \<open>
  \<open>internal/security/auth.go\<close>, the login limiter of \<open>internal/api/auth_handler.go\<close> and the
  decisions of \<open>internal/api/security_middleware.go\<close>.  The hash functions (\<open>HMAC-SHA256\<close>, \<open>bcrypt\<close>)
  and the \<open>JSON\<close> coding of the claims are parameters; the token format, its base64url coding and its
  checks are spelled out.  The properties are the round trip of issued tokens, what an accepted token
  must be, and the bounds of the limiter.
\<close>

subsection \<open>base64url without padding\<close>

definition alphabet :: string where
  "alphabet = ''ABCDEFGHIJKLMNOPQRSTUVWXYZabcdefghijklmnopqrstuvwxyz0123456789-_''"

definition sextet_char :: "nat \<Rightarrow> char" where "sextet_char i = alphabet ! i"

definition char_sextet :: "char \<Rightarrow> nat option" where
  "char_sextet c = (case filter (\<lambda>i. alphabet ! i = c) [0..<64] of [] \<Rightarrow> None | i # _ \<Rightarrow> Some i)"

definition code :: "char \<Rightarrow> nat" where "code c = of_char c"

fun base64_encode :: "string \<Rightarrow> string" where
  "base64_encode (a # b # c # s) =
     (let n = code a * 65536 + code b * 256 + code c in
      sextet_char (n div 262144) # sextet_char (n div 4096 mod 64) # sextet_char (n div 64 mod 64)
        # sextet_char (n mod 64) # base64_encode s)"
| "base64_encode [a, b] =
     (let n = code a * 65536 + code b * 256 in
      [sextet_char (n div 262144), sextet_char (n div 4096 mod 64), sextet_char (n div 64 mod 64)])"
| "base64_encode [a] =
     (let n = code a * 65536 in [sextet_char (n div 262144), sextet_char (n div 4096 mod 64)])"
| "base64_encode [] = []"

text \<open>The decoder skips CR and LF; the unused low bits of the last character are not checked.\<close>
fun decode_sextets :: "nat list \<Rightarrow> string option" where
  "decode_sextets (i # j # k # l # xs) =
     (let n = i * 262144 + j * 4096 + k * 64 + l in
      map_option (\<lambda>s. char_of (n div 65536) # char_of (n div 256 mod 256) # char_of (n mod 256) # s)
        (decode_sextets xs))"
| "decode_sextets [i, j, k] =
     (let n = i * 262144 + j * 4096 + k * 64 in Some [char_of (n div 65536), char_of (n div 256 mod 256)])"
| "decode_sextets [i, j] = (let n = i * 262144 + j * 4096 in Some [char_of (n div 65536)])"
| "decode_sextets [i] = None"
| "decode_sextets [] = Some []"

definition base64_decode :: "string \<Rightarrow> string option" where
  "base64_decode s =
     (let cs = filter (\<lambda>c. c \<noteq> byte 13 \<and> c \<noteq> byte 10) s in
      if list_all (\<lambda>c. char_sextet c \<noteq> None) cs then decode_sextets (map (the \<circ> char_sextet) cs) else None)"

lemma code_less [simp]: "code c < 256"
  by (simp add: code_def)

lemma char_of_code [simp]: "char_of (code c) = c"
  by (simp add: code_def)

lemma sextet_table:
  "list_all (\<lambda>i. char_sextet (sextet_char i) = Some i \<and> sextet_char i \<notin> {byte 13, byte 10, CHR ''.''}) [0..<64]"
  by code_simp

lemma sextet_roundtrip: "i < 64 \<Longrightarrow> char_sextet (sextet_char i) = Some i"
  using sextet_table by (simp add: list_all_iff)

lemma sextet_visible: "i < 64 \<Longrightarrow> sextet_char i \<notin> {byte 13, byte 10, CHR ''.''}"
  using sextet_table by (auto simp: list_all_iff)

fun sextets :: "string \<Rightarrow> nat list" where
  "sextets (a # b # c # s) =
     (let n = code a * 65536 + code b * 256 + code c in
      (n div 262144) # (n div 4096 mod 64) # (n div 64 mod 64) # (n mod 64) # sextets s)"
| "sextets [a, b] =
     (let n = code a * 65536 + code b * 256 in [n div 262144, n div 4096 mod 64, n div 64 mod 64])"
| "sextets [a] = (let n = code a * 65536 in [n div 262144, n div 4096 mod 64])"
| "sextets [] = []"

lemma base64_encode_sextets: "base64_encode s = map sextet_char (sextets s)"
  by (induction s rule: sextets.induct) (auto simp: Let_def)

lemma div_sextet: "a < 256 \<Longrightarrow> b < 256 \<Longrightarrow> c < 256 \<Longrightarrow> (a * 65536 + b * 256 + c) div 262144 < (64::nat)"
  by (simp add: less_mult_imp_div_less)

lemma sextets_less: "i \<in> set (sextets s) \<Longrightarrow> i < 64"
proof (induction s rule: sextets.induct)
  case (1 a b c s)
  then show ?case
    using div_sextet[of "code a" "code b" "code c"] by (auto simp: Let_def)
next
  case (2 a b)
  then show ?case using div_sextet[of "code a" "code b" 0] by (auto simp: Let_def)
next
  case (3 a)
  then show ?case using div_sextet[of "code a" 0 0] by (auto simp: Let_def)
qed simp

lemma regroup:
  "(n div 262144) * 262144 + (n div 4096 mod 64) * 4096 + (n div 64 mod 64) * 64 + n mod 64 = (n::nat)"
proof -
  have d: "n div 64 div 64 = n div 4096" "n div 4096 div 64 = n div 262144"
    by (simp_all add: div_mult2_eq[symmetric])
  have "n = n div 64 * 64 + n mod 64" "n div 64 = n div 4096 * 64 + n div 64 mod 64"
    "n div 4096 = n div 262144 * 64 + n div 4096 mod 64"
    using div_mult_mod_eq[of n 64] div_mult_mod_eq[of "n div 64" 64] div_mult_mod_eq[of "n div 4096" 64]
    unfolding d by simp_all
  then show ?thesis by linarith
qed

lemma triple_bytes:
  assumes "a < 256" "b < 256" "c < (256::nat)"
  shows "(a * 65536 + b * 256 + c) div 65536 = a" "(a * 65536 + b * 256 + c) div 256 mod 256 = b"
    "(a * 65536 + b * 256 + c) mod 256 = c"
proof -
  have e: "a * 65536 + b * 256 + c = (a * 256 + b) * 256 + c" by simp
  then have q: "(a * 65536 + b * 256 + c) div 256 = a * 256 + b" using assms(3) by simp
  have "(a * 65536 + b * 256 + c) div 65536 = (a * 65536 + b * 256 + c) div 256 div 256"
    by (simp add: div_mult2_eq[symmetric])
  then show "(a * 65536 + b * 256 + c) div 65536 = a" using q assms(2) by simp
  show "(a * 65536 + b * 256 + c) div 256 mod 256 = b" using q assms(2) by simp
  show "(a * 65536 + b * 256 + c) mod 256 = c" unfolding e mod_mult_self3 using assms(3) by (rule mod_less)
qed

lemma decode_sextets_sextets: "decode_sextets (sextets s) = Some s"
proof (induction s rule: sextets.induct)
  case (1 a b c s)
  show ?case
    by (simp only: sextets.simps Let_def decode_sextets.simps regroup triple_bytes code_less 1
        option.map char_of_code)
next
  case (2 a b)
  let ?n = "code a * 65536 + code b * 256 + 0"
  have "?n mod 64 = 0" by (simp add: mod_eq_0_iff_dvd)
  then have g: "?n div 262144 * 262144 + ?n div 4096 mod 64 * 4096 + ?n div 64 mod 64 * 64 = ?n"
    using regroup[of ?n] by linarith
  have "decode_sextets [?n div 262144, ?n div 4096 mod 64, ?n div 64 mod 64] = Some [a, b]"
    by (simp only: Let_def decode_sextets.simps g triple_bytes[of "code a" "code b" 0] code_less char_of_code
        zero_less_numeral)
  then show ?case by (simp only: sextets.simps Let_def add_0_right)
next
  case (3 a)
  let ?n = "code a * 65536 + 0 * 256 + 0"
  have "?n mod 64 = 0" by (simp add: mod_eq_0_iff_dvd)
  moreover have "?n div 64 = (code a * 16) * 64" by simp
  then have "?n div 64 mod 64 = 0" by (metis mod_mult_self2_is_0)
  ultimately have g: "?n div 262144 * 262144 + ?n div 4096 mod 64 * 4096 = ?n"
    using regroup[of ?n] by linarith
  have "decode_sextets [?n div 262144, ?n div 4096 mod 64] = Some [a]"
    by (simp only: Let_def decode_sextets.simps g triple_bytes[of "code a" 0 0] code_less char_of_code
        zero_less_numeral)
  then show ?case by (simp only: sextets.simps Let_def add_0_right mult_0)
qed simp

theorem base64_roundtrip: "base64_decode (base64_encode s) = Some s"
proof -
  have "filter (\<lambda>c. c \<noteq> byte 13 \<and> c \<noteq> byte 10) (base64_encode s) = base64_encode s"
    unfolding base64_encode_sextets filter_id_conv using sextets_less sextet_visible by fastforce
  moreover have "list_all (\<lambda>c. char_sextet c \<noteq> None) (base64_encode s)"
    using sextets_less sextet_roundtrip by (fastforce simp: base64_encode_sextets list_all_iff)
  moreover have "map (the \<circ> char_sextet) (base64_encode s) = sextets s"
    using sextets_less sextet_roundtrip by (simp add: base64_encode_sextets map_idI)
  ultimately show ?thesis
    using decode_sextets_sextets by (simp add: base64_decode_def)
qed

lemma base64_no_dot: "CHR ''.'' \<notin> set (base64_encode s)"
  using sextets_less sextet_visible by (fastforce simp: base64_encode_sextets)

subsection \<open>Accounts and tokens\<close>

(* src/internal/security/auth.go 19-22 RoleAdmin *)
datatype role = RoleAdmin | RoleViewer | OtherRole string

(* src/internal/security/auth.go 26-34 AuthConfig *)
record auth_config =
  ac_Enabled :: bool
  ac_AdminUsername :: string
  ac_AdminPassword :: string
  ac_ViewerUsername :: string
  ac_ViewerPassword :: string
  ac_TokenSecret :: string
  ac_TokenTTL :: dur

(* src/internal/security/auth.go 36-42 Claims *)
record claims =
  cl_Subject :: string
  cl_Role :: role
  cl_IssuedAt :: int
  cl_ExpiresAt :: int
  cl_TokenID :: string

(* src/internal/security/auth.go 44-47 credential *)
record 'h auth_service =
  as_enabled :: bool
  as_credentials :: "(string \<times> 'h \<times> role) list"
  as_secret :: string
  as_tokenTTL :: dur

text \<open>
  The primitives: \<open>HMAC-SHA256\<close> under a key, \<open>bcrypt\<close> (hashing may fail on long passwords) and the
  \<open>JSON\<close> coding of the claims.
\<close>
record 'h crypto =
  cr_hmac :: "string \<Rightarrow> string \<Rightarrow> string"
  cr_bcrypt :: "string \<Rightarrow> 'h option"
  cr_compare :: "'h \<Rightarrow> string \<Rightarrow> bool"
  cr_marshal :: "claims \<Rightarrow> string"
  cr_unmarshal :: "string \<Rightarrow> claims option"

datatype auth_error =
    AdminPasswordShort
  | TokenSecretShort
  | ViewerIncomplete
  | BadUsername
  | DuplicateUsername string
  | HashFailed
  | AuthDisabled
  | InvalidCredentials
  | InvalidToken
  | TokenExpired
  | InvalidTokenRole

text \<open>\<open>utf8.RuneCountInString\<close>: every byte that does not continue a valid sequence starts a rune.\<close>
type_synonym rune_count = "string \<Rightarrow> nat"

(* src/internal/security/auth.go 152-166 AuthService.addCredential *)
definition addCredential ::
    "'h crypto \<Rightarrow> string \<Rightarrow> string \<Rightarrow> role \<Rightarrow> 'h auth_service \<Rightarrow> (auth_error, 'h auth_service) result" where
  "addCredential cr username0 password r s =
     (let username = TrimSpace username0 in
      if username = '''' \<or> length username > 255 then Inl BadUsername
      else if map_of (as_credentials s) username \<noteq> None then Inl (DuplicateUsername username)
      else case cr_bcrypt cr password of
             None \<Rightarrow> Inl HashFailed
           | Some hash \<Rightarrow> Inr (s\<lparr>as_credentials := (username, hash, r) # as_credentials s\<rparr>))"

(* src/internal/security/auth.go 56-87 NewAuthService *)
definition NewAuthService ::
    "'h crypto \<Rightarrow> rune_count \<Rightarrow> auth_config \<Rightarrow> (auth_error, 'h auth_service) result" where
  "NewAuthService cr runes c =
     (let service = \<lparr>as_enabled = ac_Enabled c, as_credentials = [], as_secret = '''', as_tokenTTL = ac_TokenTTL c\<rparr> in
      if \<not> ac_Enabled c then Inr service
      else if runes (ac_AdminPassword c) < 8 then Inl AdminPasswordShort
      else if length (ac_TokenSecret c) < 32 then Inl TokenSecretShort
      else let admin = (if ac_AdminUsername c = '''' then ''admin'' else ac_AdminUsername c);
               ttl = (if ac_TokenTTL c \<le> 0 then 12 * hour else ac_TokenTTL c);
               s0 = service\<lparr>as_secret := ac_TokenSecret c, as_tokenTTL := ttl\<rparr> in
        bind_res (addCredential cr admin (ac_AdminPassword c) RoleAdmin s0) (\<lambda>s1.
          if ac_ViewerUsername c \<noteq> '''' \<or> ac_ViewerPassword c \<noteq> '''' then
            (if ac_ViewerUsername c = '''' \<or> length (ac_ViewerPassword c) < 12 then Inl ViewerIncomplete
             else addCredential cr (ac_ViewerUsername c) (ac_ViewerPassword c) RoleViewer s1)
          else Inr s1))"

text \<open>\<open>time.Time.Unix\<close>: the second an instant lies in.\<close>
definition unix :: "time \<Rightarrow> int" where "unix t = t div second"

(* src/internal/security/auth.go 168-177 AuthService.sign *)
definition sign :: "'h crypto \<Rightarrow> 'h auth_service \<Rightarrow> claims \<Rightarrow> string" where
  "sign cr s c =
     (let signedValue = ''v1.'' @ base64_encode (cr_marshal cr c)
      in signedValue @ ''.'' @ base64_encode (cr_hmac cr (as_secret s) signedValue))"

(* src/internal/security/auth.go 93-115 AuthService.Login *)
definition Login ::
    "'h crypto \<Rightarrow> time \<Rightarrow> string \<Rightarrow> 'h auth_service \<Rightarrow> string \<Rightarrow> string
      \<Rightarrow> (auth_error, string \<times> claims) result" where
  "Login cr now tokenID s username password =
     (if \<not> as_enabled s then Inl AuthDisabled
      else case map_of (as_credentials s) username of
             None \<Rightarrow> Inl InvalidCredentials
           | Some (hash, r) \<Rightarrow>
               if \<not> cr_compare cr hash password then Inl InvalidCredentials
               else let c = \<lparr>cl_Subject = username, cl_Role = r, cl_IssuedAt = unix now,
                             cl_ExpiresAt = unix (now + as_tokenTTL s), cl_TokenID = tokenID\<rparr>
                    in Inr (sign cr s c, c))"

(* src/internal/security/auth.go 117-150 AuthService.Verify *)
definition Verify :: "'h crypto \<Rightarrow> time \<Rightarrow> 'h auth_service option \<Rightarrow> string \<Rightarrow> (auth_error, claims) result" where
  "Verify cr now service token =
     (case service of
        None \<Rightarrow> Inr \<lparr>cl_Subject = ''anonymous'', cl_Role = RoleAdmin, cl_IssuedAt = 0,
                     cl_ExpiresAt = unix (now + hour), cl_TokenID = ''''\<rparr>
      | Some s \<Rightarrow>
          if \<not> as_enabled s then Inr \<lparr>cl_Subject = ''anonymous'', cl_Role = RoleAdmin, cl_IssuedAt = 0,
                     cl_ExpiresAt = unix (now + hour), cl_TokenID = ''''\<rparr>
          else if length token > 4096 then Inl InvalidToken
          else (case Split token (CHR ''.'') of
            [v, body, sig] \<Rightarrow>
              if v \<noteq> ''v1'' then Inl InvalidToken
              else let signedValue = v @ ''.'' @ body in
                if base64_decode sig \<noteq> Some (cr_hmac cr (as_secret s) signedValue) then Inl InvalidToken
                else (case base64_decode body of
                        None \<Rightarrow> Inl InvalidToken
                      | Some payload \<Rightarrow>
                          (case cr_unmarshal cr payload of
                             None \<Rightarrow> Inl InvalidToken
                           | Some c \<Rightarrow>
                               if cl_Subject c = '''' \<or> cl_ExpiresAt c \<le> unix now then Inl TokenExpired
                               else if cl_Role c \<noteq> RoleAdmin \<and> cl_Role c \<noteq> RoleViewer then Inl InvalidTokenRole
                               else Inr c))
          | _ \<Rightarrow> Inl InvalidToken))"

text \<open>The request gate: the bearer token of a trimmed \<open>Authorization\<close> header.\<close>
(* src/internal/api/security_middleware.go 76-96 SecurityMiddleware.Authenticate *)
definition Authenticate :: "'h crypto \<Rightarrow> time \<Rightarrow> 'h auth_service option \<Rightarrow> string \<Rightarrow> claims option" where
  "Authenticate cr now service header0 =
     (if (case service of None \<Rightarrow> True | Some s \<Rightarrow> \<not> as_enabled s)
      then Some \<lparr>cl_Subject = ''anonymous'', cl_Role = RoleAdmin, cl_IssuedAt = 0, cl_ExpiresAt = 0, cl_TokenID = ''''\<rparr>
      else let header = TrimSpace header0 in
        if length header < 8 \<or> ToLower (take 7 header) \<noteq> ''bearer '' then None
        else case Verify cr now service (TrimSpace (drop 7 header)) of Inl _ \<Rightarrow> None | Inr c \<Rightarrow> Some c)"

(* src/internal/api/security_middleware.go 98-106 SecurityMiddleware.RequireAdmin *)
definition RequireAdmin :: "claims option \<Rightarrow> bool" where
  "RequireAdmin c = ((case c of None \<Rightarrow> RoleViewer | Some c \<Rightarrow> cl_Role c) = RoleAdmin)"

subsection \<open>The login limiter\<close>

(* src/internal/api/auth_handler.go 21-24 loginAttemptWindow *)
record attempt_window =
  aw_Count :: nat
  aw_ResetAt :: time

type_synonym attempts = "(string \<times> attempt_window) list"

(* src/internal/api/auth_handler.go 26-26 maxTrackedLoginSources *)
definition maxTrackedLoginSources :: nat where "maxTrackedLoginSources = 10000"

(* src/internal/api/auth_handler.go 108-115 AuthHandler.allowAttempt *)
definition purge :: "time \<Rightarrow> attempts \<Rightarrow> attempts" where
  "purge now m =
     (if length m \<ge> maxTrackedLoginSources then filter (\<lambda>e. \<not> aw_ResetAt (snd e) < now) m else m)"

(* src/internal/api/auth_handler.go 128-132 AuthHandler.clearAttempts *)
definition clearAttempts :: "string \<Rightarrow> attempts \<Rightarrow> attempts" where
  "clearAttempts key m = filter (\<lambda>e. fst e \<noteq> key) m"

(* src/internal/api/auth_handler.go 104-126 AuthHandler.allowAttempt *)
definition allowAttempt :: "nat \<Rightarrow> string \<Rightarrow> time \<Rightarrow> attempts \<Rightarrow> attempts \<times> bool" where
  "allowAttempt maxAttempts key now m0 =
     (let m = purge now m0 in
      if length m0 \<ge> maxTrackedLoginSources \<and> map_of m key = None \<and> length m \<ge> maxTrackedLoginSources
      then (m, False)
      else let w0 = (case map_of m key of None \<Rightarrow> \<lparr>aw_Count = 0, aw_ResetAt = zero_time\<rparr> | Some a \<Rightarrow> a);
               w1 = (if aw_ResetAt w0 < now then \<lparr>aw_Count = 0, aw_ResetAt = now + minute\<rparr> else w0);
               w = w1\<lparr>aw_Count := aw_Count w1 + 1\<rparr>
           in ((key, w) # clearAttempts key m, aw_Count w \<le> maxAttempts))"

(* src/internal/api/auth_handler.go 28-33 NewAuthHandler *)
definition effective_max_attempts :: "int \<Rightarrow> nat" where
  "effective_max_attempts n = (if n \<le> 0 then 10 else nat n)"

subsection \<open>Lemmas\<close>

lemma addCredential_accounts:
  assumes "addCredential cr u p r s = Inr s'" "r \<in> {RoleAdmin, RoleViewer}"
    and "\<forall>(n, h, q) \<in> set (as_credentials s). n \<noteq> '''' \<and> q \<in> {RoleAdmin, RoleViewer}"
  shows "(\<forall>(n, h, q) \<in> set (as_credentials s'). n \<noteq> '''' \<and> q \<in> {RoleAdmin, RoleViewer})
    \<and> as_enabled s' = as_enabled s \<and> as_tokenTTL s' = as_tokenTTL s"
  using assms by (auto simp: addCredential_def Let_def split: if_splits option.splits)

lemma NewAuthService_accounts:
  assumes "NewAuthService cr runes cfg = Inr s"
  shows "\<forall>(n, h, q) \<in> set (as_credentials s). n \<noteq> '''' \<and> q \<in> {RoleAdmin, RoleViewer}"
proof (cases "ac_Enabled cfg")
  case False
  with assms show ?thesis by (auto simp: NewAuthService_def Let_def)
next
  case True
  let ?s0 = "\<lparr>as_enabled = ac_Enabled cfg, as_credentials = [], as_secret = ac_TokenSecret cfg,
      as_tokenTTL = (if ac_TokenTTL cfg \<le> 0 then 12 * hour else ac_TokenTTL cfg)\<rparr>"
  obtain u s1 where s1: "addCredential cr u (ac_AdminPassword cfg) RoleAdmin ?s0 = Inr s1"
    "s = s1 \<or> addCredential cr (ac_ViewerUsername cfg) (ac_ViewerPassword cfg) RoleViewer s1 = Inr s"
    using assms True by (auto simp: NewAuthService_def Let_def bind_res_Inr split: if_splits)
  have s1ok: "\<forall>(n, h, q) \<in> set (as_credentials s1). n \<noteq> '''' \<and> q \<in> {RoleAdmin, RoleViewer}"
    using addCredential_accounts[OF s1(1)] by simp
  from s1(2) show ?thesis
  proof
    assume "addCredential cr (ac_ViewerUsername cfg) (ac_ViewerPassword cfg) RoleViewer s1 = Inr s"
    from addCredential_accounts[OF this _ s1ok] show ?thesis by simp
  next
    assume "s = s1"
    then show ?thesis using s1ok by (rule ssubst)
  qed
qed

lemma Split_sign:
  "Split (sign cr s c) (CHR ''.'') = [''v1'', base64_encode (cr_marshal cr c),
     base64_encode (cr_hmac cr (as_secret s) (''v1.'' @ base64_encode (cr_marshal cr c)))]"
proof -
  have s: "sign cr s c = ''v1'' @ CHR ''.'' # (base64_encode (cr_marshal cr c) @ CHR ''.'' #
      base64_encode (cr_hmac cr (as_secret s) (''v1.'' @ base64_encode (cr_marshal cr c))))"
    by (simp add: sign_def Let_def)
  have v: "CHR ''.'' \<notin> set ''v1''" by simp
  show ?thesis
    unfolding s Split_append[OF v] Split_append[OF base64_no_dot] Split_single[OF base64_no_dot] ..
qed

lemma Verify_sign:
  assumes "as_enabled s" "cr_unmarshal cr (cr_marshal cr c) = Some c" "length (sign cr s c) \<le> 4096"
  shows "Verify cr now (Some s) (sign cr s c) =
     (if cl_Subject c = '''' \<or> cl_ExpiresAt c \<le> unix now then Inl TokenExpired
      else if cl_Role c \<noteq> RoleAdmin \<and> cl_Role c \<noteq> RoleViewer then Inl InvalidTokenRole else Inr c)"
  using assms by (simp add: Verify_def Split_sign base64_roundtrip Let_def)

subsection \<open>Properties\<close>

text \<open>
  C34: A token issued at login is accepted, with the claims of the login, until the second it expires
  and refused as expired from then on; for any secret, any MAC function and any coding of the claims
  that decodes what it encodes, as long as the token fits the 4096 bytes a request may carry.
\<close>
theorem Login_Verify_roundtrip:
  assumes "NewAuthService cr runes cfg = Inr s" "Login cr now tid s u p = Inr (token, c)"
    and "cr_unmarshal cr (cr_marshal cr c) = Some c" "length token \<le> 4096"
  shows "Verify cr now' (Some s) token = (if unix now' < unix (now + as_tokenTTL s) then Inr c else Inl TokenExpired)
    \<and> cl_Subject c = u"
proof -
  have en: "as_enabled s" using assms(2) by (cases "as_enabled s") (simp_all add: Login_def)
  obtain h r where m: "map_of (as_credentials s) u = Some (h, r)"
    using assms(2) en by (cases "map_of (as_credentials s) u") (auto simp: Login_def)
  define c0 where "c0 = \<lparr>cl_Subject = u, cl_Role = r, cl_IssuedAt = unix now,
          cl_ExpiresAt = unix (now + as_tokenTTL s), cl_TokenID = tid\<rparr>"
  have "token = sign cr s c0 \<and> c = c0"
    using assms(2) by (auto simp: Login_def en m Let_def c0_def[symmetric] split: if_splits)
  then have tok: "token = sign cr s c" and c: "c = c0" by auto
  have acc: "u \<noteq> '''' \<and> (r = RoleAdmin \<or> r = RoleViewer)"
    using NewAuthService_accounts[OF assms(1)] map_of_SomeD[OF m] by fastforce
  have "Verify cr now' (Some s) token =
     (if cl_Subject c = '''' \<or> cl_ExpiresAt c \<le> unix now' then Inl TokenExpired
      else if cl_Role c \<noteq> RoleAdmin \<and> cl_Role c \<noteq> RoleViewer then Inl InvalidTokenRole else Inr c)"
    unfolding tok by (rule Verify_sign[OF en assms(3) assms(4)[unfolded tok]])
  moreover have "cl_Subject c = u" "cl_Role c = r" "cl_ExpiresAt c = unix (now + as_tokenTTL s)"
    by (simp_all add: c c0_def)
  ultimately show ?thesis using acc by auto
qed

definition toy_crypto :: "claims \<Rightarrow> string crypto" where
  "toy_crypto c = \<lparr>cr_hmac = (\<lambda>k m. take 4 k @ drop 3 m), cr_bcrypt = Some, cr_compare = (=),
     cr_marshal = cl_Subject, cr_unmarshal = (\<lambda>s. Some (c\<lparr>cl_Subject := s\<rparr>))\<rparr>"

text \<open>
  C35: A token is accepted by an enabled service only if it consists of exactly three parts, the
  first being \<open>v1\<close>, whose third decodes to the MAC of the first two under the service's secret, and
  whose second decodes to claims with a subject, one of the two roles and an expiry in the future.
  So two accepted tokens with the same first two parts carry the same claims, and a change of the
  payload needs a new MAC.
\<close>
theorem Verify_accepts_only_signed:
  assumes "as_enabled s"
  shows "Verify cr now (Some s) token = Inr c \<longleftrightarrow>
    (\<exists>body sig payload. token = ''v1.'' @ body @ ''.'' @ sig \<and> CHR ''.'' \<notin> set body \<and> CHR ''.'' \<notin> set sig
       \<and> length token \<le> 4096
       \<and> base64_decode sig = Some (cr_hmac cr (as_secret s) (''v1.'' @ body))
       \<and> base64_decode body = Some payload \<and> cr_unmarshal cr payload = Some c
       \<and> cl_Subject c \<noteq> '''' \<and> unix now < cl_ExpiresAt c \<and> cl_Role c \<in> {RoleAdmin, RoleViewer})"
    (is "?L \<longleftrightarrow> ?R")
proof
  assume L: ?L
  then obtain body sig where sp: "Split token (CHR ''.'') = [''v1'', body, sig]" and len: "length token \<le> 4096"
    using assms by (auto simp: Verify_def split: if_splits list.splits)
  have "token = Join [''v1'', body, sig] (CHR ''.'')" using Join_Split[of token "CHR ''.''"] sp by simp
  then have tk: "token = ''v1.'' @ body @ ''.'' @ sig" by simp
  have nd: "CHR ''.'' \<notin> set body" "CHR ''.'' \<notin> set sig"
    using Split_no_sep[of _ token "CHR ''.''"] sp by auto
  from L have rest: "base64_decode sig = Some (cr_hmac cr (as_secret s) (''v1.'' @ body))"
    "\<exists>payload. base64_decode body = Some payload \<and> cr_unmarshal cr payload = Some c
       \<and> cl_Subject c \<noteq> '''' \<and> unix now < cl_ExpiresAt c \<and> cl_Role c \<in> {RoleAdmin, RoleViewer}"
    using assms by (auto simp: Verify_def sp Let_def split: if_splits option.splits)
  from rest(2) obtain payload where pl: "base64_decode body = Some payload" "cr_unmarshal cr payload = Some c"
    "cl_Subject c \<noteq> ''''" "unix now < cl_ExpiresAt c" "cl_Role c \<in> {RoleAdmin, RoleViewer}" by blast
  show ?R by (intro exI conjI) (fact tk nd len rest(1) pl)+
next
  assume ?R
  then obtain body sig payload where r: "token = ''v1.'' @ body @ ''.'' @ sig" "CHR ''.'' \<notin> set body"
    "CHR ''.'' \<notin> set sig" "length token \<le> 4096"
    "base64_decode sig = Some (cr_hmac cr (as_secret s) (''v1.'' @ body))"
    "base64_decode body = Some payload" "cr_unmarshal cr payload = Some c"
    "cl_Subject c \<noteq> ''''" "unix now < cl_ExpiresAt c" "cl_Role c \<in> {RoleAdmin, RoleViewer}" by blast
  have tk: "token = ''v1'' @ CHR ''.'' # (body @ CHR ''.'' # sig)" using r(1) by simp
  have v: "CHR ''.'' \<notin> set ''v1''" by simp
  have "Split token (CHR ''.'') = [''v1'', body, sig]"
    unfolding tk Split_append[OF v] Split_append[OF r(2)] Split_single[OF r(3)] ..
  then show ?L using assms r(4-) by (auto simp: Verify_def Let_def)
qed

definition toy_claims :: claims where
  "toy_claims = \<lparr>cl_Subject = ''admin'', cl_Role = RoleAdmin, cl_IssuedAt = 100, cl_ExpiresAt = 160, cl_TokenID = ''t''\<rparr>"

definition toy_config :: auth_config where
  "toy_config = \<lparr>ac_Enabled = True, ac_AdminUsername = '''', ac_AdminPassword = ''longenough'',
     ac_ViewerUsername = '''', ac_ViewerPassword = '''',
     ac_TokenSecret = ''0123456789abcdef0123456789abcdef'', ac_TokenTTL = minute\<rparr>"

definition toy_service :: "string auth_service" where
  "toy_service = \<lparr>as_enabled = True, as_credentials = [(''admin'', ''longenough'', RoleAdmin)],
     as_secret = ''0123456789abcdef0123456789abcdef'', as_tokenTTL = minute\<rparr>"

lemma toy_trim: "TrimSpace ''admin'' = ''admin''" by (simp add: TrimSpace_printable printable_def)

lemma toy_times: "unix (100 * second + minute) = 160" "unix (100 * second) = 100" "unix (159 * second) = 159"
  by (simp_all add: unix_def minute_def second_def)

lemma toy_new: "NewAuthService (toy_crypto toy_claims) length toy_config = Inr toy_service"
  by (simp add: NewAuthService_def toy_config_def addCredential_def toy_trim toy_crypto_def toy_service_def
      Let_def minute_def second_def)

lemma toy_login: "Login (toy_crypto toy_claims) (100 * second) ''t'' toy_service ''admin'' ''longenough''
     = Inr (sign (toy_crypto toy_claims) toy_service toy_claims, toy_claims)"
  using toy_times by (simp add: Login_def toy_service_def toy_claims_def Let_def toy_crypto_def)

lemma toy_length: "length (sign (toy_crypto toy_claims) toy_service toy_claims) \<le> 4096"
  by (simp add: sign_def toy_crypto_def toy_service_def toy_claims_def Let_def)

lemma toy_json:
  "cr_unmarshal (toy_crypto toy_claims) (cr_marshal (toy_crypto toy_claims) toy_claims) = Some toy_claims"
  by (simp add: toy_crypto_def toy_claims_def)

theorem Login_Verify_roundtrip_witness:
  "Verify (toy_crypto toy_claims) (159 * second) (Some toy_service)
     (sign (toy_crypto toy_claims) toy_service toy_claims) = Inr toy_claims"
proof -
  have "unix (100 * second + as_tokenTTL toy_service) = 160"
    by (simp add: toy_service_def toy_times(1))
  then have "unix (159 * second) < unix (100 * second + as_tokenTTL toy_service)"
    unfolding toy_times(3) by simp
  with Login_Verify_roundtrip[OF toy_new toy_login toy_json toy_length, of "159 * second"] show ?thesis
    by (simp only: if_True simp_thms)
qed

theorem Verify_accepts_only_signed_witness:
  "\<exists>body sig. sign (toy_crypto toy_claims) toy_service toy_claims = ''v1.'' @ body @ ''.'' @ sig
     \<and> base64_decode sig = Some (cr_hmac (toy_crypto toy_claims) (as_secret toy_service) (''v1.'' @ body))"
proof -
  have e: "as_enabled toy_service" by (simp add: toy_service_def)
  have "Verify (toy_crypto toy_claims) (159 * second) (Some toy_service)
      (sign (toy_crypto toy_claims) toy_service toy_claims) = Inr toy_claims"
    using Verify_sign[OF e toy_json toy_length, of "159 * second"] toy_times by (simp add: toy_claims_def)
  from Verify_accepts_only_signed[OF e, THEN iffD1, OF this] show ?thesis by blast
qed

subsection \<open>The limiter's table\<close>

lemma map_of_filter_keep:
  "map_of m k = Some w \<Longrightarrow> P (k, w) \<Longrightarrow> map_of (filter P m) k = Some w"
  by (induction m) (auto split: if_splits)

lemma purge_keeps: "map_of m k = Some w \<Longrightarrow> now \<le> aw_ResetAt w \<Longrightarrow> map_of (purge now m) k = Some w"
  by (auto simp: purge_def intro: map_of_filter_keep)

lemma purge_distinct: "distinct (map fst m) \<Longrightarrow> distinct (map fst (purge now m))"
  by (simp add: purge_def distinct_map_filter)

lemma purge_sub: "distinct (map fst m) \<Longrightarrow> map_of (purge now m) k = Some w \<Longrightarrow> map_of m k = Some w"
  by (auto simp: purge_def split: if_splits dest!: map_of_SomeD)

lemma purge_length: "length (purge now m) \<le> length m"
  by (simp add: purge_def)

lemma clear_distinct: "distinct (map fst m) \<Longrightarrow> distinct (map fst (clearAttempts key m))"
  by (simp add: clearAttempts_def distinct_map_filter)

lemma clear_lookup: "map_of (clearAttempts key m) k = (if k = key then None else map_of m k)"
  by (induction m) (auto simp: clearAttempts_def)

lemma clear_length: "map_of m key \<noteq> None \<Longrightarrow> length (clearAttempts key m) < length m"
proof (induction m)
  case (Cons x m)
  have "length (clearAttempts key m) \<le> length m" by (simp add: clearAttempts_def)
  with Cons show ?case by (cases x) (auto split: if_splits simp: clearAttempts_def less_Suc_eq_le)
qed simp

lemma clear_length_le: "length (clearAttempts key m) \<le> length m"
  by (simp add: clearAttempts_def)

text \<open>An attempt is refused outright because the table is full, or counted in a window.\<close>
lemma allowAttempt_cases:
  obtains (full) "allowAttempt mx k t m = (purge t m, False)" "map_of (purge t m) k = None"
  | (fresh) w where "allowAttempt mx k t m = ((k, w) # clearAttempts k (purge t m), 1 \<le> mx)"
      "aw_Count w = 1" "zero_time < t \<longrightarrow> aw_ResetAt w = t + minute"
      "case map_of (purge t m) k of None \<Rightarrow> True | Some v \<Rightarrow> aw_ResetAt v < t"
      "length (purge t m) < maxTrackedLoginSources \<or> map_of (purge t m) k \<noteq> None"
  | (counted) v where "map_of (purge t m) k = Some v" "t \<le> aw_ResetAt v"
      "allowAttempt mx k t m = ((k, v\<lparr>aw_Count := aw_Count v + 1\<rparr>) # clearAttempts k (purge t m), aw_Count v + 1 \<le> mx)"
proof -
  have short: "length m < maxTrackedLoginSources \<Longrightarrow> length (purge t m) < maxTrackedLoginSources"
    using purge_length[of t m] by simp
  consider (a) "length m \<ge> maxTrackedLoginSources \<and> map_of (purge t m) k = None \<and> length (purge t m) \<ge> maxTrackedLoginSources"
    | (b) "\<not> (length m \<ge> maxTrackedLoginSources \<and> map_of (purge t m) k = None \<and> length (purge t m) \<ge> maxTrackedLoginSources)"
    by blast
  then show thesis
  proof cases
    case a
    then show thesis by (intro full) (simp_all add: allowAttempt_def Let_def)
  next
    case b
    then have sp: "length (purge t m) < maxTrackedLoginSources \<or> map_of (purge t m) k \<noteq> None"
      using short by force
    show thesis
    proof (cases "map_of (purge t m) k")
      case None
      show thesis
      proof (cases "zero_time < t")
        case True
        with None b sp fresh[of "\<lparr>aw_Count = 1, aw_ResetAt = t + minute\<rparr>"] show thesis
          by (simp add: allowAttempt_def Let_def)
      next
        case False
        with None b sp fresh[of "\<lparr>aw_Count = 1, aw_ResetAt = zero_time\<rparr>"] show thesis
          by (simp add: allowAttempt_def Let_def)
      qed
    next
      case (Some v)
      show thesis
      proof (cases "aw_ResetAt v < t")
        case True
        with Some b sp fresh[of "\<lparr>aw_Count = 1, aw_ResetAt = t + minute\<rparr>"] show thesis
          by (simp add: allowAttempt_def Let_def)
      next
        case False
        with Some b counted[of v] show thesis by (simp add: allowAttempt_def Let_def)
      qed
    qed
  qed
qed

lemma allowAttempt_distinct:
  "distinct (map fst m) \<Longrightarrow> distinct (map fst (fst (allowAttempt mx k t m)))"
proof (cases rule: allowAttempt_cases[of mx k t m])
  case full
  then show "distinct (map fst m) \<Longrightarrow> ?thesis" by (simp add: purge_distinct)
next
  case (fresh w)
  then show "distinct (map fst m) \<Longrightarrow> ?thesis"
    using clear_distinct[OF purge_distinct, of m k t] by (auto simp: clearAttempts_def)
next
  case (counted v)
  then show "distinct (map fst m) \<Longrightarrow> ?thesis"
    using clear_distinct[OF purge_distinct, of m k t] by (auto simp: clearAttempts_def)
qed

lemma allowAttempt_bounded:
  "length m \<le> maxTrackedLoginSources \<Longrightarrow> length (fst (allowAttempt mx k t m)) \<le> maxTrackedLoginSources"
proof (cases rule: allowAttempt_cases[of mx k t m])
  case full
  then show "length m \<le> maxTrackedLoginSources \<Longrightarrow> ?thesis" using purge_length[of t m] by simp
next
  case (fresh w)
  then show "length m \<le> maxTrackedLoginSources \<Longrightarrow> ?thesis"
    using purge_length[of t m] clear_length[of "purge t m" k] clear_length_le[of k "purge t m"] by auto
next
  case (counted v)
  then show "length m \<le> maxTrackedLoginSources \<Longrightarrow> ?thesis"
    using purge_length[of t m] clear_length[of "purge t m" k] by auto
qed

text \<open>A run of attempts, and how many of one source were let through.\<close>
fun run_attempts :: "nat \<Rightarrow> (string \<times> time) list \<Rightarrow> attempts \<Rightarrow> attempts" where
  "run_attempts mx [] m = m"
| "run_attempts mx ((k, t) # es) m = run_attempts mx es (fst (allowAttempt mx k t m))"

fun allowed_of :: "string \<Rightarrow> nat \<Rightarrow> (string \<times> time) list \<Rightarrow> attempts \<Rightarrow> nat" where
  "allowed_of key mx [] m = 0"
| "allowed_of key mx ((k, t) # es) m =
     (if k = key \<and> snd (allowAttempt mx k t m) then 1 else 0) + allowed_of key mx es (fst (allowAttempt mx k t m))"

text \<open>The window of a source over the minute from \<open>t0\<close>: not open yet, or open for all of it.\<close>
definition window_state :: "time \<Rightarrow> string \<Rightarrow> attempts \<Rightarrow> nat \<Rightarrow> bool" where
  "window_state t0 key m c \<longleftrightarrow> (case map_of m key of
     None \<Rightarrow> c = 0
   | Some w \<Rightarrow> (aw_ResetAt w < t0 \<and> c = 0) \<or> (t0 + minute \<le> aw_ResetAt w \<and> c = aw_Count w))"

lemma window_other:
  assumes "distinct (map fst m)" "window_state t0 key m c" "k \<noteq> key" "t0 \<le> t" "t \<le> t0 + minute"
  shows "window_state t0 key (fst (allowAttempt mx k t m)) c \<or> window_state t0 key (fst (allowAttempt mx k t m)) 0 \<and> c = 0"
proof -
  have "map_of (fst (allowAttempt mx k t m)) key = map_of (purge t m) key"
    using assms(3) by (cases rule: allowAttempt_cases[of mx k t m]) (simp_all add: clear_lookup)
  moreover have "map_of (purge t m) key = map_of m key
      \<or> (map_of (purge t m) key = None \<and> (\<exists>w. map_of m key = Some w \<and> aw_ResetAt w < t))"
  proof (cases "map_of (purge t m) key")
    case None
    then show ?thesis using purge_keeps[of m key _ t] by (cases "map_of m key") force+
  next
    case (Some w)
    with purge_sub[OF assms(1)] show ?thesis by simp
  qed
  ultimately show ?thesis
    using assms(2,5) by (auto simp: window_state_def split: option.splits)
qed

lemma allowed_in_minute:
  assumes "distinct (map fst m)" "window_state t0 key m c" "zero_time < t0"
    and "list_all (\<lambda>e. t0 \<le> snd e \<and> snd e \<le> t0 + minute) es"
  shows "allowed_of key mx es m + c \<le> max mx c"
  using assms
proof (induction es arbitrary: m c)
  case (Cons e es)
  obtain k t where e: "e = (k, t)" by (cases e)
  have t: "t0 \<le> t" "t \<le> t0 + minute" "zero_time < t" using Cons.prems e by auto
  let ?m = "fst (allowAttempt mx k t m)"
  have d: "distinct (map fst ?m)" by (rule allowAttempt_distinct[OF Cons.prems(1)])
  have es: "list_all (\<lambda>e. t0 \<le> snd e \<and> snd e \<le> t0 + minute) es" using Cons.prems(4) by simp
  show ?case
  proof (cases "k = key")
    case False
    from window_other[OF Cons.prems(1,2) False t(1,2), of mx] have "window_state t0 key ?m c" by auto
    from Cons.IH[OF d this Cons.prems(3) es] False show ?thesis by (simp add: e)
  next
    case True
    show ?thesis
    proof (cases rule: allowAttempt_cases[of mx k t m])
      case full
      have "c = 0 \<or> aw_ResetAt (the (map_of m key)) < t"
        using full(2) purge_keeps[of m key _ t] Cons.prems(2) True
        by (auto simp: window_state_def not_le split: option.splits)
      with Cons.prems(2) t(2) have "c = 0"
        by (auto simp: window_state_def split: option.splits)
      moreover have "window_state t0 key ?m 0" using full True by (simp add: window_state_def)
      ultimately show ?thesis using Cons.IH[OF d _ Cons.prems(3) es, of 0] full by (simp add: e)
    next
      case (fresh w)
      have c: "c = 0"
      proof (cases "map_of m key")
        case (Some v)
        show ?thesis
        proof (cases "t \<le> aw_ResetAt v")
          case True
          with Some fresh(4) \<open>k = key\<close> show ?thesis using purge_keeps[of m key v t] by simp
        qed (use Some Cons.prems(2) t(2) in \<open>auto simp: window_state_def\<close>)
      qed (use Cons.prems(2) in \<open>simp add: window_state_def\<close>)
      have "window_state t0 key ?m 1" using fresh(1-3) t True by (simp add: window_state_def)
      from Cons.IH[OF d this Cons.prems(3) es] fresh(1) c True show ?thesis by (auto simp: e)
    next
      case (counted v)
      have v: "map_of m key = Some v" using purge_sub[OF Cons.prems(1)] counted(1) True by simp
      with Cons.prems(2) counted(2) t(1) have c: "c = aw_Count v" "t0 + minute \<le> aw_ResetAt v"
        by (auto simp: window_state_def)
      have "window_state t0 key ?m (aw_Count v + 1)"
        using counted(3) c(2) True by (simp add: window_state_def)
      from Cons.IH[OF d this Cons.prems(3) es] counted(3) c(1) True show ?thesis by (auto simp: e)
    qed
  qed
qed simp



end
