(* ===== verification/RouteRepo.thy ===== *)
theory RouteRepo
  imports WatchRepo
begin

section \<open>The remote-route repository\<close>

text \<open>
  \<open>internal/repository/remote_route_repository.go\<close>: the routes, their scan lease, the index of
  remote files, and what a changed destination does to the linked watch folders.  The scan lease is
  another instance of the lease interface, here without any operation that revokes it: edits and
  deletions are refused while a scan runs.
\<close>

subsection \<open>Reads\<close>

text \<open>
  The query also selects the number of linked folders as \<open>watch_folder_count\<close>; the field it is meant
  for is tagged \<open>gorm:"-"\<close>, which takes part in no read or write, so a route is its columns only.
\<close>
(* src/internal/repository/remote_route_repository.go 51-60 remoteRouteRepository.GetByID *)
definition GetByID_route :: "fault \<Rightarrow> nat \<Rightarrow> db \<Rightarrow> (repo_error, remote_route) result" where
  "GetByID_route flt i s =
     (if flt 0 then Inl (ErrDB 0)
      else case route_by i s of None \<Rightarrow> Inl ErrNotFound | Some r \<Rightarrow> Inr r)"

(* src/internal/repository/remote_route_repository.go 62-85 remoteRouteRepository.List *)
definition List_routes ::
    "(string \<Rightarrow> string \<Rightarrow> bool) \<Rightarrow> fault \<Rightarrow> string \<Rightarrow> route_status option \<Rightarrow> nat \<Rightarrow> nat \<Rightarrow> db
      \<Rightarrow> (repo_error, remote_route list \<times> nat) result" where
  "List_routes like flt keyword status offset limit s =
     (let q = filter (\<lambda>r. case status of None \<Rightarrow> True | Some st \<Rightarrow> rr_Status r = st)
                (filter (\<lambda>r. keyword = [] \<or> like keyword (rr_Name r) \<or> like keyword (rr_RemoteName r)
                          \<or> like keyword (rr_RemotePath r)) (routes s));
          sorted = sort_key (\<lambda>r. - rr_CreatedAt r) (sort_key (\<lambda>r. - int (rr_ID r)) q)
      in if flt 0 then Inl (ErrDB 0)
         else if flt 1 then Inl (ErrDB 1)
         else Inr (if limit > 0 then take limit (drop offset sorted) else sorted, length q))"

definition route_lease_free :: "time \<Rightarrow> remote_route \<Rightarrow> bool" where
  "route_lease_free now r \<longleftrightarrow> (case rr_ScanLeaseExpiresAt r of None \<Rightarrow> True | Some e \<Rightarrow> e \<le> now)"

definition route_due :: "time \<Rightarrow> remote_route \<Rightarrow> bool" where
  "route_due now r \<longleftrightarrow> rr_Enabled r \<and> (case rr_NextScanAt r of None \<Rightarrow> True | Some n \<Rightarrow> n \<le> now)
     \<and> route_lease_free now r"

(* src/internal/repository/remote_route_repository.go 222-232 remoteRouteRepository.ListEnabledForScan *)
definition ListEnabledForScan_route :: "fault \<Rightarrow> time \<Rightarrow> db \<Rightarrow> (repo_error, remote_route list) result" where
  "ListEnabledForScan_route flt now s =
     (if flt 0 then Inl (ErrDB 0)
      else Inr (sort_key (\<lambda>r. case rr_NextScanAt r of Some n \<Rightarrow> n | None \<Rightarrow> rr_CreatedAt r)
                  (sort_key rr_ID (filter (route_due now) (routes s)))))"

text \<open>\<open>collate\<close>: the order of names in the column's collation.\<close>
(* src/internal/repository/remote_route_repository.go 341-358 remoteRouteRepository.ListFileRecords *)
definition ListFileRecords ::
    "(string \<Rightarrow> string) \<Rightarrow> (string \<Rightarrow> 'c::linorder) \<Rightarrow> fault \<Rightarrow> nat \<Rightarrow> string \<Rightarrow> nat \<Rightarrow> nat \<Rightarrow> db
      \<Rightarrow> (repo_error, remote_file list \<times> nat) result" where
  "ListFileRecords sha256 collate flt routeID parentPath offset limit s =
     (let q = filter (\<lambda>f. rf_RemoteRouteID f = routeID \<and> rf_ParentHash f = sha256 parentPath
                        \<and> rf_ParentPath f = parentPath \<and> rf_MissingAt f = None) (remote_files s);
          sorted = sort_key (\<lambda>f. if rf_IsDir f then 0 else (1::nat))
                     (sort_key (\<lambda>f. collate (rf_Name f)) (sort_key rf_ID q))
      in if flt 0 then Inl (ErrDB 0)
         else if flt 1 then Inl (ErrDB 1)
         else Inr (if limit > 0 then take limit (drop offset sorted) else sorted, length q))"

subsection \<open>The scan lease\<close>

definition update_routes :: "(remote_route \<Rightarrow> bool) \<Rightarrow> (remote_route \<Rightarrow> remote_route) \<Rightarrow> db \<Rightarrow> db" where
  "update_routes p u s = s\<lparr>routes := update_where p u (routes s)\<rparr>"

definition claim_route_row :: "time \<Rightarrow> string \<Rightarrow> time \<Rightarrow> dur \<Rightarrow> remote_route \<Rightarrow> remote_route" where
  "claim_route_row now owner startedAt lease r =
     r\<lparr>rr_Status := RemoteRouteStatusScanning, rr_LastError := '''', rr_LastScanStartedAt := Some startedAt,
       rr_ScanLeaseOwner := owner, rr_ScanLeaseExpiresAt := Some (startedAt + lease), rr_UpdatedAt := now\<rparr>"

(* src/internal/repository/remote_route_repository.go 234-249 remoteRouteRepository.ClaimForScan *)
definition ClaimForScan_route ::
    "fault \<Rightarrow> time \<Rightarrow> nat \<Rightarrow> string \<Rightarrow> time \<Rightarrow> time \<Rightarrow> dur \<Rightarrow> db \<Rightarrow> db \<times> (repo_error, bool) result" where
  "ClaimForScan_route flt now i owner expectedUpdatedAt startedAt leaseDuration s =
     (if flt 0 then (s, Inl (ErrDB 0))
      else let p = (\<lambda>r. rr_ID r = i \<and> route_due startedAt r
                        \<and> (expectedUpdatedAt = zero_time \<or> rr_UpdatedAt r = expectedUpdatedAt));
               u = claim_route_row now owner startedAt leaseDuration
           in (update_routes p u s, Inr (0 < rows_affected p u (routes s))))"

definition renew_route_row :: "time \<Rightarrow> dur \<Rightarrow> remote_route \<Rightarrow> remote_route" where
  "renew_route_row now lease r = r\<lparr>rr_ScanLeaseExpiresAt := Some (now + lease), rr_UpdatedAt := now\<rparr>"

(* src/internal/repository/remote_route_repository.go 251-259 remoteRouteRepository.RenewScanLease *)
definition RenewScanLease_route ::
    "fault \<Rightarrow> time \<Rightarrow> nat \<Rightarrow> string \<Rightarrow> dur \<Rightarrow> db \<Rightarrow> db \<times> (repo_error, bool) result" where
  "RenewScanLease_route flt now i owner leaseDuration s =
     (if flt 0 then (s, Inl (ErrDB 0))
      else let p = (\<lambda>r. rr_ID r = i \<and> rr_Status r = RemoteRouteStatusScanning \<and> rr_ScanLeaseOwner r = owner);
               u = renew_route_row now leaseDuration
           in (update_routes p u s, Inr (0 < rows_affected p u (routes s))))"

text \<open>The columns the scanner passes; a success brings its time, the number of files and their bytes.\<close>
(* src/internal/scheduler/remote_route_scanner.go 195-207 remoteRouteScanner.scanRoute *)
record route_columns =
  rc_Status :: route_status
  rc_LastError :: string
  rc_FinishedAt :: time
  rc_DurationMs :: int
  rc_NextScanAt :: "time option"
  rc_Success :: "(time \<times> int \<times> int) option"

definition finish_route_row :: "time \<Rightarrow> route_columns \<Rightarrow> remote_route \<Rightarrow> remote_route" where
  "finish_route_row now c r =
     (let r' = r\<lparr>rr_Status := (if rr_Enabled r then rc_Status c else RemoteRouteStatusDisabled),
                 rr_LastError := rc_LastError c, rr_LastScanFinishedAt := Some (rc_FinishedAt c),
                 rr_LastScanDurationMs := rc_DurationMs c, rr_NextScanAt := rc_NextScanAt c,
                 rr_ScanLeaseOwner := '''', rr_ScanLeaseExpiresAt := None, rr_UpdatedAt := now\<rparr>
      in case rc_Success c of
           None \<Rightarrow> r'
         | Some (at, n, bytes) \<Rightarrow>
             r'\<lparr>rr_LastScanSuccessAt := Some at, rr_TotalFileCount := n, rr_TotalFileSize := bytes\<rparr>)"

(* src/internal/repository/remote_route_repository.go 261-277 remoteRouteRepository.FinishScan *)
definition FinishScan_route ::
    "fault \<Rightarrow> time \<Rightarrow> nat \<Rightarrow> string \<Rightarrow> route_columns \<Rightarrow> db \<Rightarrow> db \<times> (finish_error, unit) result" where
  "FinishScan_route flt now i owner c s =
     (if flt 0 then (s, Inl (FinishDB 0))
      else let p = (\<lambda>r. rr_ID r = i \<and> rr_ScanLeaseOwner r = owner); u = finish_route_row now c
           in (update_routes p u s,
               if rows_affected p u (routes s) = 0 then Inl ScanLeaseLost else Inr ()))"

definition schedule_route_row :: "time \<Rightarrow> remote_route \<Rightarrow> remote_route" where
  "schedule_route_row now r =
     r\<lparr>rr_NextScanAt := Some now, rr_Status := RemoteRouteStatusPending, rr_UpdatedAt := now\<rparr>"

(* src/internal/repository/remote_route_repository.go 279-301 remoteRouteRepository.ScheduleScan *)
definition ScheduleScan :: "fault \<Rightarrow> time \<Rightarrow> nat \<Rightarrow> db \<Rightarrow> db \<times> (repo_error, unit) result" where
  "ScheduleScan flt now i s =
     (if flt 0 then (s, Inl (ErrDB 0))
      else let p = (\<lambda>r. rr_ID r = i \<and> rr_Enabled r \<and> route_lease_free now r); u = schedule_route_row now
           in (update_routes p u s,
               if rows_affected p u (routes s) = 0 then
                 (if flt 1 then Inl (ErrDB 1)
                  else case route_by i s of
                         None \<Rightarrow> Inl ErrNotFound
                       | Some r \<Rightarrow> Inl ErrConflict)
               else Inr ()))"

(* src/internal/repository/remote_route_repository.go 303-312 remoteRouteRepository.ScheduleAllScans *)
definition ScheduleAllScans :: "fault \<Rightarrow> time \<Rightarrow> db \<Rightarrow> db \<times> (repo_error, nat) result" where
  "ScheduleAllScans flt now s =
     (if flt 0 then (s, Inl (ErrDB 0))
      else let p = (\<lambda>r. rr_Enabled r \<and> route_lease_free now r); u = schedule_route_row now
           in (update_routes p u s, Inr (rows_affected p u (routes s))))"

subsection \<open>Configuration changes\<close>

text \<open>The unique indexes on \<open>name\<close> and \<open>route_key\<close>.\<close>
definition route_taken :: "nat \<Rightarrow> remote_route \<Rightarrow> db \<Rightarrow> bool" where
  "route_taken i r s \<longleftrightarrow>
     (\<exists>x \<in> set (routes s). rr_ID x \<noteq> i \<and> (rr_Name x = rr_Name r \<or> rr_RouteKey x = rr_RouteKey r))"

text \<open>The insert gives a zero field its default: \<open>enabled\<close> (true) and \<open>scan_interval_seconds\<close> (3600).\<close>
(* src/internal/model/remote_route.go 22-26 RemoteRoute *)
definition route_defaults :: "remote_route \<Rightarrow> remote_route" where
  "route_defaults r =
     r\<lparr>rr_Enabled := True,
       rr_ScanIntervalSeconds := (if rr_ScanIntervalSeconds r = 0 then 3600 else rr_ScanIntervalSeconds r)\<rparr>"

(* src/internal/repository/remote_route_repository.go 39-44 remoteRouteRepository.Create *)
definition Create_route :: "fault \<Rightarrow> time \<Rightarrow> remote_route \<Rightarrow> db \<Rightarrow> db \<times> (repo_error, remote_route) result" where
  "Create_route flt now r s =
     (if flt 0 then (s, Inl (ErrDB 0))
      else if route_taken 0 r s then (s, Inl ErrConflict)
      else let r' = (route_defaults r)\<lparr>rr_ID := next_route s, rr_CreatedAt := now, rr_UpdatedAt := now\<rparr>
           in (s\<lparr>routes := routes s @ [r'], next_route := next_route s + 1\<rparr>, Inr r'))"

definition lease_running :: "time \<Rightarrow> time option \<Rightarrow> bool" where
  "lease_running now expires \<longleftrightarrow> (case expires of None \<Rightarrow> True | Some e \<Rightarrow> e > now)"

definition route_config_row :: "time \<Rightarrow> remote_route \<Rightarrow> remote_route \<Rightarrow> remote_route" where
  "route_config_row now r old =
     old\<lparr>rr_Name := rr_Name r, rr_RouteKey := rr_RouteKey r, rr_RemoteName := rr_RemoteName r,
         rr_RemotePath := rr_RemotePath r, rr_Enabled := rr_Enabled r,
         rr_ScanIntervalSeconds := rr_ScanIntervalSeconds r,
         rr_Status := (if rr_Enabled r then rr_Status r else RemoteRouteStatusDisabled),
         rr_NextScanAt := (if rr_Enabled r then rr_NextScanAt r else None), rr_UpdatedAt := now\<rparr>"

text \<open>The tasks of the linked folders: running ones are asked to stop, queued ones end at once.\<close>
(* src/internal/repository/remote_route_repository.go 164-176 remoteRouteRepository.Update *)
definition cancel_linked_tasks :: "time \<Rightarrow> nat list \<Rightarrow> db \<Rightarrow> db" where
  "cancel_linked_tasks now wids s =
     update_tasks (\<lambda>t. task_WatchFolderID t \<in> set wids
                      \<and> task_Status t \<in> {TaskStatusPending, TaskStatusPaused, TaskStatusFailed})
       (cancel_queued_row now ''remote route changed'')
       (update_tasks (\<lambda>t. task_WatchFolderID t \<in> set wids \<and> task_Status t = TaskStatusRunning)
         (ask_running_row now) s)"

text \<open>What moving the route does to its index, the linked folders, their snapshots and tasks.\<close>
(* src/internal/repository/remote_route_repository.go 149-177 remoteRouteRepository.Update *)
definition move_linked :: "time \<Rightarrow> remote_route \<Rightarrow> nat list \<Rightarrow> db \<Rightarrow> db" where
  "move_linked now r wids s =
     (let s1 = s\<lparr>remote_files := update_where (\<lambda>f. rf_RemoteRouteID f = rr_ID r \<and> rf_MissingAt f = None)
                   (\<lambda>f. f\<lparr>rf_MissingAt := Some now, rf_UpdatedAt := now\<rparr>) (remote_files s)\<rparr>
      in if wids = [] then s1
         else cancel_linked_tasks now wids
           (update_folders (\<lambda>f. wf_ID f \<in> set wids)
              (\<lambda>f. f\<lparr>wf_RemoteName := rr_RemoteName r, wf_RemotePath := rr_RemotePath r,
                     wf_NextScanAt := Some now, wf_UpdatedAt := now\<rparr>)
              (s1\<lparr>files := update_where (\<lambda>f. fr_WatchFolderID f \<in> set wids)
                    (\<lambda>f. f\<lparr>fr_UploadedAt := None, fr_UpdatedAt := now\<rparr>) (files s1)\<rparr>)))"

definition linked_folders :: "nat \<Rightarrow> db \<Rightarrow> watch_folder list" where
  "linked_folders i s = filter (\<lambda>f. wf_RemoteRouteID f = i) (folders s)"

text \<open>
  The transaction: the locked row (call 1), the update (2); for a changed destination the linked
  folders (3), the index (4), and with linked folders their update and that of their snapshots and
  tasks (5 to 8); the commit (9).
\<close>
(* src/internal/repository/remote_route_repository.go 87-183 remoteRouteRepository.Update *)
definition Update_route ::
    "fault \<Rightarrow> time \<Rightarrow> remote_route \<Rightarrow> bool \<Rightarrow> db \<Rightarrow> db \<times> (repo_error, unit) result" where
  "Update_route flt now r destinationChanged s =
     (let i = rr_ID r in
      if flt 0 then (s, Inl (ErrDB 0))
      else if flt 1 then (s, Inl (ErrDB 1))
      else case route_by i s of
        None \<Rightarrow> (s, Inl ErrNotFound)
      | Some current \<Rightarrow>
          if rr_Status current = RemoteRouteStatusScanning \<and> lease_running now (rr_ScanLeaseExpiresAt current)
          then (s, Inl ErrConflict)
          else if rr_UpdatedAt r \<noteq> zero_time \<and> rr_UpdatedAt current \<noteq> rr_UpdatedAt r then (s, Inl ErrConflict)
          else if flt 2 then (s, Inl (ErrDB 2))
          else if route_taken i r s then (s, Inl ErrConflict)
          else let s1 = update_routes (\<lambda>x. rr_ID x = i) (route_config_row now r) s;
                   linked = linked_folders i s; wids = map wf_ID linked in
            if \<not> destinationChanged then (if flt 9 then (s, Inl (ErrDB 9)) else (s1, Inr ()))
            else if flt 3 then (s, Inl (ErrDB 3))
            else if \<exists>f \<in> set linked. wf_Status f = WatchFolderStatusDetecting \<and> lease_running now (wf_ScanLeaseExpiresAt f)
            then (s, Inl ErrConflict)
            else if flt 4 then (s, Inl (ErrDB 4))
            else if wids \<noteq> [] \<and> flt 5 then (s, Inl (ErrDB 5))
            else if wids \<noteq> [] \<and> flt 6 then (s, Inl (ErrDB 6))
            else if wids \<noteq> [] \<and> flt 7 then (s, Inl (ErrDB 7))
            else if wids \<noteq> [] \<and> flt 8 then (s, Inl (ErrDB 8))
            else if flt 9 then (s, Inl (ErrDB 9))
            else (move_linked now r wids s1, Inr ()))"

(* src/internal/repository/remote_route_repository.go 185-220 remoteRouteRepository.Delete *)
definition Delete_route :: "fault \<Rightarrow> time \<Rightarrow> nat \<Rightarrow> db \<Rightarrow> db \<times> (repo_error, unit) result" where
  "Delete_route flt now i s =
     (if flt 0 then (s, Inl (ErrDB 0))
      else if flt 1 then (s, Inl (ErrDB 1))
      else case route_by i s of
        None \<Rightarrow> (s, Inl ErrNotFound)
      | Some r \<Rightarrow>
          if rr_Status r = RemoteRouteStatusScanning \<and> lease_running now (rr_ScanLeaseExpiresAt r)
          then (s, Inl ErrConflict)
          else if flt 2 then (s, Inl (ErrDB 2))
          else if linked_folders i s \<noteq> [] then (s, Inl ErrConflict)
          else if flt 3 then (s, Inl (ErrDB 3))
          else if flt 4 then (s, Inl (ErrDB 4))
          else if flt 5 then (s, Inl (ErrDB 5))
          else (s\<lparr>remote_files := delete_where (\<lambda>f. rf_RemoteRouteID f = i) (remote_files s),
                  routes := delete_where (\<lambda>x. rr_ID x = i) (routes s)\<rparr>, Inr ()))"

subsection \<open>The index of remote files\<close>

definition index_columns :: "time \<Rightarrow> remote_file \<Rightarrow> remote_file \<Rightarrow> remote_file" where
  "index_columns now f old =
     old\<lparr>rf_Path := rf_Path f, rf_ParentHash := rf_ParentHash f, rf_ParentPath := rf_ParentPath f,
         rf_Name := rf_Name f, rf_IsDir := rf_IsDir f, rf_Size := rf_Size f, rf_ModTime := rf_ModTime f,
         rf_MimeType := rf_MimeType f, rf_LastSeenAt := rf_LastSeenAt f, rf_MissingAt := rf_MissingAt f,
         rf_UpdatedAt := now\<rparr>"

definition same_entry :: "remote_file \<Rightarrow> remote_file \<Rightarrow> bool" where
  "same_entry f x \<longleftrightarrow> rf_RemoteRouteID x = rf_RemoteRouteID f \<and> rf_PathHash x = rf_PathHash f"

text \<open>One row of the insert: a conflict on the unique index of route and hash updates the stored row.\<close>
definition upsert_entry :: "time \<Rightarrow> remote_file \<Rightarrow> db \<Rightarrow> db" where
  "upsert_entry now f s =
     (if \<exists>x \<in> set (remote_files s). same_entry f x
      then s\<lparr>remote_files := update_where (same_entry f) (index_columns now f) (remote_files s)\<rparr>
      else s\<lparr>remote_files := remote_files s @
               [f\<lparr>rf_ID := next_remote_file s, rf_CreatedAt := now, rf_UpdatedAt := now\<rparr>],
             next_remote_file := next_remote_file s + 1\<rparr>)"

text \<open>More than one batch runs in a transaction, so a failing batch leaves nothing behind.\<close>
(* src/internal/repository/remote_route_repository.go 314-329 remoteRouteRepository.UpsertFileRecords *)
definition UpsertFileRecords ::
    "fault \<Rightarrow> time \<Rightarrow> remote_file list \<Rightarrow> int \<Rightarrow> db \<Rightarrow> db \<times> (repo_error, unit) result" where
  "UpsertFileRecords flt now records batchSize s =
     (if records = [] then (s, Inr ())
      else let bs = batches (effective_batch batchSize) records in
        case find flt [0..<length bs] of
          Some k \<Rightarrow> (s, Inl (ErrDB k))
        | None \<Rightarrow> (fold (fold (upsert_entry now)) bs s, Inr ()))"

definition unseen_since :: "nat \<Rightarrow> time \<Rightarrow> remote_file \<Rightarrow> bool" where
  "unseen_since routeID scanStarted f \<longleftrightarrow> rf_RemoteRouteID f = routeID \<and>
     (rf_MissingAt f \<noteq> None \<or> (case rf_LastSeenAt f of None \<Rightarrow> True | Some t \<Rightarrow> t < scanStarted))"

(* src/internal/repository/remote_route_repository.go 331-339 remoteRouteRepository.DeleteUnseenFileRecords *)
definition DeleteUnseenFileRecords :: "fault \<Rightarrow> nat \<Rightarrow> time \<Rightarrow> db \<Rightarrow> db \<times> (repo_error, nat) result" where
  "DeleteUnseenFileRecords flt routeID scanStarted s =
     (if flt 0 then (s, Inl (ErrDB 0))
      else let p = unseen_since routeID scanStarted
           in (s\<lparr>remote_files := delete_where p (remote_files s)\<rparr>, Inr (length (filter p (remote_files s)))))"


subsection \<open>The scan lease as a lease\<close>

datatype route_op =
    ROpClaim nat string time dur time
  | ROpRenew nat string dur
  | ROpFinish nat string route_columns
  | ROpSchedule nat
  | ROpScheduleAll
  | ROpCreate remote_route
  | ROpUpdate remote_route bool
  | ROpDelete nat
  | ROpUpsert "remote_file list" int
  | ROpDeleteUnseen nat time

text \<open>As for folders, a claim decides by the reading it passes on and stamps the row with a later one.\<close>
fun route_step :: "time \<Rightarrow> fault \<times> route_op \<Rightarrow> db \<Rightarrow> db" where
  "route_step now (flt, ROpClaim i w expd d upd) s = fst (ClaimForScan_route flt upd i w expd now d s)"
| "route_step now (flt, ROpRenew i w d) s = fst (RenewScanLease_route flt now i w d s)"
| "route_step now (flt, ROpFinish i w c) s = fst (FinishScan_route flt now i w c s)"
| "route_step now (flt, ROpSchedule i) s = fst (ScheduleScan flt now i s)"
| "route_step now (flt, ROpScheduleAll) s = fst (ScheduleAllScans flt now s)"
| "route_step now (flt, ROpCreate r) s = fst (Create_route flt now r s)"
| "route_step now (flt, ROpUpdate r dest) s = fst (Update_route flt now r dest s)"
| "route_step now (flt, ROpDelete i) s = fst (Delete_route flt now i s)"
| "route_step now (flt, ROpUpsert fs n) s = fst (UpsertFileRecords flt now fs n s)"
| "route_step now (flt, ROpDeleteUnseen i t) s = fst (DeleteUnseenFileRecords flt i t s)"

fun route_actor :: "fault \<times> route_op \<Rightarrow> string option" where
  "route_actor (_, ROpClaim _ w _ _ _) = Some w"
| "route_actor (_, ROpRenew _ w _) = Some w"
| "route_actor (_, ROpFinish _ w _) = Some w"
| "route_actor _ = None"

fun route_revokes :: "fault \<times> route_op \<Rightarrow> nat \<Rightarrow> bool" where
  "route_revokes (_, ROpDelete j) i = (j = i)"
| "route_revokes _ _ = False"

fun route_okop :: "fault \<times> route_op \<Rightarrow> bool" where
  "route_okop (_, ROpClaim _ w _ _ _) = (w \<noteq> '''')"
| "route_okop (_, ROpRenew _ w _) = (w \<noteq> '''')"
| "route_okop (_, ROpFinish _ w _) = (w \<noteq> '''')"
| "route_okop (_, ROpCreate r) = (rr_ScanLeaseOwner r = '''')"
| "route_okop _ = True"

definition routes_inv :: "db \<Rightarrow> bool" where
  "routes_inv s \<longleftrightarrow> distinct (map rr_ID (routes s)) \<and> (\<forall>r \<in> set (routes s). rr_ID r < next_route s)"

definition route_lease :: "db \<Rightarrow> nat \<Rightarrow> (string \<times> time) option" where
  "route_lease s i =
     (case route_by i s of
        None \<Rightarrow> None
      | Some r \<Rightarrow> if rr_ScanLeaseOwner r = '''' then None
                  else map_option (Pair (rr_ScanLeaseOwner r)) (rr_ScanLeaseExpiresAt r))"

lemma route_lease_Some:
  "route_lease s i = Some (w, e) \<longleftrightarrow> w \<noteq> '''' \<and> (\<exists>r. route_by i s = Some r
     \<and> rr_ScanLeaseOwner r = w \<and> rr_ScanLeaseExpiresAt r = Some e)"
  by (auto simp: route_lease_def split: option.splits)

lemmas route_rows = claim_route_row_def renew_route_row_def finish_route_row_def route_config_row_def
  schedule_route_row_def

lemma route_row_ids [simp]:
  "rr_ID (claim_route_row n w st d r) = rr_ID r" "rr_ID (renew_route_row n d r) = rr_ID r"
  "rr_ID (finish_route_row n c r) = rr_ID r" "rr_ID (route_config_row n g r) = rr_ID r"
  "rr_ID (schedule_route_row n r) = rr_ID r"
  by (simp_all add: route_rows Let_def split: option.split)

lemma finish_route_lease [simp]:
  "rr_ScanLeaseOwner (finish_route_row n c r) = ''''" "rr_ScanLeaseExpiresAt (finish_route_row n c r) = None"
  by (simp_all add: finish_route_row_def Let_def split: option.split)

lemma route_by_update:
  "(\<And>r. rr_ID (u r) = rr_ID r) \<Longrightarrow>
     route_by i (update_routes p u s) = map_option (\<lambda>r. if p r then u r else r) (route_by i s)"
  by (simp add: route_by_def update_routes_def first_where_update_key)

lemma route_by_cong: "routes s = routes s' \<Longrightarrow> route_by i s = route_by i s'"
  by (simp add: route_by_def)

lemma routes_inv_update:
  "(\<And>r. rr_ID (u r) = rr_ID r) \<Longrightarrow> routes_inv s \<Longrightarrow> routes_inv (update_routes p u s)"
  by (auto simp: routes_inv_def update_routes_def update_where_cong_map set_update_where)

lemma route_by_id: "route_by i s = Some r \<Longrightarrow> rr_ID r = i"
  by (simp add: route_by_Some)

subsubsection \<open>The route table after the operations that may leave it alone\<close>

lemma cancel_linked_routes [simp]:
  "routes (cancel_linked_tasks n ws s) = routes s" "next_route (cancel_linked_tasks n ws s) = next_route s"
  by (simp_all add: cancel_linked_tasks_def update_tasks_def)

lemma move_linked_routes [simp]:
  "routes (move_linked n r ws s) = routes s" "next_route (move_linked n r ws s) = next_route s"
  by (simp_all add: move_linked_def Let_def update_folders_def)

lemma upsert_entry_routes [simp]:
  "routes (upsert_entry n f s) = routes s" "next_route (upsert_entry n f s) = next_route s"
  "folders (upsert_entry n f s) = folders s" "next_folder (upsert_entry n f s) = next_folder s"
  by (simp_all add: upsert_entry_def)

lemma upsert_batch_routes [simp]:
  "routes (fold (upsert_entry n) fs s) = routes s \<and> next_route (fold (upsert_entry n) fs s) = next_route s
    \<and> folders (fold (upsert_entry n) fs s) = folders s \<and> next_folder (fold (upsert_entry n) fs s) = next_folder s"
  by (induction fs arbitrary: s) auto

lemma upsert_batches_routes [simp]:
  "routes (fold (fold (upsert_entry n)) bs s) = routes s
    \<and> next_route (fold (fold (upsert_entry n)) bs s) = next_route s
    \<and> folders (fold (fold (upsert_entry n)) bs s) = folders s
    \<and> next_folder (fold (fold (upsert_entry n)) bs s) = next_folder s"
  by (induction bs arbitrary: s) auto

lemma index_ops_routes [simp]:
  "routes (fst (UpsertFileRecords flt n fs b s)) = routes s"
  "next_route (fst (UpsertFileRecords flt n fs b s)) = next_route s"
  "routes (fst (DeleteUnseenFileRecords flt i t s)) = routes s"
  "next_route (fst (DeleteUnseenFileRecords flt i t s)) = next_route s"
  "folders (fst (UpsertFileRecords flt n fs b s)) = folders s"
  "next_folder (fst (UpsertFileRecords flt n fs b s)) = next_folder s"
  "folders (fst (DeleteUnseenFileRecords flt i t s)) = folders s"
  "next_folder (fst (DeleteUnseenFileRecords flt i t s)) = next_folder s"
  by (simp_all add: UpsertFileRecords_def DeleteUnseenFileRecords_def Let_def split: option.split)

definition scan_running :: "time \<Rightarrow> remote_route \<Rightarrow> bool" where
  "scan_running now r \<longleftrightarrow> rr_Status r = RemoteRouteStatusScanning \<and> lease_running now (rr_ScanLeaseExpiresAt r)"

text \<open>A change of the configuration either reports an error and changes nothing, or commits everything.\<close>
lemma Update_route_cases:
  assumes "Update_route flt now r dest s = (s', res)"
  shows "(\<exists>e. res = Inl e \<and> s' = s)
    \<or> (res = Inr () \<and> (\<exists>x. route_by (rr_ID r) s = Some x \<and> \<not> scan_running now x
          \<and> (rr_UpdatedAt r = zero_time \<or> rr_UpdatedAt x = rr_UpdatedAt r))
       \<and> \<not> route_taken (rr_ID r) r s
       \<and> (dest \<longrightarrow> (\<forall>f \<in> set (linked_folders (rr_ID r) s).
             \<not> (wf_Status f = WatchFolderStatusDetecting \<and> lease_running now (wf_ScanLeaseExpiresAt f))))
       \<and> s' = (if dest then move_linked now r (map wf_ID (linked_folders (rr_ID r) s))
                 (update_routes (\<lambda>x. rr_ID x = rr_ID r) (route_config_row now r) s)
               else update_routes (\<lambda>x. rr_ID x = rr_ID r) (route_config_row now r) s))"
proof (cases "route_by (rr_ID r) s")
  case None
  with assms show ?thesis by (auto simp: Update_route_def Let_def split: if_splits)
next
  case (Some x)
  show ?thesis
  proof (cases res)
    case (Inl e)
    with assms Some show ?thesis by (auto simp: Update_route_def Let_def split: if_splits)
  next
    case (Inr u)
    with assms Some show ?thesis
      by (auto simp: Update_route_def Let_def scan_running_def split: if_splits)
  qed
qed

lemma Delete_route_cases:
  assumes "Delete_route flt now i s = (s', res)"
  shows "(\<exists>e. res = Inl e \<and> s' = s)
    \<or> (res = Inr () \<and> (\<exists>x. route_by i s = Some x \<and> \<not> scan_running now x) \<and> linked_folders i s = []
       \<and> s' = s\<lparr>remote_files := delete_where (\<lambda>f. rf_RemoteRouteID f = i) (remote_files s),
                routes := delete_where (\<lambda>x. rr_ID x = i) (routes s)\<rparr>)"
  using assms by (auto simp: Delete_route_def scan_running_def split: if_splits option.splits)

lemma Update_route_routes:
  "next_route (fst (Update_route flt now r dest s)) = next_route s
   \<and> (routes (fst (Update_route flt now r dest s)) = routes s
      \<or> (\<exists>x. route_by (rr_ID r) s = Some x \<and> \<not> scan_running now x
         \<and> routes (fst (Update_route flt now r dest s))
             = routes (update_routes (\<lambda>x. rr_ID x = rr_ID r) (route_config_row now r) s)))"
  using Update_route_cases[OF prod.collapse[symmetric], of flt now r dest s]
  by (auto simp: update_routes_def)

lemma Delete_route_routes:
  "next_route (fst (Delete_route flt now i s)) = next_route s
   \<and> (routes (fst (Delete_route flt now i s)) = routes s
      \<or> (\<exists>x. route_by i s = Some x \<and> \<not> scan_running now x
         \<and> routes (fst (Delete_route flt now i s)) = delete_where (\<lambda>x. rr_ID x = i) (routes s)))"
  using Delete_route_cases[OF prod.collapse[symmetric], of flt now i s] by auto

lemma route_step_inv: "routes_inv s \<Longrightarrow> routes_inv (route_step now (flt, a) s)"
proof (cases a)
  case (ROpCreate r)
  then show "routes_inv s \<Longrightarrow> ?thesis"
    by (force simp: Create_route_def Let_def routes_inv_def)
next
  case (ROpUpdate r dest)
  assume inv: "routes_inv s"
  from Update_route_routes[of flt now r dest s] inv ROpUpdate
    routes_inv_update[of "route_config_row now r" s "\<lambda>x. rr_ID x = rr_ID r"]
  show ?thesis by (auto simp: routes_inv_def update_routes_def)
next
  case (ROpDelete i)
  assume "routes_inv s"
  with Delete_route_routes[of flt now i s] ROpDelete show ?thesis
    by (auto simp: routes_inv_def distinct_delete_where)
next
  case (ROpUpsert fs n)
  then show "routes_inv s \<Longrightarrow> ?thesis" by (simp add: routes_inv_def)
next
  case (ROpDeleteUnseen i t)
  then show "routes_inv s \<Longrightarrow> ?thesis" by (simp add: routes_inv_def)
qed (auto simp: ClaimForScan_route_def RenewScanLease_route_def FinishScan_route_def ScheduleScan_def
      ScheduleAllScans_def Let_def intro!: routes_inv_update)

text \<open>
  What a step may do to the lease of a stored route: a deletion takes the row away only when no scan
  is running, and the status of a running scan changes only with its lease.
\<close>
definition same_route_lease :: "remote_route \<Rightarrow> remote_route \<Rightarrow> bool" where
  "same_route_lease r r' \<longleftrightarrow> rr_ScanLeaseOwner r' = rr_ScanLeaseOwner r
     \<and> rr_ScanLeaseExpiresAt r' = rr_ScanLeaseExpiresAt r"

lemma route_step_row:
  assumes "routes_inv s" "route_by i s = Some r" "\<not> route_revokes (flt, a) i \<or> scan_running now r"
  shows "\<exists>r'. route_by i (route_step now (flt, a) s) = Some r'
    \<and> ((same_route_lease r r' \<and> (scan_running now r \<longrightarrow> \<not> route_lease_free now r \<longrightarrow> rr_Status r' = rr_Status r))
       \<or> (route_lease_free now r \<and> route_actor (flt, a) = Some (rr_ScanLeaseOwner r'))
       \<or> (route_actor (flt, a) = Some (rr_ScanLeaseOwner r)
           \<and> (rr_ScanLeaseOwner r' = rr_ScanLeaseOwner r \<or> rr_ScanLeaseOwner r' = '''')))"
proof (cases a)
  case (ROpClaim j w expd d upd)
  with assms(2) show ?thesis
    by (auto simp: ClaimForScan_route_def Let_def route_by_update same_route_lease_def claim_route_row_def route_due_def)
next
  case (ROpRenew j w d)
  with assms(2) show ?thesis
    by (auto simp: RenewScanLease_route_def Let_def route_by_update same_route_lease_def renew_route_row_def)
next
  case (ROpFinish j w c)
  with assms(2) show ?thesis
    by (auto simp: FinishScan_route_def Let_def route_by_update same_route_lease_def)
next
  case (ROpSchedule j)
  with assms(2) show ?thesis
    by (auto simp: ScheduleScan_def Let_def route_by_update same_route_lease_def schedule_route_row_def)
next
  case ROpScheduleAll
  with assms(2) show ?thesis
    by (auto simp: ScheduleAllScans_def Let_def route_by_update same_route_lease_def schedule_route_row_def)
next
  case (ROpCreate g)
  have "route_by i (s\<lparr>routes := routes s @ [x], next_route := n\<rparr>) = Some r" for x n
    using assms(2) by (simp add: route_by_def first_where_def find_append)
  with ROpCreate assms(2) show ?thesis
    by (auto simp: Create_route_def Let_def same_route_lease_def)
next
  case (ROpUpdate g dest)
  from Update_route_routes[of flt now g dest s] show ?thesis
  proof (elim conjE disjE exE)
    assume "routes (fst (Update_route flt now g dest s)) = routes s"
    from route_by_cong[OF this, of i] show ?thesis
      using assms(2) ROpUpdate by (simp add: same_route_lease_def)
  next
    fix x
    assume x: "route_by (rr_ID g) s = Some x" "\<not> scan_running now x"
      and "routes (fst (Update_route flt now g dest s))
       = routes (update_routes (\<lambda>x. rr_ID x = rr_ID g) (route_config_row now g) s)"
    from route_by_cong[OF this(3), of i] show ?thesis
      using assms(2) ROpUpdate x route_by_id[OF assms(2)]
      by (auto simp: route_by_update same_route_lease_def route_config_row_def)
  qed
next
  case (ROpDelete j)
  have d: "distinct (map rr_ID (routes s))" using assms(1) by (simp add: routes_inv_def)
  from Delete_route_routes[of flt now j s] have "route_by i (route_step now (flt, a) s) = Some r"
  proof (elim conjE disjE exE)
    fix x
    assume x: "route_by j s = Some x" "\<not> scan_running now x"
      "routes (fst (Delete_route flt now j s)) = delete_where (\<lambda>x. rr_ID x = j) (routes s)"
    then have "j \<noteq> i" using assms(2,3) ROpDelete by auto
    then show ?thesis
      using first_where_delete_key[OF d, of i "\<lambda>x. rr_ID x = j"] assms(2) route_by_id[OF assms(2)] x(3)
      by (simp add: route_by_def ROpDelete)
  qed (use assms(2) ROpDelete in \<open>simp add: route_by_def\<close>)
  then show ?thesis by (auto simp: same_route_lease_def)
qed (use assms(2) in \<open>simp_all add: route_by_def same_route_lease_def\<close>)

lemma route_step_new:
  assumes "routes_inv s" "route_by i s = None" "route_okop (flt, a)"
    "route_by i (route_step now (flt, a) s) = Some r'"
  shows "rr_ScanLeaseOwner r' = ''''"
proof (cases a)
  case (ROpCreate g)
  with assms(2-4) show ?thesis
    by (auto simp: Create_route_def Let_def route_by_def first_where_def find_append route_defaults_def
        split: if_splits)
next
  case (ROpUpdate g dest)
  from Update_route_routes[of flt now g dest s] have "route_by i (route_step now (flt, a) s) = None"
  proof (elim conjE disjE exE)
    fix x
    assume "routes (fst (Update_route flt now g dest s))
       = routes (update_routes (\<lambda>x. rr_ID x = rr_ID g) (route_config_row now g) s)"
    from route_by_cong[OF this, of i] assms(2) ROpUpdate show ?thesis by (simp add: route_by_update)
  qed (use assms(2) ROpUpdate in \<open>simp add: route_by_def\<close>)
  with assms(4) show ?thesis by simp
next
  case (ROpDelete j)
  have "route_by i (route_step now (flt, a) s) = None"
    using Delete_route_routes[of flt now j s] assms(2) ROpDelete
    by (auto simp: route_by_def first_where_None)
  with assms(4) show ?thesis by simp
next
  case (ROpUpsert fs n)
  then show ?thesis using assms(2,4) by (simp add: route_by_def)
next
  case (ROpDeleteUnseen j t)
  then show ?thesis using assms(2,4) by (simp add: route_by_def)
qed (use assms(2,4) in \<open>auto simp: ClaimForScan_route_def RenewScanLease_route_def FinishScan_route_def
      ScheduleScan_def ScheduleAllScans_def Let_def route_by_update split: if_splits\<close>)

interpretation rl: lease_machine route_step route_actor route_lease route_revokes route_okop routes_inv
proof (unfold_locales, goal_cases)
  case (1 s a n)
  then show ?case by (cases a) (simp add: route_step_inv)
next
  case (2 s a i w e n)
  obtain flt b where a: "a = (flt, b)" by (cases a)
  from 2(3) obtain r where r: "route_by i s = Some r" "rr_ScanLeaseOwner r = w" "rr_ScanLeaseExpiresAt r = Some e" "w \<noteq> ''''"
    by (auto simp: route_lease_Some)
  from route_step_row[OF 2(1) r(1), of flt b n] 2(4-6) r
  show ?case by (auto simp: a route_lease_Some same_route_lease_def route_lease_free_def)
next
  case (3 s a n i w e)
  obtain flt b where a: "a = (flt, b)" by (cases a)
  from 3(3) obtain r' where r': "route_by i (route_step n (flt, b) s) = Some r'" "rr_ScanLeaseOwner r' = w"
    "rr_ScanLeaseExpiresAt r' = Some e" "w \<noteq> ''''"
    by (auto simp: route_lease_Some a)
  show ?case
  proof (cases "route_by i s")
    case None
    from route_step_new[OF 3(1) None 3(2)[unfolded a] r'(1)] r' show ?thesis by simp
  next
    case (Some r)
    show ?thesis
    proof (cases "route_revokes (flt, b) i")
      case True
      then have b: "b = ROpDelete i" by (cases b) auto
      from Delete_route_routes[of flt n i s] have "routes (route_step n (flt, b) s) = routes s"
        using r'(1) b by (auto simp: route_by_def dest!: first_where_Some)
      then have "route_by i (route_step n (flt, b) s) = route_by i s" by (rule route_by_cong)
      with r' show ?thesis by (auto simp: route_lease_Some)
    next
      case False
      with route_step_row[OF 3(1) Some, of flt b n] r' Some show ?thesis
        by (auto simp: a route_lease_Some same_route_lease_def)
    qed
  qed
qed


subsection \<open>A running scan\<close>

definition scanned_by :: "string \<Rightarrow> time \<Rightarrow> remote_route \<Rightarrow> bool" where
  "scanned_by w e r \<longleftrightarrow> rr_Status r = RemoteRouteStatusScanning \<and> rr_ScanLeaseOwner r = w
     \<and> rr_ScanLeaseExpiresAt r = Some e"

lemma scanned_by_running: "scanned_by w e r \<Longrightarrow> n < e \<Longrightarrow> scan_running n r \<and> \<not> route_lease_free n r"
  by (simp add: scanned_by_def scan_running_def lease_running_def route_lease_free_def)

lemma scanned_by_kept:
  assumes "routes_inv s" "route_by i s = Some r" "scanned_by w e r"
    and "list_all (\<lambda>x. route_okop (snd x) \<and> fst x < e \<and> route_actor (snd x) \<noteq> Some w) xs"
  shows "\<exists>r'. route_by i (rl.run xs s) = Some r' \<and> scanned_by w e r'"
  using assms
proof (induction xs arbitrary: s r)
  case Nil
  then show ?case by simp
next
  case (Cons x xs)
  obtain n flt a where x: "x = (n, flt, a)" by (cases x)
  with Cons.prems(4) have ok: "route_okop (flt, a)" "n < e" "route_actor (flt, a) \<noteq> Some w" by auto
  note run = scanned_by_running[OF Cons.prems(3) ok(2)]
  from route_step_row[OF Cons.prems(1,2), of flt a n] run ok(3) Cons.prems(3)
  obtain r' where r': "route_by i (route_step n (flt, a) s) = Some r'" "scanned_by w e r'"
    by (auto simp: scanned_by_def same_route_lease_def)
  from Cons.IH[OF route_step_inv[OF Cons.prems(1)] r'] Cons.prems(4) show ?case by (simp add: x)
qed

definition sample_route :: "nat \<Rightarrow> route_status \<Rightarrow> remote_route" where
  "sample_route i st = \<lparr>rr_ID = i, rr_Name = ''backup'', rr_RouteKey = ''k'', rr_RemoteName = ''r'',
     rr_RemotePath = ''b'', rr_Enabled = True, rr_Status = st, rr_ScanIntervalSeconds = 3600, rr_LastError = '''',
     rr_LastScanStartedAt = None, rr_LastScanFinishedAt = None, rr_LastScanSuccessAt = None,
     rr_LastScanDurationMs = 0, rr_NextScanAt = None, rr_ScanLeaseOwner = '''', rr_ScanLeaseExpiresAt = None,
     rr_TotalFileCount = 0, rr_TotalFileSize = 0, rr_CreatedAt = 1, rr_UpdatedAt = 1\<rparr>"

definition scanning_route :: "nat \<Rightarrow> remote_route" where
  "scanning_route i = (sample_route i RemoteRouteStatusScanning)\<lparr>rr_ScanLeaseOwner := ''a'', rr_ScanLeaseExpiresAt := Some 20\<rparr>"

definition route_db :: "remote_route list \<Rightarrow> db" where
  "route_db rs = empty_db\<lparr>routes := rs, next_route := 9\<rparr>"

lemmas route_samples = route_db_def scanning_route_def sample_route_def empty_db_def

text \<open>
  C16: While the scan of a route runs under a live lease, the route is out of everybody else's reach:
  after any sequence of operations of other scanners, of administrators and of index writes, the
  route still carries that lease and the scanning status, another claim is refused, and so is every
  edit, deletion and scan request, without changing anything.
\<close>
theorem route_scan_exclusive:
  assumes "routes_inv s" "route_by i s = Some r" "scanned_by w e r"
    and "list_all (\<lambda>x. route_okop (snd x) \<and> fst x < e \<and> route_actor (snd x) \<noteq> Some w) xs" "n < e"
    and "rr_ID g = i"
  shows "route_lease (rl.run xs s) i = (if w = '''' then None else Some (w, e))
    \<and> snd (ClaimForScan_route no_fault upd i w' expd n d (rl.run xs s)) = Inr False
    \<and> Update_route no_fault n g dest (rl.run xs s) = (rl.run xs s, Inl ErrConflict)
    \<and> Delete_route no_fault n i (rl.run xs s) = (rl.run xs s, Inl ErrConflict)
    \<and> ScheduleScan no_fault n i (rl.run xs s) = (rl.run xs s, Inl ErrConflict)"
proof -
  let ?s = "rl.run xs s"
  obtain r' where r': "route_by i ?s = Some r'" "scanned_by w e r'"
    using scanned_by_kept[OF assms(1-4)] by blast
  note run = scanned_by_running[OF r'(2) assms(5)]
  have "routes_inv ?s"
    by (rule rl.inv_run[OF assms(1)]) (use assms(4) in \<open>auto simp: list_all_iff\<close>)
  then have d: "distinct (map rr_ID (routes ?s))" by (simp add: routes_inv_def)
  have none: "rows_affected (\<lambda>r. rr_ID r = i \<and> P r) u (routes ?s) = 0" if "\<not> P r'" for P u
    using rows_affected_key[OF d, of i P u] r'(1) that by (simp add: route_by_def)
  have "\<not> route_due n r'" using run by (simp add: route_due_def)
  then have "snd (ClaimForScan_route no_fault upd i w' expd n d ?s) = Inr False"
    using none[of "\<lambda>r. route_due n r \<and> (expd = zero_time \<or> rr_UpdatedAt r = expd)"]
    by (simp add: ClaimForScan_route_def Let_def)
  moreover have "Update_route no_fault n g dest ?s = (?s, Inl ErrConflict)"
    using r'(1) run assms(6) by (simp add: Update_route_def Let_def scan_running_def)
  moreover have "Delete_route no_fault n i ?s = (?s, Inl ErrConflict)"
    using r'(1) run by (simp add: Delete_route_def scan_running_def)
  moreover have "ScheduleScan no_fault n i ?s = (?s, Inl ErrConflict)"
  proof -
    have z: "rows_affected (\<lambda>r. rr_ID r = i \<and> rr_Enabled r \<and> route_lease_free n r) (schedule_route_row n) (routes ?s) = 0"
      by (rule none) (use run in simp)
    then show ?thesis using r'(1) rows_affected_0[OF z] by (simp add: ScheduleScan_def Let_def update_routes_def)
  qed
  ultimately show ?thesis using r' by (simp add: route_lease_def scanned_by_def)
qed

theorem route_scan_exclusive_witness:
  "Delete_route no_fault 19 1 (rl.run [(12, (no_fault, ROpClaim 1 ''b'' zero_time 5 12)), (13, (no_fault, ROpDelete 1))]
       (route_db [scanning_route 1]))
   = (rl.run [(12, (no_fault, ROpClaim 1 ''b'' zero_time 5 12)), (13, (no_fault, ROpDelete 1))]
       (route_db [scanning_route 1]), Inl ErrConflict)"
proof -
  have "routes_inv (route_db [scanning_route 1])" by (simp add: routes_inv_def route_samples)
  moreover have "route_by 1 (route_db [scanning_route 1]) = Some (scanning_route 1)"
    by (simp add: route_by_def first_where_def route_samples)
  moreover have "scanned_by ''a'' 20 (scanning_route 1)" by (simp add: scanned_by_def route_samples)
  ultimately show ?thesis
    using route_scan_exclusive[of "route_db [scanning_route 1]" 1 "scanning_route 1" "''a''" 20
        "[(12, (no_fault, ROpClaim 1 ''b'' zero_time 5 12)), (13, (no_fault, ROpDelete 1))]" 19 "sample_route 1 RemoteRouteStatusReady"]
    by (simp add: sample_route_def)
qed


subsection \<open>Moving a route\<close>

lemma cancel_linked_tasks_inv: "task_inv M s \<Longrightarrow> task_inv M (cancel_linked_tasks now ws s)"
  unfolding cancel_linked_tasks_def
  by (intro task_inv_update) (auto simp: ask_running_row_def cancel_queued_row_def
       intro: ask_running_ok[unfolded ask_running_row_def] cancel_queued_ok[unfolded cancel_queued_row_def])

definition linked_task :: "time \<Rightarrow> nat list \<Rightarrow> upload_task \<Rightarrow> upload_task" where
  "linked_task now ws t =
     (if task_WatchFolderID t \<notin> set ws then t
      else if task_Status t = TaskStatusRunning then ask_running_row now t
      else if task_Status t \<in> {TaskStatusPending, TaskStatusPaused, TaskStatusFailed}
      then cancel_queued_row now ''remote route changed'' t else t)"

lemma cancel_linked_tasks_map: "tasks (cancel_linked_tasks now ws s) = map (linked_task now ws) (tasks s)"
proof -
  have "update_where p u (update_where q v ts) = map (linked_task now ws) ts"
    if "p = (\<lambda>t. task_WatchFolderID t \<in> set ws \<and> task_Status t \<in> {TaskStatusPending, TaskStatusPaused, TaskStatusFailed})"
      "u = cancel_queued_row now ''remote route changed''"
      "q = (\<lambda>t. task_WatchFolderID t \<in> set ws \<and> task_Status t = TaskStatusRunning)" "v = ask_running_row now" for p u q v ts
    unfolding that by (induction ts) (auto simp: linked_task_def ask_running_row_def)
  then show ?thesis by (simp add: cancel_linked_tasks_def)
qed

lemma linked_task_none [simp]: "linked_task now [] = (\<lambda>t. t)"
  by (simp add: linked_task_def fun_eq_iff)

lemma move_linked_tables:
  "tasks (move_linked now r ws s) = map (linked_task now ws) (tasks s)"
  "folders (move_linked now r ws s) = update_where (\<lambda>f. wf_ID f \<in> set ws)
     (\<lambda>f. f\<lparr>wf_RemoteName := rr_RemoteName r, wf_RemotePath := rr_RemotePath r,
            wf_NextScanAt := Some now, wf_UpdatedAt := now\<rparr>) (folders s)"
  "files (move_linked now r ws s) = update_where (\<lambda>f. fr_WatchFolderID f \<in> set ws)
     (\<lambda>f. f\<lparr>fr_UploadedAt := None, fr_UpdatedAt := now\<rparr>) (files s)"
  "remote_files (move_linked now r ws s) = update_where (\<lambda>f. rf_RemoteRouteID f = rr_ID r \<and> rf_MissingAt f = None)
     (\<lambda>f. f\<lparr>rf_MissingAt := Some now, rf_UpdatedAt := now\<rparr>) (remote_files s)"
  by (simp_all add: move_linked_def Let_def cancel_linked_tasks_map update_folders_def update_where_none)
    (simp_all add: cancel_linked_tasks_def update_tasks_def)

lemma move_linked_inv: "task_inv M s \<Longrightarrow> task_inv M (move_linked now r ws s)"
proof (cases "ws = []")
  case True
  then show "task_inv M s \<Longrightarrow> ?thesis" by (simp add: move_linked_def task_inv_def keys_fresh_def)
next
  case False
  assume inv: "task_inv M s"
  show ?thesis
    unfolding move_linked_def Let_def if_not_P[OF False]
    by (rule cancel_linked_tasks_inv) (use inv in \<open>simp add: update_folders_def task_inv_def keys_fresh_def\<close>)
qed

definition rlinked :: "nat \<Rightarrow> db \<Rightarrow> nat list" where
  "rlinked i s = map wf_ID (linked_folders i s)"

text \<open>
  C15: Pointing a route to another place moves everything that depends on it in one transaction, or
  reports an error and changes nothing: every linked folder gets the new destination and is scanned
  again, their tasks are cancelled (running ones asked to stop), none of their files counts as
  uploaded, and the old index is hidden from browsing; folders, tasks and index rows of other routes
  are left alone and the task invariant is kept.
\<close>
theorem Update_route_moves_linked:
  assumes "folders_inv s" "task_inv M s" "Update_route flt now r True s = (s', res)"
  shows "case res of Inl e \<Rightarrow> s' = s
    | Inr _ \<Rightarrow> task_inv M s'
        \<and> tasks s' = map (linked_task now (rlinked (rr_ID r) s)) (tasks s)
        \<and> map wf_ID (folders s') = map wf_ID (folders s)
        \<and> (\<forall>f \<in> set (folders s'). wf_RemoteRouteID f = rr_ID r \<longrightarrow>
              wf_RemoteName f = rr_RemoteName r \<and> wf_RemotePath f = rr_RemotePath r \<and> wf_NextScanAt f = Some now)
        \<and> (\<forall>f \<in> set (folders s'). wf_RemoteRouteID f \<noteq> rr_ID r \<longrightarrow> f \<in> set (folders s))
        \<and> (\<forall>x \<in> set (files s'). fr_WatchFolderID x \<in> set (rlinked (rr_ID r) s) \<longrightarrow> fr_UploadedAt x = None)
        \<and> (\<forall>x \<in> set (remote_files s'). if rf_RemoteRouteID x = rr_ID r then rf_MissingAt x \<noteq> None else x \<in> set (remote_files s))
        \<and> map_option rr_RemotePath (route_by (rr_ID r) s') = Some (rr_RemotePath r)"
proof (cases res)
  case (Inl e)
  with Update_route_cases[OF assms(3)] show ?thesis by auto
next
  case (Inr u)
  let ?i = "rr_ID r" let ?ws = "rlinked ?i s"
  let ?s1 = "update_routes (\<lambda>x. rr_ID x = ?i) (route_config_row now r) s"
  from Update_route_cases[OF assms(3)] Inr
  have s': "s' = move_linked now r ?ws ?s1" and x: "\<exists>x. route_by ?i s = Some x"
    unfolding rlinked_def by (simp_all only: if_True sum.distinct simp_thms) blast+
  have same: "tasks ?s1 = tasks s" "next_task ?s1 = next_task s" "folders ?s1 = folders s"
    "files ?s1 = files s" "remote_files ?s1 = remote_files s"
    by (simp_all add: update_routes_def)
  have "task_inv M s'" unfolding s'
    by (rule move_linked_inv) (use assms(2) task_inv_cong[OF same(1,2)] in blast)
  moreover have "map_option rr_RemotePath (route_by ?i s') = Some (rr_RemotePath r)"
  proof -
    have "route_by ?i s' = route_by ?i ?s1" by (rule route_by_cong) (simp add: s')
    moreover obtain y where y: "route_by ?i s = Some y" using x by blast
    ultimately show ?thesis using route_by_id[OF y] by (simp add: route_by_update y) (simp add: route_config_row_def)
  qed
  moreover have member: "wf_ID f \<in> set ?ws \<longleftrightarrow> wf_RemoteRouteID f = ?i" if "f \<in> set (folders s)" for f
  proof -
    have "inj_on wf_ID (set (folders s))" using assms(1) by (simp add: folders_inv_def distinct_map)
    with that show ?thesis by (auto simp: rlinked_def linked_folders_def dest: inj_onD)
  qed
  have folders': "folders s' = update_where (\<lambda>f. wf_ID f \<in> set ?ws)
     (\<lambda>f. f\<lparr>wf_RemoteName := rr_RemoteName r, wf_RemotePath := rr_RemotePath r,
            wf_NextScanAt := Some now, wf_UpdatedAt := now\<rparr>) (folders s)"
    by (simp add: s' move_linked_tables same)
  moreover have "map wf_ID (folders s') = map wf_ID (folders s)"
    unfolding folders' by (rule update_where_cong_map) simp
  moreover have "\<forall>f \<in> set (folders s'). wf_RemoteRouteID f = ?i \<longrightarrow>
      wf_RemoteName f = rr_RemoteName r \<and> wf_RemotePath f = rr_RemotePath r \<and> wf_NextScanAt f = Some now"
    "\<forall>f \<in> set (folders s'). wf_RemoteRouteID f \<noteq> ?i \<longrightarrow> f \<in> set (folders s)"
    unfolding folders' set_update_where using member by auto
  moreover have "\<forall>x \<in> set (files s'). fr_WatchFolderID x \<in> set ?ws \<longrightarrow> fr_UploadedAt x = None"
    by (auto simp: s' move_linked_tables set_update_where)
  moreover have "\<forall>x \<in> set (remote_files s'). if rf_RemoteRouteID x = ?i then rf_MissingAt x \<noteq> None else x \<in> set (remote_files s)"
    by (auto simp: s' move_linked_tables same set_update_where)
  moreover have "tasks s' = map (linked_task now ?ws) (tasks s)"
    by (simp add: s' move_linked_tables same)
  ultimately show ?thesis using Inr by simp
qed

theorem Update_route_moves_linked_witness:
  "\<exists>s'. Update_route no_fault 30 ((sample_route 1 RemoteRouteStatusPending)\<lparr>rr_RemotePath := ''new''\<rparr>) True
         (route_db [sample_route 1 RemoteRouteStatusReady]
            \<lparr>folders := [(sample_folder 4 WatchFolderStatusWatching)\<lparr>wf_RemoteRouteID := 1\<rparr>], next_folder := 9,
             tasks := [(pending_task 2 ''b'')\<lparr>task_WatchFolderID := 4\<rparr>], next_task := 9\<rparr>)
       = (s', Inr ())
    \<and> map wf_ID (folders s') = [4] \<and> map task_Status (tasks s') = [TaskStatusCanceled]"
proof -
  let ?s = "route_db [sample_route 1 RemoteRouteStatusReady]
            \<lparr>folders := [(sample_folder 4 WatchFolderStatusWatching)\<lparr>wf_RemoteRouteID := 1\<rparr>], next_folder := 9,
             tasks := [(pending_task 2 ''b'')\<lparr>task_WatchFolderID := 4\<rparr>], next_task := 9\<rparr>"
  let ?r = "(sample_route 1 RemoteRouteStatusPending)\<lparr>rr_RemotePath := ''new''\<rparr>"
  have inv: "task_inv 3 ?s" "folders_inv ?s"
    by (simp_all add: inv_defs pending_task_def blank_task_def folders_inv_def sample_folder_def)
  obtain s' where u: "Update_route no_fault 30 ?r True ?s = (s', Inr ())"
    by (simp add: Update_route_def Let_def route_by_def first_where_def route_taken_def linked_folders_def
        route_samples sample_folder_def)
  from Update_route_moves_linked[OF inv(2,1) u] u show ?thesis
    by (simp add: route_samples sample_folder_def pending_task_def blank_task_def rlinked_def linked_folders_def
        linked_task_def cancel_queued_row_def)
qed

text \<open>
  A route that is created disabled is nevertheless stored enabled, and with no time set for its
  first scan it is due at once and the next scanner claims it, although its status reads disabled.
\<close>
theorem disabled_route_is_scanned:
  assumes "routes_inv s" "Create_route no_fault now r s = (s', Inr r')"
    and "\<not> rr_Enabled r" "rr_NextScanAt r = None" "rr_ScanLeaseExpiresAt r = None" "rr_Status r = RemoteRouteStatusDisabled"
    and "w \<noteq> ''''"
  shows "rr_Enabled r' \<and> rr_Status r' = RemoteRouteStatusDisabled
    \<and> (\<exists>rs. ListEnabledForScan_route no_fault t s' = Inr rs \<and> r' \<in> set rs)
    \<and> snd (ClaimForScan_route no_fault upd (rr_ID r') w (rr_UpdatedAt r') t d s') = Inr True"
proof -
  from assms(2) have r': "r' = (route_defaults r)\<lparr>rr_ID := next_route s, rr_CreatedAt := now, rr_UpdatedAt := now\<rparr>"
    and s': "s' = s\<lparr>routes := routes s @ [r'], next_route := next_route s + 1\<rparr>"
    by (auto simp: Create_route_def Let_def split: if_splits)
  have due: "route_due t r'" using assms(3-5) by (simp add: r' route_defaults_def route_due_def route_lease_free_def)
  have f: "rr_Status r' = RemoteRouteStatusDisabled" using assms(6) by (simp add: r' route_defaults_def)
  have "claim_route_row upd w t d r' \<noteq> r'"
    using f by (auto simp: claim_route_row_def dest: arg_cong[of _ _ rr_Status])
  with due have "0 < rows_affected (\<lambda>x. rr_ID x = rr_ID r' \<and> route_due t x
       \<and> (rr_UpdatedAt r' = zero_time \<or> rr_UpdatedAt x = rr_UpdatedAt r')) (claim_route_row upd w t d) (routes s')"
    by (simp add: s' rows_affected_def)
  with due f show ?thesis
    by (auto simp: ClaimForScan_route_def Let_def ListEnabledForScan_route_def r' route_defaults_def s')
qed

theorem disabled_route_is_scanned_witness:
  "\<exists>s' r'. Create_route no_fault 5 ((sample_route 0 RemoteRouteStatusDisabled)\<lparr>rr_Enabled := False\<rparr>) (route_db []) = (s', Inr r')
     \<and> snd (ClaimForScan_route no_fault 7 (rr_ID r') ''a'' (rr_UpdatedAt r') 6 9 s') = Inr True"
proof -
  let ?r = "(sample_route 0 RemoteRouteStatusDisabled)\<lparr>rr_Enabled := False\<rparr>"
  obtain s' r' where c: "Create_route no_fault 5 ?r (route_db []) = (s', Inr r')"
    by (simp add: Create_route_def Let_def route_taken_def route_samples)
  have "routes_inv (route_db [])" by (simp add: routes_inv_def route_samples)
  from disabled_route_is_scanned[OF this c, of "''a''" 6 7 9] c show ?thesis
    by (simp add: sample_route_def)
qed

end
