(* ===== verification/AppErrors.thy ===== *)
theory AppErrors
  imports RouteRepo Rclone ResourcePolicy
begin

section \<open>Errors and paths shared by the services\<close>

text \<open>
  \<open>internal/apperror\<close>, whose errors carry what a client may see, and the index paths and pages of
  \<open>internal/service/file_index_service.go\<close> that the services share.  An error that is not one of
  \<open>apperror\<close>'s is passed on as it came from a repository or the rclone client.
\<close>

(* src/internal/apperror/error.go 8-13 Error *)
record app_error =
  ae_Status :: nat
  ae_Code :: string
  ae_Message :: string

datatype service_error =
    AppError app_error
  | RepoFailure repo_error
  | RemoteFailure remote_error
  | OperatorUnavailable
  | ContextDone  \<comment> \<open>\<open>ctx.Err()\<close>\<close>

(* src/internal/apperror/error.go 24-26 Validation *)
definition Validation :: "string \<Rightarrow> service_error" where
  "Validation message = AppError \<lparr>ae_Status = 400, ae_Code = ''validation_error'', ae_Message = message\<rparr>"

(* src/internal/apperror/error.go 28-30 Conflict *)
definition Conflict :: "string \<Rightarrow> service_error" where
  "Conflict message = AppError \<lparr>ae_Status = 409, ae_Code = ''conflict'', ae_Message = message\<rparr>"

(* src/internal/apperror/error.go 32-34 NotFound *)
definition NotFound :: "string \<Rightarrow> service_error" where
  "NotFound message = AppError \<lparr>ae_Status = 404, ae_Code = ''not_found'', ae_Message = message\<rparr>"

(* src/internal/apperror/error.go 36-39 As *)
fun As_app :: "service_error \<Rightarrow> app_error option" where
  "As_app (AppError e) = Some e"
| "As_app _ = None"

subsection \<open>Index paths\<close>

(* src/internal/service/file_index_service.go 56-73 normalizeIndexPath *)
definition normalizeIndexPath :: "string \<Rightarrow> (service_error, string) result" where
  "normalizeIndexPath raw =
     (let value = Trim1 slash (TrimSpace (ReplaceByte (CHR 0x5C) slash raw)) in
      if value = '''' then Inr ''''
      else let cleaned = path_Clean value in
        if cleaned = ''.'' then Inr ''''
        else if cleaned = ''..'' \<or> prefix ''../'' cleaned then Inl (Validation ''path traversal is not allowed'')
        else if length cleaned > 768 then Inl (Validation ''path is too long'')
        else Inr cleaned)"

(* src/internal/service/file_index_service.go 75-84 parentIndexPath *)
definition parentIndexPath :: "string \<Rightarrow> string" where
  "parentIndexPath current =
     (if current = '''' then ''''
      else let parent = path_Dir current in if parent = ''.'' then '''' else parent)"

(* src/internal/service/file_index_service.go 86-97 normalizeBrowsePage *)
definition normalizeBrowsePage :: "int \<Rightarrow> int \<Rightarrow> int \<times> int" where
  "normalizeBrowsePage page pageSize =
     (if page \<le> 0 then 1 else page,
      if pageSize \<le> 0 then 100 else if pageSize > 500 then 500 else pageSize)"

text \<open>An index path: relative, clean, without a way up.\<close>
definition index_path :: "string \<Rightarrow> bool" where
  "index_path p \<longleftrightarrow> p = '''' \<or> (path_Clean p = p \<and> \<not> rooted p \<and> p \<noteq> ''.'' \<and> p \<noteq> ''..'' \<and> \<not> prefix ''../'' p)"

lemma normalizeIndexPath_ok:
  assumes "normalizeIndexPath raw = Inr p"
  shows "index_path p \<and> length p \<le> 768"
proof (cases "p = ''''")
  case True
  then show ?thesis by (simp add: index_path_def)
next
  case False
  let ?v = "Trim1 slash (TrimSpace (ReplaceByte (CHR 0x5C) slash raw))"
  from assms False have ne: "?v \<noteq> ''''" and p: "p = path_Clean ?v" "p \<noteq> ''.''" "p \<noteq> ''..''" "\<not> prefix ''../'' p" "length p \<le> 768"
    by (auto simp: normalizeIndexPath_def Let_def split: if_splits)
  have "\<not> rooted ?v" using Trim1_hd[OF ne] ne by (cases ?v) auto
  then have "\<not> rooted p" by (simp add: p(1) rooted_path_Clean)
  with p show ?thesis by (simp add: index_path_def path_Clean_idem)
qed

end
