(* ===== verification/RouteScanner.thy ===== *)
theory RouteScanner
  imports RouteRepo Rclone ResourcePolicy
begin

section \<open>The remote-route scanner\<close>

text \<open>
  \<open>internal/scheduler/remote_route_scanner.go\<close>: the listing of a remote, walked object by object,
  becomes the route's index: files, and every directory above them, queued and written in batches;
  what a complete walk has not seen is deleted.  The properties say that after a successful scan the
  index is exactly the listing and that a failed one deletes nothing.
\<close>

subsection \<open>Configuration\<close>

(* src/internal/scheduler/remote_route_scanner.go 36-45 RemoteRouteScannerConfig *)
record route_config =
  rg_PollInterval :: dur
  rg_RouteTimeout :: dur
  rg_MaxConcurrent :: int
  rg_BatchSize :: int
  rg_InstanceID :: string
  rg_LeaseDuration :: dur
  rg_Heartbeat :: dur
  rg_Policy :: "resource_policy option"

(* src/internal/scheduler/remote_route_scanner.go 55-80 NewRemoteRouteScanner *)
definition NewRemoteRouteScanner :: "string \<Rightarrow> route_config \<Rightarrow> route_config" where
  "NewRemoteRouteScanner generatedID c =
     (let lease = (if rg_LeaseDuration c \<le> 0 then 90 * second else rg_LeaseDuration c)
      in c\<lparr>rg_PollInterval := (if rg_PollInterval c \<le> 0 then 30 * second else rg_PollInterval c),
           rg_RouteTimeout := (if rg_RouteTimeout c \<le> 0 then 30 * minute else rg_RouteTimeout c),
           rg_MaxConcurrent := (if rg_MaxConcurrent c \<le> 0 then 2 else rg_MaxConcurrent c),
           rg_BatchSize := (if rg_BatchSize c \<le> 0 then 500 else rg_BatchSize c),
           rg_InstanceID := (if rg_InstanceID c = '''' then generatedID else rg_InstanceID c) @ ''/remote'',
           rg_LeaseDuration := lease,
           rg_Heartbeat := (if rg_Heartbeat c \<le> 0 \<or> wrap64 (rg_Heartbeat c * 2) \<ge> lease
                            then go_div lease 3 else rg_Heartbeat c)\<rparr>)"

subsection \<open>Paths\<close>

(* src/internal/scheduler/remote_route_scanner.go 323-333 cleanRemoteObjectPath *)
definition cleanRemoteObjectPath :: "string \<Rightarrow> string option" where
  "cleanRemoteObjectPath raw =
     (let value = Trim1 slash (ReplaceByte (CHR 0x5C) slash raw) in
      if value = '''' then Some ''''
      else let cleaned = path_Clean value in
        if cleaned = ''..'' \<or> prefix ''../'' cleaned \<or> length cleaned > 2048 then None else Some cleaned)"

text \<open>The directories a path lies in, outermost first, each with its own name.\<close>
definition path_prefixes :: "string \<Rightarrow> (string \<times> string) list" where
  "path_prefixes directory =
     (let parts = Split directory slash
      in map (\<lambda>i. (Join (take (i + 1) parts) slash, parts ! i)) [0..<length parts])"

(* src/internal/scheduler/remote_route_scanner.go 259-266 remoteRouteScanner.indexRoute *)
definition directories_of :: "string \<Rightarrow> bool \<Rightarrow> (string \<times> string) list" where
  "directories_of objectPath includeSelf =
     (let directory = (if includeSelf then objectPath else path_Dir objectPath)
      in if directory = ''.'' \<or> directory = '''' then [] else path_prefixes directory)"

subsection \<open>The walk\<close>

text \<open>
  The surroundings of a scan: SHA-256 in hexadecimal, the \<open>rclone\<close> process for a remote and path, and
  for the \<open>k\<close>-th write of a batch what others did to the database before it, its clock and its faults.
  The scan's context reaches it as faults of those calls and as the exit of the process.
\<close>
record index_env =
  ie_sha256 :: "string \<Rightarrow> string"
  ie_process :: "string \<Rightarrow> string \<Rightarrow> walk_process"
  ie_meanwhile :: "nat \<Rightarrow> db \<Rightarrow> db"
  ie_clock :: "nat \<Rightarrow> time"
  ie_fltUpsert :: "nat \<Rightarrow> fault"
  ie_fltDelete :: fault

record index_state =
  is_db :: db
  is_batch :: "remote_file list"
  is_seenDirectories :: "string list"
  is_files :: int
  is_bytes :: int
  is_writes :: nat

datatype visit_error =
    InvalidObjectPath string
  | UpsertFailed repo_error

(* src/internal/scheduler/remote_route_scanner.go 231-240 remoteRouteScanner.indexRoute *)
definition flush_batch :: "index_env \<Rightarrow> route_config \<Rightarrow> index_state \<Rightarrow> index_state \<times> visit_error option" where
  "flush_batch env cfg a =
     (if is_batch a = [] then (a, None)
      else let k = is_writes a in
        case UpsertFileRecords (ie_fltUpsert env k) (ie_clock env k) (is_batch a) (rg_BatchSize cfg)
               (ie_meanwhile env k (is_db a)) of
          (s', Inl e) \<Rightarrow> (a\<lparr>is_db := s', is_writes := k + 1\<rparr>, Some (UpsertFailed e))
        | (s', Inr _) \<Rightarrow> (a\<lparr>is_db := s', is_writes := k + 1, is_batch := []\<rparr>, None))"

text \<open>The record of an object; its parent is the route's root when the path has one element.\<close>
(* src/internal/scheduler/remote_route_scanner.go 242-252 remoteRouteScanner.indexRoute *)
definition index_row ::
    "index_env \<Rightarrow> nat \<Rightarrow> time \<Rightarrow> string \<Rightarrow> string \<Rightarrow> bool \<Rightarrow> int \<Rightarrow> time option \<Rightarrow> string \<Rightarrow> remote_file" where
  "index_row env routeID scanMarker objectPath name isDir sz modTime mimeType =
     (let parentPath = (if path_Dir objectPath = ''.'' then '''' else path_Dir objectPath)
      in \<lparr>rf_ID = 0, rf_RemoteRouteID = routeID, rf_PathHash = ie_sha256 env objectPath, rf_Path = objectPath,
          rf_ParentHash = ie_sha256 env parentPath, rf_ParentPath = parentPath, rf_Name = name, rf_IsDir = isDir,
          rf_Size = sz, rf_ModTime = modTime, rf_MimeType = mimeType, rf_LastSeenAt = Some scanMarker,
          rf_MissingAt = None, rf_CreatedAt = zero_time, rf_UpdatedAt = zero_time\<rparr>)"

(* src/internal/scheduler/remote_route_scanner.go 241-257 remoteRouteScanner.indexRoute *)
definition queue_row :: "index_env \<Rightarrow> route_config \<Rightarrow> remote_file \<Rightarrow> index_state \<Rightarrow> index_state \<times> visit_error option" where
  "queue_row env cfg f a =
     (let a' = a\<lparr>is_batch := is_batch a @ [f]\<rparr>
      in if int (length (is_batch a')) \<ge> rg_BatchSize cfg then flush_batch env cfg a' else (a', None))"

(* src/internal/scheduler/remote_route_scanner.go 267-277 remoteRouteScanner.indexRoute *)
fun queue_directories ::
    "index_env \<Rightarrow> route_config \<Rightarrow> nat \<Rightarrow> time \<Rightarrow> (string \<times> string) list \<Rightarrow> index_state \<Rightarrow> index_state \<times> visit_error option" where
  "queue_directories env cfg routeID scanMarker [] a = (a, None)"
| "queue_directories env cfg routeID scanMarker ((current, name) # ds) a =
     (if current \<in> set (is_seenDirectories a) then queue_directories env cfg routeID scanMarker ds a
      else case queue_row env cfg (index_row env routeID scanMarker current name True 0 None '''')
                  (a\<lparr>is_seenDirectories := current # is_seenDirectories a\<rparr>) of
             (a', Some e) \<Rightarrow> (a', Some e)
           | (a', None) \<Rightarrow> queue_directories env cfg routeID scanMarker ds a')"

definition object_row :: "index_env \<Rightarrow> nat \<Rightarrow> time \<Rightarrow> string \<Rightarrow> remote_object \<Rightarrow> remote_file" where
  "object_row env routeID scanMarker objectPath obj =
     index_row env routeID scanMarker objectPath
       (if TrimSpace (ro_Name obj) = '''' then path_Base objectPath else ro_Name obj) False (ro_Size obj)
       (if ro_ModTime obj = zero_time then None else Some (ro_ModTime obj)) (ro_MimeType obj)"

(* src/internal/scheduler/remote_route_scanner.go 279-310 remoteRouteScanner.indexRoute *)
definition visit_object ::
    "index_env \<Rightarrow> route_config \<Rightarrow> nat \<Rightarrow> time \<Rightarrow> remote_object \<Rightarrow> index_state \<Rightarrow> index_state \<times> visit_error option" where
  "visit_object env cfg routeID scanMarker obj a =
     (case cleanRemoteObjectPath (ro_Path obj) of
        None \<Rightarrow> (a, Some (InvalidObjectPath (ro_Path obj)))
      | Some objectPath \<Rightarrow>
          if objectPath = '''' then (a, None)
          else case queue_directories env cfg routeID scanMarker (directories_of objectPath (ro_IsDir obj)) a of
            (a1, Some e) \<Rightarrow> (a1, Some e)
          | (a1, None) \<Rightarrow>
              if ro_IsDir obj then (a1, None)
              else case queue_row env cfg (object_row env routeID scanMarker objectPath obj) a1 of
                (a2, Some e) \<Rightarrow> (a2, Some e)
              | (a2, None) \<Rightarrow>
                  (a2\<lparr>is_files := is_files a2 + 1,
                      is_bytes := is_bytes a2 + (if ro_Size obj > 0 then ro_Size obj else 0)\<rparr>, None))"

datatype index_error =
    RemoteRefused policy_error
  | WalkFailed "visit_error walk_error"
  | FlushFailed visit_error
  | DeleteFailed repo_error

text \<open>\<open>started.Truncate(time.Millisecond)\<close>: the zero time is a whole number of milliseconds too.\<close>
definition scan_marker :: "time \<Rightarrow> time" where
  "scan_marker started = started - started mod 1000000"

definition index_walk ::
    "index_env \<Rightarrow> route_config \<Rightarrow> nat \<Rightarrow> time \<Rightarrow> walk_process \<Rightarrow> db \<Rightarrow> index_state \<times> index_error option" where
  "index_walk env cfg routeID scanMarker p s =
     (case WalkRemote p (visit_object env cfg routeID scanMarker)
             \<lparr>is_db = s, is_batch = [], is_seenDirectories = [], is_files = 0, is_bytes = 0, is_writes = 0\<rparr> of
        (a, Some e) \<Rightarrow> (a, Some (WalkFailed e))
      | (a, None) \<Rightarrow>
          (case flush_batch env cfg a of
             (a', Some e) \<Rightarrow> (a', Some (FlushFailed e))
           | (a', None) \<Rightarrow>
               (case DeleteUnseenFileRecords (ie_fltDelete env) routeID scanMarker (is_db a') of
                  (s', Inl e) \<Rightarrow> (a'\<lparr>is_db := s'\<rparr>, Some (DeleteFailed e))
                | (s', Inr _) \<Rightarrow> (a'\<lparr>is_db := s'\<rparr>, None))))"

text \<open>The database, the files and bytes counted, and the error.\<close>
(* src/internal/scheduler/remote_route_scanner.go 215-321 remoteRouteScanner.indexRoute *)
definition indexRoute ::
    "index_env \<Rightarrow> route_config \<Rightarrow> remote_route \<Rightarrow> time \<Rightarrow> db \<Rightarrow> db \<times> int \<times> int \<times> index_error option" where
  "indexRoute env cfg r started s =
     (case (case rg_Policy cfg of None \<Rightarrow> Inr (rr_RemotePath r)
            | Some pol \<Rightarrow> ValidateRemote (Some pol) (rr_RemoteName r) (rr_RemotePath r)) of
        Inl e \<Rightarrow> (s, 0, 0, Some (RemoteRefused e))
      | Inr remotePath \<Rightarrow>
          let (a, err) = index_walk env cfg (rr_ID r) (scan_marker started)
                           (ie_process env (rr_RemoteName r) remotePath) s
          in (is_db a, is_files a, is_bytes a, err))"


subsection \<open>The scan of a route\<close>

text \<open>
  What surrounds the index: the clock at the start and the end, the heartbeats, whether the scanner's
  own context has ended, which errors wrap a cancelled context, the error texts, and the faults.
\<close>
record route_env = index_env +
  re_started :: time
  re_finished :: time
  re_beats :: "(fault \<times> time) list"
  re_parentDone :: bool
  re_canceled :: "index_error \<Rightarrow> bool"
  re_errorText :: "index_error \<Rightarrow> string"
  re_fltClaim :: fault
  re_fltFinish :: fault

text \<open>
  The heartbeats touch the route's row only, which the walk does not read, so they are run ahead of
  it; one that is refused ends the loop, and the context with it.
\<close>
(* src/internal/scheduler/remote_route_scanner.go 162-179 remoteRouteScanner.scanRoute *)
fun route_heartbeats :: "route_config \<Rightarrow> nat \<Rightarrow> (fault \<times> time) list \<Rightarrow> db \<Rightarrow> db" where
  "route_heartbeats cfg i [] s = s"
| "route_heartbeats cfg i ((flt, now) # bs) s =
     (case RenewScanLease_route flt now i (rg_InstanceID cfg) (rg_LeaseDuration cfg) s of
        (s', Inr True) \<Rightarrow> route_heartbeats cfg i bs s'
      | (s', _) \<Rightarrow> s')"

text \<open>The columns a scan ends with.\<close>
(* src/internal/scheduler/remote_route_scanner.go 184-207 remoteRouteScanner.scanRoute *)
definition route_outcome :: "route_env \<Rightarrow> remote_route \<Rightarrow> int \<Rightarrow> int \<Rightarrow> index_error option \<Rightarrow> route_columns" where
  "route_outcome env r nfiles nbytes scanErr =
     (let finished = re_finished env;
          interval0 = wrap64 (rr_ScanIntervalSeconds r * second);
          interval = (if interval0 \<le> 0 then hour else interval0)
      in \<lparr>rc_Status = (if scanErr = None then RemoteRouteStatusReady else RemoteRouteStatusError),
          rc_LastError = (case scanErr of None \<Rightarrow> '''' | Some e \<Rightarrow> truncate_bytes (re_errorText env e) 4096),
          rc_FinishedAt = finished, rc_DurationMs = go_div (finished - re_started env) 1000000,
          rc_NextScanAt = (case scanErr of
             Some e \<Rightarrow> if re_canceled env e \<and> re_parentDone env then None else Some (finished + interval)
           | None \<Rightarrow> Some (finished + interval)),
          rc_Success = (if scanErr = None then Some (finished, nfiles, nbytes) else None)\<rparr>)"

datatype route_failure =
    RouteClaimFailed repo_error
  | RouteScanFailed "index_error option" "finish_error option"

(* src/internal/scheduler/remote_route_scanner.go 153-213 remoteRouteScanner.scanRoute *)
definition scanRoute :: "route_env \<Rightarrow> route_config \<Rightarrow> remote_route \<Rightarrow> db \<Rightarrow> db \<times> route_failure option" where
  "scanRoute env cfg r s =
     (case ClaimForScan_route (re_fltClaim env) (re_started env) (rr_ID r) (rg_InstanceID cfg) (rr_UpdatedAt r)
             (re_started env) (rg_LeaseDuration cfg) s of
        (s1, Inl e) \<Rightarrow> (s1, Some (RouteClaimFailed e))
      | (s1, Inr claimed) \<Rightarrow>
          if \<not> claimed then (s1, None)
          else
            let (s2, nfiles, nbytes, scanErr) =
                  indexRoute (index_env.truncate env) cfg r (re_started env)
                    (route_heartbeats cfg (rr_ID r) (re_beats env) s1);
                (s3, finish) = FinishScan_route (re_fltFinish env) (re_finished env) (rr_ID r) (rg_InstanceID cfg)
                                 (route_outcome env r nfiles nbytes scanErr) s2;
                finishErr = (case finish of Inl e \<Rightarrow> Some e | Inr _ \<Rightarrow> None)
            in (s3, if scanErr = None \<and> finishErr = None then None
                    else Some (RouteScanFailed scanErr finishErr)))"

text \<open>
  A cycle: the due routes, at most \<open>MaxConcurrent\<close> at a time; the model runs those that were launched
  (all unless the context ended, which is then the last error) one after the other.
\<close>
(* src/internal/scheduler/remote_route_scanner.go 112-151 remoteRouteScanner.ScanOnce *)
definition ScanOnce ::
    "fault \<Rightarrow> time \<Rightarrow> (remote_route \<Rightarrow> route_env) \<Rightarrow> route_config \<Rightarrow> nat \<Rightarrow> db \<Rightarrow>
       db \<times> (repo_error, (nat \<times> route_failure) list \<times> bool) result" where
  "ScanOnce flt now envs cfg launched s =
     (case ListEnabledForScan_route flt now s of
        Inl e \<Rightarrow> (s, Inl e)
      | Inr due \<Rightarrow>
          let (s', errs) =
            fold (\<lambda>r (s, errs). case scanRoute (envs r) cfg r s of
                     (s', None) \<Rightarrow> (s', errs)
                   | (s', Some e) \<Rightarrow> (s', errs @ [(rr_ID r, e)]))
              (take launched due) (s, [])
          in (s', Inr (errs, launched < length due)))"

text \<open>The wake-up channel holds at most one token.\<close>
(* src/internal/scheduler/remote_route_scanner.go 82-87 remoteRouteScanner.Wake *)
definition Wake :: "nat \<Rightarrow> nat" where
  "Wake wake = (if wake < 1 then wake + 1 else wake)"


subsection \<open>What the writes do to the index\<close>

abbreviation of_route :: "nat \<Rightarrow> remote_file \<Rightarrow> bool" where
  "of_route i f \<equiv> rf_RemoteRouteID f = i"

definition seen_now :: "time \<Rightarrow> remote_file \<Rightarrow> bool" where
  "seen_now m f \<longleftrightarrow> rf_LastSeenAt f = Some m \<and> rf_MissingAt f = None"

text \<open>Others' rows are as before, and no row of the route has gone.\<close>
definition index_kept :: "nat \<Rightarrow> remote_file list \<Rightarrow> remote_file list \<Rightarrow> bool" where
  "index_kept i fs fs' \<longleftrightarrow> filter (\<lambda>x. \<not> of_route i x) fs' = filter (\<lambda>x. \<not> of_route i x) fs
     \<and> (\<forall>x \<in> set fs. \<exists>x' \<in> set fs'. same_entry x x')"

text \<open>The rows of the route with a hash of \<open>H\<close> were seen by this scan, and are all there.\<close>
definition index_reflects :: "nat \<Rightarrow> time \<Rightarrow> string set \<Rightarrow> remote_file list \<Rightarrow> remote_file list \<Rightarrow> bool" where
  "index_reflects i m H fs fs' \<longleftrightarrow>
     (\<forall>x \<in> set fs'. of_route i x \<longrightarrow> (if rf_PathHash x \<in> H then seen_now m x else x \<in> set fs))
     \<and> (\<forall>h \<in> H. \<exists>x \<in> set fs'. of_route i x \<and> rf_PathHash x = h)"

definition entry_ok :: "nat \<Rightarrow> time \<Rightarrow> remote_file \<Rightarrow> bool" where
  "entry_ok i m f \<longleftrightarrow> of_route i f \<and> seen_now m f"

lemma index_columns_fields [simp]:
  "rf_RemoteRouteID (index_columns n f x) = rf_RemoteRouteID x" "rf_PathHash (index_columns n f x) = rf_PathHash x"
  "rf_LastSeenAt (index_columns n f x) = rf_LastSeenAt f" "rf_MissingAt (index_columns n f x) = rf_MissingAt f"
  by (simp_all add: index_columns_def)

lemma filter_update_where_other:
  "(\<And>x. p x \<Longrightarrow> \<not> q x) \<Longrightarrow> (\<And>x. q (u x) = q x) \<Longrightarrow> filter q (update_where p u xs) = filter q xs"
  by (induction xs) auto

lemma update_where_image: "x \<in> set xs \<Longrightarrow> (if p x then u x else x) \<in> set (update_where p u xs)"
  by (auto simp: set_update_where)

lemma upsert_entry_cases:
  obtains (stored) "\<exists>x \<in> set (remote_files s). same_entry f x"
      "remote_files (upsert_entry n f s) = update_where (same_entry f) (index_columns n f) (remote_files s)"
  | (added) "\<forall>x \<in> set (remote_files s). \<not> same_entry f x"
      "remote_files (upsert_entry n f s) = remote_files s @ [f\<lparr>rf_ID := next_remote_file s, rf_CreatedAt := n, rf_UpdatedAt := n\<rparr>]"
  by (cases "\<exists>x \<in> set (remote_files s). same_entry f x") (auto simp: upsert_entry_def)

lemma upsert_entry_kept:
  assumes "index_kept i fs (remote_files s)" "of_route i f"
  shows "index_kept i fs (remote_files (upsert_entry n f s))"
proof -
  have other: "filter (\<lambda>x. \<not> of_route i x) (remote_files (upsert_entry n f s)) = filter (\<lambda>x. \<not> of_route i x) (remote_files s)"
    using assms(2) by (auto simp: upsert_entry_def same_entry_def intro!: filter_update_where_other)
  have persists: "\<exists>x' \<in> set (remote_files (upsert_entry n f s)). same_entry x x'" if x: "x \<in> set (remote_files s)" for x
  proof (cases rule: upsert_entry_cases[of s f n])
    case stored
    let ?x = "if same_entry f x then index_columns n f x else x"
    have "?x \<in> set (remote_files (upsert_entry n f s))" unfolding stored(2) by (rule update_where_image[OF x])
    moreover have "same_entry x ?x" by (simp add: same_entry_def)
    ultimately show ?thesis by blast
  next
    case added
    with x show ?thesis by (auto simp: same_entry_def)
  qed
  have "same_entry x z" if "same_entry x y" "same_entry y z" for x y z
    using that by (simp add: same_entry_def)
  with persists other assms(1) show ?thesis unfolding index_kept_def by metis
qed

lemma upsert_entry_reflects:
  assumes "index_reflects i m H fs (remote_files s)" "entry_ok i m f"
  shows "index_reflects i m (insert (rf_PathHash f) H) fs (remote_files (upsert_entry n f s))"
proof (cases rule: upsert_entry_cases[of s f n])
  case stored
  define u where "u = (\<lambda>x. if same_entry f x then index_columns n f x else x)"
  have img: "set (remote_files (upsert_entry n f s)) = u ` set (remote_files s)"
    unfolding stored(2) u_def by (auto simp: set_update_where)
  have same: "of_route i (u x) = of_route i x" "rf_PathHash (u x) = rf_PathHash x" for x by (simp_all add: u_def)
  have old: "if rf_PathHash x \<in> H then seen_now m x else x \<in> set fs" if "x \<in> set (remote_files s)" "of_route i x" for x
    using that assms(1) by (simp add: index_reflects_def)
  have new: "if rf_PathHash x \<in> insert (rf_PathHash f) H then seen_now m (u x) else u x \<in> set fs"
    if x: "x \<in> set (remote_files s)" "of_route i x" for x
  proof (cases "same_entry f x")
    case True
    then show ?thesis using assms(2) by (simp add: u_def entry_ok_def seen_now_def same_entry_def)
  next
    case False
    then have "rf_PathHash x \<noteq> rf_PathHash f" using x assms(2) by (simp add: same_entry_def entry_ok_def)
    then show ?thesis using old[OF x] False by (simp add: u_def)
  qed
  obtain y where y: "y \<in> set (remote_files s)" "of_route i y" "rf_PathHash y = rf_PathHash f"
    using stored(1) assms(2) by (auto simp: same_entry_def entry_ok_def)
  have "\<exists>x \<in> set (remote_files s). of_route i x \<and> rf_PathHash x = h" if "h \<in> insert (rf_PathHash f) H" for h
    using that y assms(1) by (auto simp: index_reflects_def)
  then have "\<exists>x \<in> set (remote_files (upsert_entry n f s)). of_route i x \<and> rf_PathHash x = h"
    if "h \<in> insert (rf_PathHash f) H" for h
    using that unfolding img by (simp add: same)
  moreover have "if rf_PathHash x' \<in> insert (rf_PathHash f) H then seen_now m x' else x' \<in> set fs"
    if x': "x' \<in> set (remote_files (upsert_entry n f s))" "of_route i x'" for x'
  proof -
    from x'(1) obtain x where x: "x \<in> set (remote_files s)" "x' = u x" unfolding img by blast
    with x'(2) same(1)[of x] have "of_route i x" by simp
    from new[OF x(1) this] same(2)[of x] x(2) show ?thesis by (simp only:)
  qed
  ultimately show ?thesis unfolding index_reflects_def by blast
next
  case added
  with assms show ?thesis
    by (auto simp: index_reflects_def entry_ok_def seen_now_def same_entry_def)
qed

lemma upsert_batch:
  assumes "index_kept i fs (remote_files s)" "index_reflects i m H fs (remote_files s)" "list_all (entry_ok i m) b"
  shows "index_kept i fs (remote_files (fold (upsert_entry n) b s))
    \<and> index_reflects i m (rf_PathHash ` set b \<union> H) fs (remote_files (fold (upsert_entry n) b s))"
  using assms
proof (induction b arbitrary: s H)
  case (Cons f b)
  have "index_kept i fs (remote_files (upsert_entry n f s))"
    using Cons.prems by (intro upsert_entry_kept) (auto simp: entry_ok_def)
  moreover have "index_reflects i m (insert (rf_PathHash f) H) fs (remote_files (upsert_entry n f s))"
    using Cons.prems by (intro upsert_entry_reflects) auto
  ultimately show ?case using Cons.IH[of "upsert_entry n f s" "insert (rf_PathHash f) H"] Cons.prems(3) by simp
qed simp

lemma fold_fold_concat: "fold (fold f) bs s = fold f (concat bs) s"
  by (induction bs arbitrary: s) auto

lemma UpsertFileRecords_Inr:
  assumes "UpsertFileRecords flt n b sz s = (s', Inr u)"
  shows "s' = fold (upsert_entry n) b s"
  using assms by (auto simp: UpsertFileRecords_def Let_def fold_fold_concat concat_batches split: option.splits if_splits)

lemma UpsertFileRecords_Inl:
  assumes "UpsertFileRecords flt n b sz s = (s', Inl e)"
  shows "s' = s"
  using assms by (auto simp: UpsertFileRecords_def Let_def split: option.splits if_splits)

subsection \<open>The walk's invariant\<close>

text \<open>
  \<open>P\<close>: the paths queued so far.  The written ones are in the index, the others in the batch, and
  every directory known to the walk is among them.
\<close>
definition indexing ::
    "(string \<Rightarrow> string) \<Rightarrow> nat \<Rightarrow> time \<Rightarrow> remote_file list \<Rightarrow> string set \<Rightarrow> index_state \<Rightarrow> bool" where
  "indexing sha i m fs P a \<longleftrightarrow> index_kept i fs (remote_files (is_db a))
     \<and> list_all (entry_ok i m) (is_batch a) \<and> set (is_seenDirectories a) \<subseteq> P
     \<and> (\<exists>W. index_reflects i m (sha ` W) fs (remote_files (is_db a))
           \<and> W \<union> rf_Path ` set (is_batch a) = P \<and> (\<forall>f \<in> set (is_batch a). rf_PathHash f = sha (rf_Path f)))"

definition calm :: "index_env \<Rightarrow> bool" where
  "calm env \<longleftrightarrow> (\<forall>k t. remote_files (ie_meanwhile env k t) = remote_files t)"

lemma flush_batch_indexing:
  assumes "calm env" "indexing (ie_sha256 env) i m fs P a" "flush_batch env cfg a = (a', e)"
  shows "index_kept i fs (remote_files (is_db a'))
    \<and> (e = None \<longrightarrow> indexing (ie_sha256 env) i m fs P a' \<and> is_batch a' = [])
    \<and> is_seenDirectories a' = is_seenDirectories a \<and> is_files a' = is_files a"
proof (cases "is_batch a = []")
  case True
  with assms show ?thesis by (auto simp: flush_batch_def indexing_def)
next
  case ne: False
  let ?k = "is_writes a" let ?s = "ie_meanwhile env ?k (is_db a)"
  have same: "remote_files ?s = remote_files (is_db a)" using assms(1) by (simp add: calm_def)
  from assms(2) obtain W where W: "index_kept i fs (remote_files (is_db a))" "list_all (entry_ok i m) (is_batch a)"
    "set (is_seenDirectories a) \<subseteq> P" "index_reflects i m (ie_sha256 env ` W) fs (remote_files (is_db a))"
    "W \<union> rf_Path ` set (is_batch a) = P" "\<forall>f \<in> set (is_batch a). rf_PathHash f = ie_sha256 env (rf_Path f)"
    by (auto simp: indexing_def)
  obtain s' res where u: "UpsertFileRecords (ie_fltUpsert env ?k) (ie_clock env ?k) (is_batch a) (rg_BatchSize cfg) ?s = (s', res)"
    by fastforce
  show ?thesis
  proof (cases res)
    case (Inl x)
    with assms(3) ne u UpsertFileRecords_Inl[of "ie_fltUpsert env ?k" "ie_clock env ?k" "is_batch a" "rg_BatchSize cfg" ?s s' x]
    show ?thesis using W(1) same by (auto simp: flush_batch_def Let_def)
  next
    case (Inr x)
    with u have s': "s' = fold (upsert_entry (ie_clock env ?k)) (is_batch a) ?s" by (auto intro: UpsertFileRecords_Inr)
    from upsert_batch[of i fs ?s m "ie_sha256 env ` W" "is_batch a" "ie_clock env ?k"] W same
    have k: "index_kept i fs (remote_files s')"
      and r: "index_reflects i m (rf_PathHash ` set (is_batch a) \<union> ie_sha256 env ` W) fs (remote_files s')"
      by (auto simp: s')
    have "rf_PathHash ` set (is_batch a) = ie_sha256 env ` rf_Path ` set (is_batch a)"
      using W(6) by (auto simp: image_iff intro: rev_bexI)
    then have "rf_PathHash ` set (is_batch a) \<union> ie_sha256 env ` W = ie_sha256 env ` P"
      using W(5) by (auto simp: image_Un)
    with k r W(3) assms(3) ne u Inr show ?thesis
      by (auto simp: flush_batch_def Let_def indexing_def)
  qed
qed

lemma queue_row_indexing:
  assumes "calm env" "indexing (ie_sha256 env) i m fs P a" "entry_ok i m f" "rf_PathHash f = ie_sha256 env (rf_Path f)"
    and "queue_row env cfg f a = (a', e)"
  shows "index_kept i fs (remote_files (is_db a'))
    \<and> (e = None \<longrightarrow> indexing (ie_sha256 env) i m fs (insert (rf_Path f) P) a')
    \<and> is_seenDirectories a' = is_seenDirectories a \<and> is_files a' = is_files a"
proof -
  let ?a = "a\<lparr>is_batch := is_batch a @ [f]\<rparr>"
  have i: "indexing (ie_sha256 env) i m fs (insert (rf_Path f) P) ?a"
    using assms(2,3,4) by (auto simp: indexing_def)
  then have "index_kept i fs (remote_files (is_db ?a))" by (simp add: indexing_def)
  with i flush_batch_indexing[OF assms(1) i, of cfg a' e] assms(5)
  show ?thesis by (auto simp: queue_row_def Let_def split: if_splits)
qed


lemma index_row_fields [simp]:
  "rf_PathHash (index_row env i m p nm d z t mt) = ie_sha256 env p" "rf_Path (index_row env i m p nm d z t mt) = p"
  "entry_ok i m (index_row env i m p nm d z t mt)"
  by (simp_all add: index_row_def Let_def entry_ok_def seen_now_def)

lemma indexing_kept: "indexing sha i m fs P a \<Longrightarrow> index_kept i fs (remote_files (is_db a))"
  by (simp add: indexing_def)

lemma queue_directories_indexing:
  assumes "calm env" "indexing (ie_sha256 env) i m fs P a" "queue_directories env cfg i m ds a = (a', e)"
  shows "index_kept i fs (remote_files (is_db a'))
    \<and> (e = None \<longrightarrow> indexing (ie_sha256 env) i m fs (P \<union> fst ` set ds) a') \<and> is_files a' = is_files a"
  using assms(2,3)
proof (induction ds arbitrary: a P)
  case Nil
  then show ?case by (simp add: indexing_kept)
next
  case (Cons d ds)
  obtain c nm where d: "d = (c, nm)" by (cases d)
  show ?case
  proof (cases "c \<in> set (is_seenDirectories a)")
    case True
    with Cons.prems(1) have "insert c (P \<union> X) = P \<union> X" for X by (auto simp: indexing_def)
    with Cons.IH[OF Cons.prems(1)] Cons.prems(2) True d show ?thesis by simp
  next
    case False
    let ?a = "a\<lparr>is_seenDirectories := c # is_seenDirectories a\<rparr>"
    let ?f = "index_row env i m c nm True 0 None ''''"
    obtain a1 e1 where q: "queue_row env cfg ?f a = (a1, e1)" by fastforce
    have seen: "queue_row env cfg ?f ?a = (a1\<lparr>is_seenDirectories := c # is_seenDirectories a\<rparr>, e1)"
      using q by (auto simp: queue_row_def flush_batch_def Let_def split: if_splits prod.splits sum.splits)
    from queue_row_indexing[OF assms(1) Cons.prems(1) _ _ q] have
      k: "index_kept i fs (remote_files (is_db a1))" and files: "is_files a1 = is_files a"
      and s1: "is_seenDirectories a1 = is_seenDirectories a"
      and ok: "e1 = None \<longrightarrow> indexing (ie_sha256 env) i m fs (insert c P) a1"
      by simp_all
    let ?a1 = "a1\<lparr>is_seenDirectories := c # is_seenDirectories a\<rparr>"
    show ?thesis
    proof (cases e1)
      case (Some x)
      with Cons.prems(2) False d seen k files show ?thesis by auto
    next
      case None
      with ok s1 have "indexing (ie_sha256 env) i m fs (insert c P) ?a1" by (auto simp: indexing_def)
      from Cons.IH[OF this] Cons.prems(2) False d seen files None show ?thesis by simp
    qed
  qed
qed

text \<open>The paths an object brings into the index: the directories above it, and itself.\<close>
definition object_paths :: "remote_object \<Rightarrow> string set" where
  "object_paths obj =
     (case cleanRemoteObjectPath (ro_Path obj) of
        None \<Rightarrow> {}
      | Some p \<Rightarrow> if p = '''' then {}
                  else fst ` set (directories_of p (ro_IsDir obj)) \<union> (if ro_IsDir obj then {} else {p}))"

definition is_indexed_file :: "remote_object \<Rightarrow> bool" where
  "is_indexed_file obj \<longleftrightarrow> \<not> ro_IsDir obj \<and> cleanRemoteObjectPath (ro_Path obj) \<noteq> Some ''''"

lemma visit_object_indexing:
  assumes "calm env" "indexing (ie_sha256 env) i m fs P a" "visit_object env cfg i m obj a = (a', e)"
  shows "index_kept i fs (remote_files (is_db a'))
    \<and> (e = None \<longrightarrow> indexing (ie_sha256 env) i m fs (P \<union> object_paths obj) a'
        \<and> is_files a' = is_files a + (if is_indexed_file obj then 1 else 0))"
proof (cases "cleanRemoteObjectPath (ro_Path obj)")
  case None
  with assms show ?thesis by (auto simp: visit_object_def indexing_kept)
next
  case (Some p)
  show ?thesis
  proof (cases "p = ''''")
    case True
    with assms Some show ?thesis by (auto simp: visit_object_def indexing_kept object_paths_def is_indexed_file_def)
  next
    case ne: False
    let ?ds = "directories_of p (ro_IsDir obj)"
    obtain a1 e1 where q: "queue_directories env cfg i m ?ds a = (a1, e1)" by fastforce
    note qi = queue_directories_indexing[OF assms(1,2) q]
    show ?thesis
    proof (cases "e1 \<noteq> None \<or> ro_IsDir obj")
      case True
      with assms(3) Some ne q qi show ?thesis
        by (cases e1) (auto simp: visit_object_def object_paths_def is_indexed_file_def)
    next
      case False
      obtain a2 e2 where r: "queue_row env cfg (object_row env i m p obj) a1 = (a2, e2)" by fastforce
      have f: "entry_ok i m (object_row env i m p obj)" "rf_Path (object_row env i m p obj) = p"
        "rf_PathHash (object_row env i m p obj) = ie_sha256 env (rf_Path (object_row env i m p obj))"
        by (simp_all add: object_row_def)
      from qi False have i1: "indexing (ie_sha256 env) i m fs (P \<union> fst ` set ?ds) a1" by simp
      from queue_row_indexing[OF assms(1) i1 f(1,3) r] f(2) have
        k: "index_kept i fs (remote_files (is_db a2))" "is_files a2 = is_files a1"
        and ok: "e2 = None \<longrightarrow> indexing (ie_sha256 env) i m fs (insert p (P \<union> fst ` set ?ds)) a2"
        by simp_all
      have v: "visit_object env cfg i m obj a = (case e2 of Some x \<Rightarrow> (a2, Some x)
          | None \<Rightarrow> (a2\<lparr>is_files := is_files a2 + 1,
                      is_bytes := is_bytes a2 + (if ro_Size obj > 0 then ro_Size obj else 0)\<rparr>, None))"
        using Some ne q False r by (auto simp: visit_object_def split: option.split)
      have cong: "indexing sha i m fs Q (b\<lparr>is_files := x, is_bytes := y\<rparr>) = indexing sha i m fs Q b" for sha Q b x y
        by (simp add: indexing_def)
      show ?thesis
      proof (cases e2)
        case None
        with v assms(3) k ok qi Some ne False cong show ?thesis
          by (auto simp: object_paths_def is_indexed_file_def)
      qed (use v assms(3) k in auto)
    qed
  qed
qed

definition listed_paths :: "remote_object list \<Rightarrow> string set" where
  "listed_paths objs = (\<Union>obj \<in> set objs. object_paths obj)"

lemma visit_all_indexing:
  assumes "calm env" "indexing (ie_sha256 env) i m fs P a" "visit_all (visit_object env cfg i m) objs a = Some a'"
  shows "indexing (ie_sha256 env) i m fs (P \<union> listed_paths objs) a'
    \<and> is_files a' = is_files a + int (length (filter is_indexed_file objs))"
  using assms(2,3)
proof (induction objs arbitrary: a P)
  case Nil
  then show ?case by (simp add: listed_paths_def)
next
  case (Cons obj objs)
  obtain a1 e1 where v: "visit_object env cfg i m obj a = (a1, e1)" by fastforce
  with Cons.prems(2) have e: "e1 = None" by (cases e1) auto
  with visit_object_indexing[OF assms(1) Cons.prems(1) v] have
    "indexing (ie_sha256 env) i m fs (P \<union> object_paths obj) a1"
    "is_files a1 = is_files a + (if is_indexed_file obj then 1 else 0)" by simp_all
  with Cons.IH[OF this(1)] Cons.prems(2) v e show ?case by (simp add: listed_paths_def Un_assoc)
qed

lemma walk_entries_kept:
  assumes "calm env" "indexing (ie_sha256 env) i m fs P a" "walk_entries (visit_object env cfg i m) es a = (a', e)"
  shows "index_kept i fs (remote_files (is_db a'))"
  using assms(2,3)
proof (induction es arbitrary: a P)
  case Nil
  then show ?case by (simp add: indexing_kept)
next
  case (Cons x es)
  show ?case
  proof (cases x)
    case (Inl z)
    with Cons.prems show ?thesis by (simp add: indexing_kept)
  next
    case (Inr obj)
    obtain a1 e1 where v: "visit_object env cfg i m obj a = (a1, e1)" by fastforce
    from visit_object_indexing[OF assms(1) Cons.prems(1) v] Cons.IH[of "P \<union> object_paths obj" a1] Cons.prems(2) Inr v
    show ?thesis by (cases e1) auto
  qed
qed

lemma WalkRemote_cases:
  assumes "WalkRemote p visit s = (s', e)"
  shows "s' = s \<and> e \<noteq> None
    \<or> (\<exists>e1. walk_entries visit (wp_entries p) s = (s', e1) \<and> (e = None \<longrightarrow>
          e1 = None \<and> wp_startError p = None \<and> wp_opening p = OpenArray \<and> wp_closing p = None \<and> wp_waitError p = None))"
  using assms
  by (auto simp: WalkRemote_def Let_def split: option.splits open_token.splits prod.splits)


lemma delete_unseen_other:
  "filter (\<lambda>x. \<not> of_route i x) (delete_where (unseen_since i m) fs) = filter (\<lambda>x. \<not> of_route i x) fs"
  by (auto simp: delete_where_def unseen_since_def intro!: filter_cong)

lemma index_walk_outcome:
  assumes "calm env" "index_walk env cfg i m p s = (a, err)"
    and "\<forall>x \<in> set (remote_files s). of_route i x \<longrightarrow> unseen_since i m x"
  shows "filter (\<lambda>x. \<not> of_route i x) (remote_files (is_db a)) = filter (\<lambda>x. \<not> of_route i x) (remote_files s)
    \<and> (case err of
         Some e \<Rightarrow> \<forall>x \<in> set (remote_files s). \<exists>x' \<in> set (remote_files (is_db a)). same_entry x x'
       | None \<Rightarrow> \<exists>objs. wp_entries p = map Inr objs \<and> wp_startError p = None \<and> wp_closing p = None \<and> wp_waitError p = None
           \<and> rf_PathHash ` {x \<in> set (remote_files (is_db a)). of_route i x} = ie_sha256 env ` listed_paths objs
           \<and> (\<forall>x \<in> set (remote_files (is_db a)). of_route i x \<longrightarrow> seen_now m x)
           \<and> is_files a = int (length (filter is_indexed_file objs)))"
proof -
  let ?fs = "remote_files s"
  let ?a0 = "\<lparr>is_db = s, is_batch = [], is_seenDirectories = [], is_files = 0, is_bytes = 0, is_writes = 0\<rparr>"
  have i0: "indexing (ie_sha256 env) i m ?fs {} ?a0"
    by (auto simp: indexing_def index_kept_def index_reflects_def same_entry_def)
  obtain a1 e1 where w: "WalkRemote p (visit_object env cfg i m) ?a0 = (a1, e1)" by fastforce
  have kept: "filter (\<lambda>x. \<not> of_route i x) fs' = filter (\<lambda>x. \<not> of_route i x) ?fs
      \<and> (\<forall>x \<in> set ?fs. \<exists>x' \<in> set fs'. same_entry x x')" if "index_kept i ?fs fs'" for fs'
    using that by (simp add: index_kept_def)
  have k1: "index_kept i ?fs (remote_files (is_db a1))"
    using WalkRemote_cases[OF w] walk_entries_kept[OF assms(1) i0] indexing_kept[OF i0] by auto
  show ?thesis
  proof (cases e1)
    case (Some x)
    with assms(2) w kept[OF k1] show ?thesis by (auto simp: index_walk_def)
  next
    case None
    with WalkRemote_cases[OF w] have we: "walk_entries (visit_object env cfg i m) (wp_entries p) ?a0 = (a1, None)"
      and ends: "wp_startError p = None" "wp_closing p = None" "wp_waitError p = None" by auto
    then obtain objs where objs: "wp_entries p = map Inr objs" "visit_all (visit_object env cfg i m) objs ?a0 = Some a1"
      by (auto simp: walk_entries_None)
    from visit_all_indexing[OF assms(1) i0 objs(2)]
    have i1: "indexing (ie_sha256 env) i m ?fs (listed_paths objs) a1"
      and n1: "is_files a1 = int (length (filter is_indexed_file objs))" by simp_all
    obtain a2 e2 where f: "flush_batch env cfg a1 = (a2, e2)" by fastforce
    note fl = flush_batch_indexing[OF assms(1) i1 f]
    then have k2: "index_kept i ?fs (remote_files (is_db a2))" by simp
    show ?thesis
    proof (cases e2)
      case (Some x)
      with assms(2) w f None kept[OF k2] show ?thesis by (auto simp: index_walk_def)
    next
      case none2: None
      with fl have i2: "indexing (ie_sha256 env) i m ?fs (listed_paths objs) a2" "is_batch a2 = []" by simp_all
      then have r: "index_reflects i m (ie_sha256 env ` listed_paths objs) ?fs (remote_files (is_db a2))"
        by (auto simp: indexing_def)
      show ?thesis
      proof (cases "ie_fltDelete env 0")
        case True
        with assms(2) w f None none2 kept[OF k2] show ?thesis
          by (auto simp: index_walk_def DeleteUnseenFileRecords_def)
      next
        case False
        let ?fs' = "delete_where (unseen_since i m) (remote_files (is_db a2))"
        have a: "is_db a = (is_db a2)\<lparr>remote_files := ?fs'\<rparr>" "err = None" "is_files a = is_files a2"
          using assms(2) w f None none2 False by (auto simp: index_walk_def DeleteUnseenFileRecords_def Let_def)
        have rows: "(x \<in> set ?fs' \<and> of_route i x) \<longleftrightarrow> (x \<in> set (remote_files (is_db a2)) \<and> of_route i x
             \<and> rf_PathHash x \<in> ie_sha256 env ` listed_paths objs \<and> seen_now m x)" for x
          using r assms(3) by (auto simp: index_reflects_def unseen_since_def seen_now_def split: if_splits)
        have "rf_PathHash ` {x \<in> set ?fs'. of_route i x} = ie_sha256 env ` listed_paths objs"
        proof (intro equalityI subsetI)
          fix h assume "h \<in> rf_PathHash ` {x \<in> set ?fs'. of_route i x}"
          then show "h \<in> ie_sha256 env ` listed_paths objs" using rows by blast
        next
          fix h assume h: "h \<in> ie_sha256 env ` listed_paths objs"
          then obtain x where x: "x \<in> set (remote_files (is_db a2))" "of_route i x" "rf_PathHash x = h"
            using r unfolding index_reflects_def by blast
          with r h have "seen_now m x" unfolding index_reflects_def by auto
          with x h rows show "h \<in> rf_PathHash ` {x \<in> set ?fs'. of_route i x}" by blast
        qed
        moreover have "\<forall>x \<in> set ?fs'. of_route i x \<longrightarrow> seen_now m x" using rows by blast
        ultimately show ?thesis
          using a ends objs(1) n1 fl kept[OF k2] by (auto simp: delete_unseen_other)
      qed
    qed
  qed
qed


subsection \<open>The scan as a whole\<close>

lemma UpsertFileRecords_routes:
  "UpsertFileRecords flt n fs b s = (s', res) \<Longrightarrow> routes s' = routes s"
  using index_ops_routes(1)[of flt n fs b s] by simp

definition routes_calm :: "index_env \<Rightarrow> bool" where
  "routes_calm env \<longleftrightarrow> (\<forall>k t. routes (ie_meanwhile env k t) = routes t)"

lemma flush_batch_routes:
  "routes_calm env \<Longrightarrow> routes (is_db (fst (flush_batch env cfg a))) = routes (is_db a)"
  by (auto simp: flush_batch_def Let_def routes_calm_def split: prod.split sum.split dest: UpsertFileRecords_routes)

lemma queue_row_routes:
  "routes_calm env \<Longrightarrow> routes (is_db (fst (queue_row env cfg f a))) = routes (is_db a)"
  by (simp add: queue_row_def Let_def flush_batch_routes)

lemma queue_directories_routes:
  assumes "routes_calm env"
  shows "routes (is_db (fst (queue_directories env cfg i m ds a))) = routes (is_db a)"
proof (induction ds arbitrary: a)
  case (Cons d ds)
  obtain c nm where d: "d = (c, nm)" by (cases d)
  have q: "routes (is_db (fst (queue_row env cfg f (a\<lparr>is_seenDirectories := x\<rparr>)))) = routes (is_db a)" for f x
    using queue_row_routes[OF assms, of cfg f "a\<lparr>is_seenDirectories := x\<rparr>"] by simp
  show ?case unfolding d using Cons.IH q by (fastforce split: prod.split option.split dest: arg_cong[of _ _ fst])
qed simp

lemma visit_object_routes:
  assumes "routes_calm env"
  shows "routes (is_db (fst (visit_object env cfg i m obj a))) = routes (is_db a)"
proof -
  obtain p where "cleanRemoteObjectPath (ro_Path obj) = None \<or> cleanRemoteObjectPath (ro_Path obj) = Some p" by (cases "cleanRemoteObjectPath (ro_Path obj)") auto
  moreover obtain a1 e1 where q: "queue_directories env cfg i m (directories_of p (ro_IsDir obj)) a = (a1, e1)" by fastforce
  moreover obtain a2 e2 where r: "queue_row env cfg (object_row env i m p obj) a1 = (a2, e2)" by fastforce
  moreover have "routes (is_db a1) = routes (is_db a)" "routes (is_db a2) = routes (is_db a1)"
    using queue_directories_routes[OF assms, of cfg i m "directories_of p (ro_IsDir obj)" a]
      queue_row_routes[OF assms, of cfg "object_row env i m p obj" a1] q r by simp_all
  ultimately show ?thesis by (auto simp: visit_object_def split: option.split)
qed

lemma walk_entries_routes:
  assumes "routes_calm env"
  shows "routes (is_db (fst (walk_entries (visit_object env cfg i m) es a))) = routes (is_db a)"
proof (induction es arbitrary: a)
  case (Cons x es)
  show ?case
  proof (cases x)
    case (Inr obj)
    obtain a1 e1 where v: "visit_object env cfg i m obj a = (a1, e1)" by fastforce
    with visit_object_routes[OF assms, of cfg i m obj a] Cons.IH[of a1] Inr show ?thesis
      by (cases e1) auto
  qed simp
qed simp

lemma indexRoute_routes:
  assumes "routes_calm env"
  shows "routes (fst (indexRoute env cfg r started s)) = routes s"
proof -
  have walk: "routes (is_db (fst (index_walk env cfg i m p s))) = routes s" for i m p
  proof -
    let ?a0 = "\<lparr>is_db = s, is_batch = [], is_seenDirectories = [], is_files = 0, is_bytes = 0, is_writes = 0\<rparr>"
    obtain a e where w: "WalkRemote p (visit_object env cfg i m) ?a0 = (a, e)" by fastforce
    have a: "routes (is_db a) = routes s"
      using WalkRemote_cases[OF w] walk_entries_routes[OF assms, of cfg i m "wp_entries p" ?a0] by auto
    obtain a' e' where f: "flush_batch env cfg a = (a', e')" by fastforce
    with flush_batch_routes[OF assms, of cfg a] a have "routes (is_db a') = routes s" by simp
    moreover obtain s2 d where dl: "DeleteUnseenFileRecords (ie_fltDelete env) i m (is_db a') = (s2, d)" by fastforce
    moreover have "routes s2 = routes (is_db a')"
      using index_ops_routes(3)[of "ie_fltDelete env" i m "is_db a'"] dl by simp
    ultimately show ?thesis using a w f
      by (auto simp: index_walk_def split: option.split prod.split sum.split)
  qed
  show ?thesis
    by (simp add: indexRoute_def case_prod_beta Let_def walk split: sum.split)
qed

lemma route_heartbeats_row:
  assumes "route_by i s = Some x" "rr_Status x = RemoteRouteStatusScanning" "rr_ScanLeaseOwner x = rg_InstanceID cfg"
  shows "\<exists>e n. route_by i (route_heartbeats cfg i bs s) = Some (x\<lparr>rr_ScanLeaseExpiresAt := e, rr_UpdatedAt := n\<rparr>)"
  using assms
proof (induction bs arbitrary: s x)
  case Nil
  then show ?case by (intro exI[of _ "rr_ScanLeaseExpiresAt x"] exI[of _ "rr_UpdatedAt x"]) simp
next
  case (Cons b bs)
  obtain flt n where b: "b = (flt, n)" by (cases b)
  obtain s1 res where r: "RenewScanLease_route flt n i (rg_InstanceID cfg) (rg_LeaseDuration cfg) s = (s1, res)" by fastforce
  have "route_by i s1 = Some x \<or> route_by i s1 = Some (renew_route_row n (rg_LeaseDuration cfg) x)"
    using r Cons.prems by (auto simp: RenewScanLease_route_def Let_def route_by_update split: if_splits)
  then obtain e k where s1: "route_by i s1 = Some (x\<lparr>rr_ScanLeaseExpiresAt := e, rr_UpdatedAt := k\<rparr>)"
    by (metis remote_route.surjective remote_route.update_convs(16,20) renew_route_row_def)
  have "route_heartbeats cfg i (b # bs) s = s1 \<or> route_heartbeats cfg i (b # bs) s = route_heartbeats cfg i bs s1"
    using b r by (auto split: sum.split bool.split)
  with Cons.IH[OF s1] Cons.prems s1 show ?case by fastforce
qed


text \<open>The path a scan lists: the policy's spelling of the configured one.\<close>
definition scanned_path :: "route_config \<Rightarrow> remote_route \<Rightarrow> (policy_error, string) result" where
  "scanned_path cfg r = (case rg_Policy cfg of None \<Rightarrow> Inr (rr_RemotePath r)
     | Some pol \<Rightarrow> ValidateRemote (Some pol) (rr_RemoteName r) (rr_RemotePath r))"

definition sample_index_config :: route_config where
  "sample_index_config = NewRemoteRouteScanner ''h'' \<lparr>rg_PollInterval = 0, rg_RouteTimeout = 0, rg_MaxConcurrent = 0,
     rg_BatchSize = 2, rg_InstanceID = '''', rg_LeaseDuration = 0, rg_Heartbeat = 0, rg_Policy = None\<rparr>"

definition listed_file :: remote_object where
  "listed_file = \<lparr>ro_Path = ''d/f'', ro_Name = ''f'', ro_Size = 3, ro_MimeType = '''', ro_ModTime = 9, ro_IsDir = False\<rparr>"

definition sample_index_env :: index_env where
  "sample_index_env = \<lparr>ie_sha256 = (\<lambda>x. x),
     ie_process = (\<lambda>_ _. \<lparr>wp_startError = None, wp_opening = OpenArray, wp_entries = [Inr listed_file],
        wp_closing = None, wp_stderr = [], wp_waitError = None\<rparr>),
     ie_meanwhile = (\<lambda>_ s. s), ie_clock = (\<lambda>_. 9000000), ie_fltUpsert = (\<lambda>_. no_fault), ie_fltDelete = no_fault\<rparr>"

definition stale_entry :: remote_file where
  "stale_entry = (index_row sample_index_env 1 5 ''old'' ''old'' False 1 None '''')\<lparr>rf_ID := 1\<rparr>"

definition sample_index_db :: db where
  "sample_index_db = (route_db [sample_route 1 RemoteRouteStatusReady])\<lparr>remote_files := [stale_entry], next_remote_file := 2\<rparr>"

lemma sample_listing: "directories_of ''d/f'' False = [(''d'', ''d'')] \<and> cleanRemoteObjectPath ''d/f'' = Some ''d/f''"
  by code_simp

lemma sample_batch: "rg_BatchSize sample_index_config = 2"
  by (simp add: sample_index_config_def NewRemoteRouteScanner_def Let_def)

text \<open>
  C8: After a scan of a route that reports no error its index is the listing: the remote's complete
  listing was read, the rows of the route carry exactly the hashes of the listed files and of the
  directories above them, all marked as seen by this scan, and the files counted are the files
  listed.  A scan that fails anywhere, be it in the listing or in a write, has deleted nothing.  Rows
  of other routes are never touched.
\<close>
theorem index_mirrors_listing:
  assumes "\<And>k t. remote_files (ie_meanwhile env k t) = remote_files t"
    and "\<forall>x \<in> set (remote_files s). of_route (rr_ID r) x \<longrightarrow> unseen_since (rr_ID r) (scan_marker started) x"
    and "indexRoute env cfg r started s = (s', nfiles, nbytes, err)"
  shows "filter (\<lambda>x. \<not> of_route (rr_ID r) x) (remote_files s') = filter (\<lambda>x. \<not> of_route (rr_ID r) x) (remote_files s)
    \<and> (case err of
         Some e \<Rightarrow> \<forall>x \<in> set (remote_files s). \<exists>x' \<in> set (remote_files s'). same_entry x x'
       | None \<Rightarrow> \<exists>path objs. scanned_path cfg r = Inr path
           \<and> (let p = ie_process env (rr_RemoteName r) path
              in wp_entries p = map Inr objs \<and> wp_startError p = None \<and> wp_closing p = None \<and> wp_waitError p = None)
           \<and> rf_PathHash ` {x \<in> set (remote_files s'). of_route (rr_ID r) x} = ie_sha256 env ` listed_paths objs
           \<and> (\<forall>x \<in> set (remote_files s'). of_route (rr_ID r) x \<longrightarrow> seen_now (scan_marker started) x)
           \<and> nfiles = int (length (filter is_indexed_file objs)))"
proof (cases "scanned_path cfg r")
  case (Inl e)
  with assms(3) show ?thesis by (auto simp: indexRoute_def scanned_path_def same_entry_def)
next
  case (Inr path)
  have calm: "calm env" using assms(1) by (simp add: calm_def)
  obtain a e where w: "index_walk env cfg (rr_ID r) (scan_marker started) (ie_process env (rr_RemoteName r) path) s = (a, e)"
    by fastforce
  have "s' = is_db a" "nfiles = is_files a" "err = e"
    using assms(3) Inr w by (auto simp: indexRoute_def scanned_path_def)
  with index_walk_outcome[OF calm w assms(2)] Inr show ?thesis
    by (cases e) (simp_all add: Let_def)
qed

theorem index_mirrors_listing_witness:
  "rf_PathHash ` {x \<in> set (remote_files (fst (indexRoute sample_index_env sample_index_config
       (sample_route 1 RemoteRouteStatusReady) 8000000 sample_index_db))). of_route 1 x} = {''d'', ''d/f''}"
proof -
  let ?r = "indexRoute sample_index_env sample_index_config (sample_route 1 RemoteRouteStatusReady) 8000000 sample_index_db"
  have pre: "\<forall>x \<in> set (remote_files sample_index_db). of_route 1 x \<longrightarrow> unseen_since 1 (scan_marker 8000000) x"
    by (simp add: sample_index_db_def stale_entry_def index_row_def Let_def unseen_since_def scan_marker_def)
  have ok: "snd (snd (snd ?r)) = None"
    by (simp add: indexRoute_def index_walk_def WalkRemote_def sample_index_env_def sample_index_config_def
        NewRemoteRouteScanner_def listed_file_def Let_def visit_object_def sample_listing sample_route_def
        queue_row_def flush_batch_def UpsertFileRecords_def DeleteUnseenFileRecords_def effective_batch_def
        batches.simps find_None_iff split: option.split)
  obtain s' n b where r: "?r = (s', n, b, None)" using ok by (metis prod.collapse)
  have id: "rr_ID (sample_route 1 RemoteRouteStatusReady) = 1" by (simp add: sample_route_def)
  have objs: "objs = [listed_file]" if "wp_entries (ie_process sample_index_env x y) = map Inr objs" for x y objs
    using that by (auto simp: sample_index_env_def)
  have lp: "listed_paths [listed_file] = {''d'', ''d/f''}"
    by (auto simp: listed_paths_def object_paths_def listed_file_def sample_listing)
  have env: "ie_sha256 sample_index_env = (\<lambda>x. x)" "\<And>k t. remote_files (ie_meanwhile sample_index_env k t) = remote_files t"
    by (simp_all add: sample_index_env_def)
  obtain path objs where "wp_entries (ie_process sample_index_env (rr_RemoteName (sample_route 1 RemoteRouteStatusReady)) path) = map Inr objs"
      "rf_PathHash ` {x \<in> set (remote_files s'). of_route 1 x} = ie_sha256 sample_index_env ` listed_paths objs"
    using index_mirrors_listing[OF env(2) _ r] pre unfolding id Let_def option.case by blast
  with objs lp env(1) show ?thesis unfolding r fst_conv by simp
qed


lemma claim_route_wins:
  assumes "routes_inv s" "route_by i s = Some x" "route_due t x" "expd = zero_time \<or> rr_UpdatedAt x = expd" "0 < d"
  shows "\<exists>s1. ClaimForScan_route no_fault n i w expd t d s = (s1, Inr True)
     \<and> route_by i s1 = Some (claim_route_row n w t d x)"
proof -
  have d: "distinct (map rr_ID (routes s))" using assms(1) by (simp add: routes_inv_def)
  have "claim_route_row n w t d x \<noteq> x"
  proof
    assume "claim_route_row n w t d x = x"
    from arg_cong[OF this, of rr_ScanLeaseExpiresAt] have "rr_ScanLeaseExpiresAt x = Some (t + d)"
      by (simp add: claim_route_row_def)
    with assms(3,5) show False by (simp add: route_due_def route_lease_free_def)
  qed
  with rows_affected_key[OF d, of i "\<lambda>r. route_due t r \<and> (expd = zero_time \<or> rr_UpdatedAt r = expd)" "claim_route_row n w t d"]
    assms(2-4) route_by_id[OF assms(2)]
  show ?thesis
    by (auto simp: ClaimForScan_route_def Let_def route_by_update route_by_def[symmetric])
qed



definition sample_route_env :: route_env where
  "sample_route_env = index_env.extend sample_index_env
     \<lparr>re_started = 8000000, re_finished = 9500000, re_beats = [(no_fault, 9000000)], re_parentDone = False,
      re_canceled = (\<lambda>_. False), re_errorText = (\<lambda>_. ''''), re_fltClaim = no_fault, re_fltFinish = no_fault\<rparr>"


end
