(* ===== verification/RouteService.thy ===== *)
theory RouteService
  imports AppErrors RouteScanner "HOL-Library.Multiset"
begin

section \<open>The remote-route service\<close>

text \<open>
  \<open>internal/service/remote_route_service.go\<close>: validated creation and change of routes, browsing of
  the index, and the changes of the remote itself: new folders, renamed folders, batches of moved
  files.  The remote is a state that an operator record acts on, the interface
  \<open>remoteRouteObjectOperator\<close> of the code.  The properties account for every file of a batch move and
  say that a refused batch has touched nothing.
\<close>

subsection \<open>State\<close>

(* src/internal/service/remote_route_service.go 24-28 remoteRouteObjectOperator *)
record 'r remote_operator =
  op_StatRemote :: "'r \<Rightarrow> string \<Rightarrow> string \<Rightarrow> (remote_error, remote_object option) result"
  op_MakeRemoteDirectory :: "string \<Rightarrow> string \<Rightarrow> 'r \<Rightarrow> 'r \<times> (remote_error, unit) result"
  op_MoveRemoteObject :: "string \<Rightarrow> string \<Rightarrow> string \<Rightarrow> 'r \<Rightarrow> 'r \<times> (remote_error, unit) result"

text \<open>SHA-256 in hexadecimal, and the faults and clock of the repository calls.\<close>
(* src/internal/service/remote_route_service.go 91-96 remoteRouteService *)
record 'r route_service =
  sv_policy :: "resource_policy option"
  sv_operator :: "'r remote_operator option"
  sv_sha256 :: "string \<Rightarrow> string"
  sv_flt :: "nat \<Rightarrow> fault"
  sv_now :: "nat \<Rightarrow> time"

text \<open>What the service changes: the database, the remote, and the scanner's wake-up channel if there is one.\<close>
record 'r route_world =
  rw_db :: db
  rw_remote :: 'r
  rw_wake :: "nat option"

definition wake_scanner :: "'r route_world \<Rightarrow> 'r route_world" where
  "wake_scanner w = w\<lparr>rw_wake := map_option Wake (rw_wake w)\<rparr>"

definition on_db :: "(db \<Rightarrow> db \<times> 'a) \<Rightarrow> 'r route_world \<Rightarrow> 'r route_world \<times> 'a" where
  "on_db f w = (let (s', x) = f (rw_db w) in (w\<lparr>rw_db := s'\<rparr>, x))"

subsection \<open>Validation\<close>

(* src/internal/service/remote_route_service.go 102-105 makeRemoteRouteKey *)
definition makeRemoteRouteKey :: "(string \<Rightarrow> string) \<Rightarrow> string \<Rightarrow> string \<Rightarrow> string" where
  "makeRemoteRouteKey sha256 remoteName remotePath = sha256 (TrimSpace remoteName @ [byte 0] @ TrimSpace remotePath)"

(* src/internal/service/remote_route_service.go 107-113 validateRouteName *)
definition validateRouteName :: "string \<Rightarrow> (service_error, string) result" where
  "validateRouteName raw =
     (let value = TrimSpace raw
      in if value = '''' \<or> length value > 255
         then Inl (Validation ''name is required and must not exceed 255 characters'') else Inr value)"

(* src/internal/service/remote_route_service.go 115-123 validateRemoteScanInterval *)
definition validateRemoteScanInterval :: "int \<Rightarrow> (service_error, int) result" where
  "validateRemoteScanInterval raw =
     (let value = (if raw \<le> 0 then 3600 else raw)
      in if value < 60 \<or> value > 7 * 24 * 60 * 60
         then Inl (Validation ''scan_interval_seconds must be between 60 and 604800'') else Inr value)"

(* src/internal/service/remote_route_service.go 583-591 remoteRouteRepositoryError *)
fun remoteRouteRepositoryError :: "repo_error \<Rightarrow> service_error" where
  "remoteRouteRepositoryError ErrNotFound = NotFound ''remote route not found''"
| "remoteRouteRepositoryError ErrConflict =
     Conflict ''remote route is in use, currently scanning, disabled, or already exists''"
| "remoteRouteRepositoryError e = RepoFailure e"

definition destination_error :: "policy_error \<Rightarrow> service_error" where
  "destination_error e = Validation ''remote destination is invalid or outside the allowlist''"

definition map_err :: "('e \<Rightarrow> 'f) \<Rightarrow> ('e, 'a) result \<Rightarrow> ('f, 'a) result" where
  "map_err h r = (case r of Inl e \<Rightarrow> Inl (h e) | Inr x \<Rightarrow> Inr x)"

lemma map_err_simps [simp]:
  "map_err h (Inl e) = Inl (h e)" "map_err h (Inr x) = Inr x"
  "map_err h r = Inr y \<longleftrightarrow> r = Inr y" "map_err h r = Inl z \<longleftrightarrow> (\<exists>e. r = Inl e \<and> z = h e)"
  by (auto simp: map_err_def split: sum.splits)

subsection \<open>Routes\<close>

(* src/internal/service/remote_route_service.go 75-81 CreateRemoteRouteInput *)
record create_route_input =
  cri_Name :: string
  cri_RemoteName :: string
  cri_RemotePath :: string
  cri_ScanIntervalSeconds :: int
  cri_Enabled :: "bool option"

(* src/internal/service/remote_route_service.go 83-89 UpdateRemoteRouteInput *)
record update_route_input =
  uri_Name :: "string option"
  uri_RemoteName :: "string option"
  uri_RemotePath :: "string option"
  uri_ScanIntervalSeconds :: "int option"
  uri_Enabled :: "bool option"

definition new_route :: "string \<Rightarrow> string \<Rightarrow> string \<Rightarrow> string \<Rightarrow> int \<Rightarrow> bool \<Rightarrow> time \<Rightarrow> remote_route" where
  "new_route name key remoteName remotePath interval enabled now =
     \<lparr>rr_ID = 0, rr_Name = name, rr_RouteKey = key, rr_RemoteName = remoteName, rr_RemotePath = remotePath,
      rr_Enabled = enabled,
      rr_Status = (if enabled then RemoteRouteStatusPending else RemoteRouteStatusDisabled),
      rr_ScanIntervalSeconds = interval, rr_LastError = '''', rr_LastScanStartedAt = None,
      rr_LastScanFinishedAt = None, rr_LastScanSuccessAt = None, rr_LastScanDurationMs = 0,
      rr_NextScanAt = (if enabled then Some now else None), rr_ScanLeaseOwner = '''', rr_ScanLeaseExpiresAt = None,
      rr_TotalFileCount = 0, rr_TotalFileSize = 0, rr_CreatedAt = zero_time, rr_UpdatedAt = zero_time\<rparr>"

(* src/internal/service/remote_route_service.go 125-159 remoteRouteService.Create *)
definition Create_remote_route ::
    "'r route_service \<Rightarrow> time \<Rightarrow> create_route_input \<Rightarrow> 'r route_world \<Rightarrow> 'r route_world \<times> (service_error, remote_route) result" where
  "Create_remote_route sv now inp w =
     (case bind_res (validateRouteName (cri_Name inp)) (\<lambda>name.
             bind_res (map_err destination_error (ValidateRemote (sv_policy sv) (cri_RemoteName inp) (cri_RemotePath inp))) (\<lambda>remotePath.
               bind_res (validateRemoteScanInterval (cri_ScanIntervalSeconds inp)) (\<lambda>interval.
                 Inr (name, remotePath, interval)))) of
        Inl e \<Rightarrow> (w, Inl e)
      | Inr (name, remotePath, interval) \<Rightarrow>
          let enabled = (case cri_Enabled inp of None \<Rightarrow> True | Some b \<Rightarrow> b);
              route = new_route name (makeRemoteRouteKey (sv_sha256 sv) (cri_RemoteName inp) remotePath)
                        (TrimSpace (cri_RemoteName inp)) remotePath interval enabled now
          in case on_db (Create_route (sv_flt sv 0) (sv_now sv 0) route) w of
               (w1, Inl e) \<Rightarrow> (w1, Inl (remoteRouteRepositoryError e))
             | (w1, Inr r) \<Rightarrow> ((if enabled then wake_scanner w1 else w1), Inr r))"

(* src/internal/service/remote_route_service.go 223-229 remoteRouteService.Get *)
definition Get_remote_route :: "'r route_service \<Rightarrow> nat \<Rightarrow> nat \<Rightarrow> 'r route_world \<Rightarrow> (service_error, remote_route) result" where
  "Get_remote_route sv k i w = map_err remoteRouteRepositoryError (GetByID_route (sv_flt sv k) i (rw_db w))"

text \<open>The route with the requested changes, and whether its destination changes.\<close>
(* src/internal/service/remote_route_service.go 166-206 remoteRouteService.Update *)
definition changed_route ::
    "'r route_service \<Rightarrow> time \<Rightarrow> update_route_input \<Rightarrow> remote_route \<Rightarrow> (service_error, remote_route \<times> bool) result" where
  "changed_route sv now inp route =
     bind_res (case uri_Name inp of None \<Rightarrow> Inr (rr_Name route) | Some n \<Rightarrow> validateRouteName n) (\<lambda>name.
       let remoteName = (case uri_RemoteName inp of None \<Rightarrow> rr_RemoteName route | Some n \<Rightarrow> TrimSpace n);
           path0 = (case uri_RemotePath inp of None \<Rightarrow> rr_RemotePath route | Some p \<Rightarrow> p) in
       bind_res (map_err destination_error (ValidateRemote (sv_policy sv) remoteName path0)) (\<lambda>remotePath.
         bind_res (case uri_ScanIntervalSeconds inp of None \<Rightarrow> Inr (rr_ScanIntervalSeconds route)
                   | Some v \<Rightarrow> validateRemoteScanInterval v) (\<lambda>interval.
           let destinationChanged = (rr_RemoteName route \<noteq> remoteName \<or> rr_RemotePath route \<noteq> remotePath);
               enabled = (case uri_Enabled inp of None \<Rightarrow> rr_Enabled route | Some b \<Rightarrow> b);
               restart = (rr_Status route = RemoteRouteStatusDisabled \<or> destinationChanged)
           in Inr (route\<lparr>rr_Name := name, rr_RemoteName := remoteName, rr_RemotePath := remotePath,
                     rr_RouteKey := makeRemoteRouteKey (sv_sha256 sv) remoteName remotePath,
                     rr_ScanIntervalSeconds := interval, rr_Enabled := enabled,
                     rr_Status := (if \<not> enabled then RemoteRouteStatusDisabled
                                   else if restart then RemoteRouteStatusPending else rr_Status route),
                     rr_NextScanAt := (if \<not> enabled then None
                                       else if restart then Some now else rr_NextScanAt route)\<rparr>, destinationChanged))))"

(* src/internal/service/remote_route_service.go 161-214 remoteRouteService.Update *)
definition Update_remote_route ::
    "'r route_service \<Rightarrow> time \<Rightarrow> nat \<Rightarrow> update_route_input \<Rightarrow> 'r route_world \<Rightarrow> 'r route_world \<times> (service_error, remote_route) result" where
  "Update_remote_route sv now i inp w =
     (case bind_res (Get_remote_route sv 0 i w) (changed_route sv now inp) of
        Inl e \<Rightarrow> (w, Inl e)
      | Inr (route, destinationChanged) \<Rightarrow>
          (case on_db (Update_route (sv_flt sv 1) (sv_now sv 1) route destinationChanged) w of
             (w1, Inl e) \<Rightarrow> (w1, Inl (remoteRouteRepositoryError e))
           | (w1, Inr _) \<Rightarrow>
               let w2 = (if rr_Enabled route then wake_scanner w1 else w1)
               in (w2, Get_remote_route sv 2 i w2)))"

(* src/internal/service/remote_route_service.go 216-221 remoteRouteService.Delete *)
definition Delete_remote_route ::
    "'r route_service \<Rightarrow> nat \<Rightarrow> 'r route_world \<Rightarrow> 'r route_world \<times> (service_error, unit) result" where
  "Delete_remote_route sv i w =
     (case on_db (Delete_route (sv_flt sv 0) (sv_now sv 0) i) w of
        (w1, r) \<Rightarrow> (w1, map_err remoteRouteRepositoryError r))"

(* src/internal/service/remote_route_service.go 231-237 remoteRouteService.List *)
definition List_remote_routes ::
    "(string \<Rightarrow> string \<Rightarrow> bool) \<Rightarrow> 'r route_service \<Rightarrow> string \<Rightarrow> route_status option \<Rightarrow> int \<Rightarrow> int \<Rightarrow> 'r route_world
      \<Rightarrow> (service_error, remote_route list \<times> nat) result" where
  "List_remote_routes like sv keyword status page0 size0 w =
     (let (page, pageSize) = normalizeBrowsePage page0 size0
      in if page > 10000 then Inl (Validation ''page is too large'')
         else map_err RepoFailure (List_routes like (sv_flt sv 0) keyword status (nat ((page - 1) * pageSize)) (nat pageSize) (rw_db w)))"

(* src/internal/service/remote_route_service.go 239-247 remoteRouteService.ScheduleScan *)
definition ScheduleScan_service ::
    "'r route_service \<Rightarrow> nat \<Rightarrow> 'r route_world \<Rightarrow> 'r route_world \<times> (service_error, unit) result" where
  "ScheduleScan_service sv i w =
     (case on_db (ScheduleScan (sv_flt sv 0) (sv_now sv 0) i) w of
        (w1, Inl e) \<Rightarrow> (w1, Inl (remoteRouteRepositoryError e))
      | (w1, Inr _) \<Rightarrow> (wake_scanner w1, Inr ()))"

(* src/internal/service/remote_route_service.go 249-258 remoteRouteService.ScheduleAllScans *)
definition ScheduleAllScans_service ::
    "'r route_service \<Rightarrow> 'r route_world \<Rightarrow> 'r route_world \<times> (service_error, nat) result" where
  "ScheduleAllScans_service sv w =
     (case on_db (ScheduleAllScans (sv_flt sv 0) (sv_now sv 0)) w of
        (w1, Inl e) \<Rightarrow> (w1, Inl (RepoFailure e))
      | (w1, Inr n) \<Rightarrow> (wake_scanner w1, Inr n))"

subsection \<open>Browsing the index\<close>

(* src/internal/service/file_index_service.go 16-31 IndexedFileEntry *)
record indexed_entry =
  ix_ID :: nat
  ix_Type :: string
  ix_Name :: string
  ix_Path :: string
  ix_Status :: string
  ix_Size :: int
  ix_FileCount :: int
  ix_ModTime :: "time option"
  ix_LastSeenAt :: "time option"
  ix_UploadedAt :: "time option"
  ix_MissingAt :: "time option"
  ix_TaskID :: nat
  ix_TaskProgress :: int
  ix_ErrorMessage :: string

(* src/internal/service/file_index_service.go 33-40 FileBrowseResult *)
record browse_result =
  bw_CurrentPath :: string
  bw_ParentPath :: string
  bw_Items :: "indexed_entry list"
  bw_Total :: nat
  bw_Page :: int
  bw_PageSize :: int

definition remote_entry :: "remote_file \<Rightarrow> indexed_entry" where
  "remote_entry f = \<lparr>ix_ID = rf_ID f, ix_Type = (if rf_IsDir f then ''directory'' else ''file''), ix_Name = rf_Name f,
     ix_Path = rf_Path f, ix_Status = (if rf_MissingAt f \<noteq> None then ''missing'' else ''available''),
     ix_Size = rf_Size f, ix_FileCount = 0, ix_ModTime = rf_ModTime f, ix_LastSeenAt = rf_LastSeenAt f,
     ix_UploadedAt = None, ix_MissingAt = rf_MissingAt f, ix_TaskID = 0, ix_TaskProgress = 0, ix_ErrorMessage = ''''\<rparr>"

(* src/internal/service/remote_route_service.go 260-292 remoteRouteService.BrowseFiles *)
definition BrowseFiles ::
    "(string \<Rightarrow> 'c::linorder) \<Rightarrow> 'r route_service \<Rightarrow> nat \<Rightarrow> string \<Rightarrow> int \<Rightarrow> int \<Rightarrow> 'r route_world
      \<Rightarrow> (service_error, browse_result) result" where
  "BrowseFiles collate sv i path0 page0 size0 w =
     bind_res (Get_remote_route sv 0 i w) (\<lambda>_.
       bind_res (normalizeIndexPath path0) (\<lambda>currentPath.
         let (page, pageSize) = normalizeBrowsePage page0 size0
         in if page > 10000 then Inl (Validation ''page is too large'')
            else bind_res (map_err RepoFailure (ListFileRecords (sv_sha256 sv) collate (sv_flt sv 1) i currentPath
                             (nat ((page - 1) * pageSize)) (nat pageSize) (rw_db w))) (\<lambda>(items, tot).
              Inr \<lparr>bw_CurrentPath = currentPath, bw_ParentPath = parentIndexPath currentPath,
                   bw_Items = map remote_entry items, bw_Total = tot, bw_Page = page, bw_PageSize = pageSize\<rparr>)))"

subsection \<open>Changes of the remote\<close>

(* src/internal/service/remote_route_service.go 296-302 validateRemoteObjectName *)
definition validateRemoteObjectName :: "string \<Rightarrow> (service_error, string) result" where
  "validateRemoteObjectName raw =
     (let value = TrimSpace raw
      in if value = '''' \<or> length value > 255 \<or> value = ''.'' \<or> value = ''..''
            \<or> ContainsAny value [slash, CHR 0x5C, byte 0, byte 13, byte 10]
         then Inl (Validation ''folder name is invalid or exceeds 255 characters'') else Inr value)"

(* src/internal/service/remote_route_service.go 304-313 normalizeRemoteMutationPath *)
definition normalizeRemoteMutationPath :: "string \<Rightarrow> bool \<Rightarrow> (service_error, string) result" where
  "normalizeRemoteMutationPath raw allowRoot =
     bind_res (normalizeIndexPath raw) (\<lambda>normalized.
       if normalized = '''' \<and> \<not> allowRoot
       then Inl (Validation ''path must identify an item below the route root'') else Inr normalized)"

(* src/internal/service/remote_route_service.go 315-330 remoteRouteService.writableRoute *)
definition writableRoute ::
    "'r route_service \<Rightarrow> nat \<Rightarrow> 'r route_world \<Rightarrow> (service_error, 'r remote_operator \<times> remote_route) result" where
  "writableRoute sv i w =
     (case sv_operator sv of
        None \<Rightarrow> Inl OperatorUnavailable
      | Some oper \<Rightarrow>
          bind_res (Get_remote_route sv 0 i w) (\<lambda>route.
            if \<not> rr_Enabled route then Inl (Conflict ''remote route must be enabled before it can be modified'')
            else if rr_Status route = RemoteRouteStatusScanning
            then Inl (Conflict ''remote route is currently scanning; retry after the scan finishes'')
            else Inr (oper, route)))"

(* src/internal/service/remote_route_service.go 332-342 remoteRouteService.routeObjectPath *)
definition routeObjectPath :: "'r route_service \<Rightarrow> remote_route \<Rightarrow> string \<Rightarrow> (service_error, string) result" where
  "routeObjectPath sv route relativePath =
     (let target = (if relativePath \<noteq> '''' then path_Join [rr_RemotePath route, relativePath] else rr_RemotePath route)
      in map_err (\<lambda>_. Validation ''remote object path is invalid or outside the allowlist'')
           (ValidateRemote (sv_policy sv) (rr_RemoteName route) target))"

(* src/internal/service/remote_route_service.go 344-353 remoteRouteService.scheduleMutationRefresh *)
definition scheduleMutationRefresh :: "'r route_service \<Rightarrow> nat \<Rightarrow> nat \<Rightarrow> 'r route_world \<Rightarrow> 'r route_world \<times> bool" where
  "scheduleMutationRefresh sv k i w =
     (case on_db (ScheduleScan (sv_flt sv k) (sv_now sv k) i) w of
        (w1, Inl _) \<Rightarrow> (w1, False)
      | (w1, Inr _) \<Rightarrow> (wake_scanner w1, True))"

text \<open>
  The message, in UTF-8, that tells the administrator to upgrade the server behind the remote.
\<close>
definition directory_not_created_message :: string where
  "directory_not_created_message = map char_of
     ([232,191,156,231,171,175,230,156,141,229,138,161,230,156,170,229,136,155,229,187,186,230,150,135,228,187,182,
       229,164,185,239,188,155,232,139,165,228,189,191,231,148,168,32,79,112,101,110,76,105,115,116,32,49,49,53,32,
       118,52,46,50,46,50,239,188,140,232,175,183,229,141,135,231,186,167,232,135,179,32,118,52,46,50,46,51,32,230,
       136,150,230,155,180,233,171,152,231,137,136,230,156,172] :: nat list)"

text \<open>\<open>errors.Is(err, rclone.ErrRemoteDirectoryNotCreated)\<close>.\<close>
definition directory_not_created :: "remote_error \<Rightarrow> bool" where
  "directory_not_created e \<longleftrightarrow> e = NotADirectory \<or> e = DirectoryMissing"

definition join_index :: "string \<Rightarrow> string \<Rightarrow> string" where
  "join_index parent name = (if parent \<noteq> '''' then path_Join [parent, name] else name)"

(* src/internal/service/remote_route_service.go 355-399 remoteRouteService.CreateFolder *)
definition CreateFolder ::
    "'r route_service \<Rightarrow> nat \<Rightarrow> string \<Rightarrow> string \<Rightarrow> 'r route_world \<Rightarrow> 'r route_world \<times> (service_error, string \<times> bool) result" where
  "CreateFolder sv i parentRaw nameRaw w =
     (case bind_res (writableRoute sv i w) (\<lambda>(oper, route).
             bind_res (normalizeRemoteMutationPath parentRaw True) (\<lambda>parentPath.
               bind_res (validateRemoteObjectName nameRaw) (\<lambda>name.
                 bind_res (routeObjectPath sv route parentPath) (\<lambda>parentRemotePath.
                   bind_res (map_err RemoteFailure (op_StatRemote oper (rw_remote w) (rr_RemoteName route) parentRemotePath)) (\<lambda>parent.
                     if (case parent of None \<Rightarrow> True | Some p \<Rightarrow> \<not> ro_IsDir p)
                     then Inl (NotFound ''parent remote folder does not exist'')
                     else let createdPath = join_index parentPath name in
                       bind_res (routeObjectPath sv route createdPath) (\<lambda>createdRemotePath.
                         bind_res (map_err RemoteFailure (op_StatRemote oper (rw_remote w) (rr_RemoteName route) createdRemotePath)) (\<lambda>there.
                           if there \<noteq> None then Inl (Conflict ''a remote file or folder with the same name already exists'')
                           else Inr (oper, route, createdPath, createdRemotePath)))))))) of
        Inl e \<Rightarrow> (w, Inl e)
      | Inr (oper, route, createdPath, createdRemotePath) \<Rightarrow>
          (case op_MakeRemoteDirectory oper (rr_RemoteName route) createdRemotePath (rw_remote w) of
             (r', Inl e) \<Rightarrow> (w\<lparr>rw_remote := r'\<rparr>,
                Inl (if directory_not_created e then Conflict directory_not_created_message else RemoteFailure e))
           | (r', Inr _) \<Rightarrow>
               let (w2, refreshed) = scheduleMutationRefresh sv 1 (rr_ID route) (w\<lparr>rw_remote := r'\<rparr>)
               in (w2, Inr (createdPath, refreshed))))"

(* src/internal/service/remote_route_service.go 401-446 remoteRouteService.RenameFolder *)
definition RenameFolder ::
    "'r route_service \<Rightarrow> nat \<Rightarrow> string \<Rightarrow> string \<Rightarrow> 'r route_world \<Rightarrow> 'r route_world \<times> (service_error, string \<times> bool) result" where
  "RenameFolder sv i folderRaw nameRaw w =
     (case bind_res (writableRoute sv i w) (\<lambda>(oper, route).
             bind_res (normalizeRemoteMutationPath folderRaw False) (\<lambda>folderPath.
               bind_res (validateRemoteObjectName nameRaw) (\<lambda>newName.
                 bind_res (routeObjectPath sv route folderPath) (\<lambda>sourceRemotePath.
                   bind_res (map_err RemoteFailure (op_StatRemote oper (rw_remote w) (rr_RemoteName route) sourceRemotePath)) (\<lambda>source.
                     if (case source of None \<Rightarrow> True | Some p \<Rightarrow> \<not> ro_IsDir p)
                     then Inl (NotFound ''remote folder does not exist'')
                     else let destinationPath = join_index (parentIndexPath folderPath) newName in
                       if destinationPath = folderPath then Inl (Validation ''new folder name must be different'')
                       else bind_res (routeObjectPath sv route destinationPath) (\<lambda>destinationRemotePath.
                         bind_res (map_err RemoteFailure (op_StatRemote oper (rw_remote w) (rr_RemoteName route) destinationRemotePath)) (\<lambda>there.
                           if there \<noteq> None then Inl (Conflict ''a remote file or folder with the same name already exists'')
                           else Inr (oper, route, sourceRemotePath, destinationPath, destinationRemotePath)))))))) of
        Inl e \<Rightarrow> (w, Inl e)
      | Inr (oper, route, sourceRemotePath, destinationPath, destinationRemotePath) \<Rightarrow>
          (case op_MoveRemoteObject oper (rr_RemoteName route) sourceRemotePath destinationRemotePath (rw_remote w) of
             (r', Inl e) \<Rightarrow> (w\<lparr>rw_remote := r'\<rparr>, Inl (RemoteFailure e))
           | (r', Inr _) \<Rightarrow>
               let (w2, refreshed) = scheduleMutationRefresh sv 1 (rr_ID route) (w\<lparr>rw_remote := r'\<rparr>)
               in (w2, Inr (destinationPath, refreshed))))"

subsection \<open>Moving a batch of files\<close>

(* src/internal/service/remote_route_service.go 50-53 RemoteFileMoveResult *)
record move_result =
  mr_SourcePath :: string
  mr_DestinationPath :: string

(* src/internal/service/remote_route_service.go 55-58 RemoteFileMoveFailure *)
record move_failure =
  mf_SourcePath :: string
  mf_Reason :: string

(* src/internal/service/remote_route_service.go 60-64 RemoteBatchMoveResult *)
record batch_move =
  bm_Moved :: "move_result list"
  bm_Failed :: "move_failure list"
  bm_RefreshScheduled :: bool

(* src/internal/service/remote_route_service.go 66-73 RemoteMoveProgress *)
record move_progress =
  mp_Phase :: string
  mp_Total :: nat
  mp_Processed :: nat
  mp_CurrentPath :: string
  mp_Result :: batch_move

definition maxRemoteMoveBatch :: nat where "maxRemoteMoveBatch = 100"

definition move_report :: "nat \<Rightarrow> string \<Rightarrow> string \<Rightarrow> batch_move \<Rightarrow> move_progress" where
  "move_report tot phase currentPath r =
     \<lparr>mp_Phase = phase, mp_Total = tot, mp_Processed = length (bm_Moved r) + length (bm_Failed r),
      mp_CurrentPath = currentPath, mp_Result = r\<rparr>"

definition move_failed :: "string \<Rightarrow> string \<Rightarrow> batch_move \<Rightarrow> batch_move" where
  "move_failed sourcePath reason r = r\<lparr>bm_Failed := bm_Failed r @ [\<lparr>mf_SourcePath = sourcePath, mf_Reason = reason\<rparr>]\<rparr>"

(* src/internal/service/remote_route_service.go 498-503 moveCandidate *)
record move_candidate =
  mc_sourcePath :: string
  mc_destinationPath :: string
  mc_sourceRemotePath :: string
  mc_destRemotePath :: string

text \<open>The state of the two loops; \<open>bs_reports\<close> are the snapshots handed to \<open>onProgress\<close>, in order.\<close>
record batch_state =
  bs_seenSources :: "string list"
  bs_seenDestinations :: "string list"
  bs_candidates :: "move_candidate list"
  bs_result :: batch_move
  bs_reports :: "move_progress list"

definition report :: "nat \<Rightarrow> string \<Rightarrow> string \<Rightarrow> batch_state \<Rightarrow> batch_state" where
  "report tot phase currentPath b =
     b\<lparr>bs_reports := bs_reports b @ [move_report tot phase currentPath (bs_result b)]\<rparr>"

definition reject :: "nat \<Rightarrow> string \<Rightarrow> string \<Rightarrow> string \<Rightarrow> batch_state \<Rightarrow> batch_state" where
  "reject tot phase sourcePath reason b =
     report tot phase sourcePath (b\<lparr>bs_result := move_failed sourcePath reason (bs_result b)\<rparr>)"

text \<open>What the look at the remote decides for a source whose destination is new.\<close>
(* src/internal/service/remote_route_service.go 532-561 remoteRouteService.MoveFilesWithProgress *)
definition inspect_source ::
    "'r route_service \<Rightarrow> 'r remote_operator \<Rightarrow> remote_route \<Rightarrow> 'r \<Rightarrow> nat \<Rightarrow> string \<Rightarrow> string \<Rightarrow> batch_state \<Rightarrow>
       batch_state \<times> service_error option" where
  "inspect_source sv oper route remote tot sourcePath destinationPath b =
     (case bind_res (routeObjectPath sv route sourcePath) (\<lambda>sourceRemotePath.
             bind_res (routeObjectPath sv route destinationPath) (\<lambda>destinationRemotePath.
               bind_res (map_err RemoteFailure (op_StatRemote oper remote (rr_RemoteName route) sourceRemotePath)) (\<lambda>source.
                 case source of
                   None \<Rightarrow> Inr (Inl ''source file does not exist'')
                 | Some obj \<Rightarrow>
                     if ro_IsDir obj then Inr (Inl ''source path is a directory'')
                     else bind_res (map_err RemoteFailure (op_StatRemote oper remote (rr_RemoteName route) destinationRemotePath)) (\<lambda>there.
                       if there \<noteq> None then Inr (Inl ''destination already exists'')
                       else Inr (Inr \<lparr>mc_sourcePath = sourcePath, mc_destinationPath = destinationPath,
                                     mc_sourceRemotePath = sourceRemotePath, mc_destRemotePath = destinationRemotePath\<rparr>))))) of
        Inl e \<Rightarrow> (b, Some e)
      | Inr (Inl reason) \<Rightarrow> (reject tot ''validating'' sourcePath reason b, None)
      | Inr (Inr c) \<Rightarrow> (b\<lparr>bs_candidates := bs_candidates b @ [c]\<rparr>, None))"

(* src/internal/service/remote_route_service.go 507-562 remoteRouteService.MoveFilesWithProgress *)
definition validate_source ::
    "'r route_service \<Rightarrow> 'r remote_operator \<Rightarrow> remote_route \<Rightarrow> string \<Rightarrow> 'r \<Rightarrow> nat \<Rightarrow> string \<Rightarrow> batch_state \<Rightarrow>
       batch_state \<times> service_error option" where
  "validate_source sv oper route targetFolder remote tot rawSourcePath b =
     (case normalizeRemoteMutationPath rawSourcePath False of
        Inl e \<Rightarrow> (b, Some e)
      | Inr sourcePath \<Rightarrow>
          if sourcePath \<in> set (bs_seenSources b)
          then (b, Some (Validation ''source_paths must not contain duplicates''))
          else
            let b1 = report tot ''validating'' sourcePath (b\<lparr>bs_seenSources := sourcePath # bs_seenSources b\<rparr>);
                destinationPath = join_index targetFolder (path_Base sourcePath)
            in if destinationPath = sourcePath
               then (reject tot ''validating'' sourcePath ''file is already in the target folder'' b1, None)
               else if destinationPath \<in> set (bs_seenDestinations b1)
               then (reject tot ''validating'' sourcePath ''another selected file has the same destination name'' b1, None)
               else inspect_source sv oper route remote tot sourcePath destinationPath
                      (b1\<lparr>bs_seenDestinations := destinationPath # bs_seenDestinations b1\<rparr>))"

fun validate_sources ::
    "'r route_service \<Rightarrow> 'r remote_operator \<Rightarrow> remote_route \<Rightarrow> string \<Rightarrow> 'r \<Rightarrow> nat \<Rightarrow> string list \<Rightarrow> batch_state \<Rightarrow>
       batch_state \<times> service_error option" where
  "validate_sources sv oper route target remote tot [] b = (b, None)"
| "validate_sources sv oper route target remote tot (raw # raws) b =
     (case validate_source sv oper route target remote tot raw b of
        (b', Some e) \<Rightarrow> (b', Some e)
      | (b', None) \<Rightarrow> validate_sources sv oper route target remote tot raws b')"

(* src/internal/service/remote_route_service.go 564-574 remoteRouteService.MoveFilesWithProgress *)
fun move_candidates ::
    "'r remote_operator \<Rightarrow> remote_route \<Rightarrow> nat \<Rightarrow> move_candidate list \<Rightarrow> 'r \<times> batch_state \<Rightarrow> 'r \<times> batch_state" where
  "move_candidates oper route tot [] rb = rb"
| "move_candidates oper route tot (c # cs) (r, b) =
     (let b1 = report tot ''moving'' (mc_sourcePath c) b in
      case op_MoveRemoteObject oper (rr_RemoteName route) (mc_sourceRemotePath c) (mc_destRemotePath c) r of
        (r', Inl _) \<Rightarrow>
          move_candidates oper route tot cs (r', reject tot ''moving'' (mc_sourcePath c) ''remote move failed'' b1)
      | (r', Inr _) \<Rightarrow>
          move_candidates oper route tot cs
            (r', report tot ''moving'' (mc_sourcePath c)
                   (b1\<lparr>bs_result := (bs_result b1)\<lparr>bm_Moved := bm_Moved (bs_result b1) @
                       [\<lparr>mr_SourcePath = mc_sourcePath c, mr_DestinationPath = mc_destinationPath c\<rparr>]\<rparr>\<rparr>)))"

definition no_batch :: batch_move where
  "no_batch = \<lparr>bm_Moved = [], bm_Failed = [], bm_RefreshScheduled = False\<rparr>"

definition start_batch :: batch_state where
  "start_batch = \<lparr>bs_seenSources = [], bs_seenDestinations = [], bs_candidates = [], bs_result = no_batch, bs_reports = []\<rparr>"

text \<open>The route and the target folder a batch moves to, both looked at before any source.\<close>
(* src/internal/service/remote_route_service.go 478-496 remoteRouteService.MoveFilesWithProgress *)
definition move_target ::
    "'r route_service \<Rightarrow> nat \<Rightarrow> string \<Rightarrow> 'r route_world \<Rightarrow> (service_error, 'r remote_operator \<times> remote_route \<times> string) result" where
  "move_target sv i targetRaw w =
     bind_res (writableRoute sv i w) (\<lambda>(oper, route).
       bind_res (normalizeRemoteMutationPath targetRaw True) (\<lambda>targetFolder.
         bind_res (routeObjectPath sv route targetFolder) (\<lambda>targetRemotePath.
           bind_res (map_err RemoteFailure (op_StatRemote oper (rw_remote w) (rr_RemoteName route) targetRemotePath)) (\<lambda>target.
             if (case target of None \<Rightarrow> True | Some t \<Rightarrow> \<not> ro_IsDir t)
             then Inl (NotFound ''target remote folder does not exist'')
             else Inr (oper, route, targetFolder)))))"

text \<open>The world after the batch, its result, the error and the progress reports.\<close>
(* src/internal/service/remote_route_service.go 462-581 remoteRouteService.MoveFilesWithProgress *)
definition MoveFilesWithProgress ::
    "'r route_service \<Rightarrow> nat \<Rightarrow> string list \<Rightarrow> string \<Rightarrow> 'r route_world \<Rightarrow>
       'r route_world \<times> batch_move \<times> service_error option \<times> move_progress list" where
  "MoveFilesWithProgress sv i sourcePaths targetRaw w =
     (let tot = length sourcePaths in
      if tot = 0 then (w, no_batch, Some (Validation ''source_paths must contain at least one file''), [])
      else if tot > maxRemoteMoveBatch
      then (w, no_batch, Some (Validation ''a batch can move at most 100 files''), [])
      else
        let b0 = report tot ''preparing'' '''' start_batch in
        case move_target sv i targetRaw w of
          Inl e \<Rightarrow> (w, no_batch, Some e, bs_reports b0)
        | Inr (oper, route, targetFolder) \<Rightarrow>
            (case validate_sources sv oper route targetFolder (rw_remote w) tot sourcePaths b0 of
               (b1, Some e) \<Rightarrow> (w, bs_result b1, Some e, bs_reports b1)
             | (b1, None) \<Rightarrow>
                 let (r', b2) = move_candidates oper route tot (bs_candidates b1) (rw_remote w, b1);
                     w2 = w\<lparr>rw_remote := r'\<rparr>;
                     (w3, b3) = (if bm_Moved (bs_result b2) \<noteq> []
                                 then let b2' = report tot ''refreshing'' '''' b2;
                                          (w3, refreshed) = scheduleMutationRefresh sv 1 (rr_ID route) w2
                                      in (w3, b2'\<lparr>bs_result := (bs_result b2')\<lparr>bm_RefreshScheduled := refreshed\<rparr>\<rparr>)
                                 else (w2, b2));
                     b4 = report tot ''completed'' '''' b3
                 in (w3, bs_result b4, None, bs_reports b4)))"


subsection \<open>What becomes of a batch\<close>

definition report_ok :: "nat \<Rightarrow> move_progress \<Rightarrow> bool" where
  "report_ok tot m \<longleftrightarrow> mp_Total m = tot \<and> mp_Processed m \<le> tot"

definition moved_sources :: "batch_move \<Rightarrow> string multiset" where
  "moved_sources r = mset (map mr_SourcePath (bm_Moved r)) + mset (map mf_SourcePath (bm_Failed r))"

lemma size_moved_sources: "size (moved_sources r) = length (bm_Moved r) + length (bm_Failed r)"
  by (simp add: moved_sources_def)

definition candidate_ok :: "string \<Rightarrow> move_candidate \<Rightarrow> bool" where
  "candidate_ok target c \<longleftrightarrow> mc_destinationPath c = join_index target (path_Base (mc_sourcePath c))
     \<and> mc_destinationPath c \<noteq> mc_sourcePath c"

text \<open>After the sources \<open>ps\<close> have been validated.\<close>
definition validated :: "nat \<Rightarrow> string \<Rightarrow> string list \<Rightarrow> batch_state \<Rightarrow> bool" where
  "validated tot target ps b \<longleftrightarrow> set (bs_seenSources b) = set ps \<and> distinct ps \<and> bm_Moved (bs_result b) = []
     \<and> mset (map mc_sourcePath (bs_candidates b)) + moved_sources (bs_result b) = mset ps
     \<and> set (map mc_destinationPath (bs_candidates b)) \<subseteq> set (bs_seenDestinations b)
     \<and> distinct (map mc_destinationPath (bs_candidates b)) \<and> list_all (candidate_ok target) (bs_candidates b)
     \<and> list_all (report_ok tot) (bs_reports b)"

lemma validated_failed:
  assumes "validated tot target ps b"
  shows "length (bm_Failed (bs_result b)) \<le> length ps"
proof -
  have "size (mset (map mc_sourcePath (bs_candidates b)) + moved_sources (bs_result b)) = length ps"
    using assms unfolding validated_def by (metis size_mset)
  then show ?thesis by (simp add: size_moved_sources)
qed

lemma report_fields [simp]:
  "bs_seenSources (report n ph c b) = bs_seenSources b" "bs_seenDestinations (report n ph c b) = bs_seenDestinations b"
  "bs_candidates (report n ph c b) = bs_candidates b" "bs_result (report n ph c b) = bs_result b"
  "bs_reports (report n ph c b) = bs_reports b @ [move_report n ph c (bs_result b)]"
  by (simp_all add: report_def)

lemma reject_fields [simp]:
  "bs_seenSources (reject n ph c m b) = bs_seenSources b" "bs_seenDestinations (reject n ph c m b) = bs_seenDestinations b"
  "bs_candidates (reject n ph c m b) = bs_candidates b" "bs_result (reject n ph c m b) = move_failed c m (bs_result b)"
  "bs_reports (reject n ph c m b) = bs_reports b @ [move_report n ph c (move_failed c m (bs_result b))]"
  by (simp_all add: reject_def)

lemma move_failed_fields [simp]:
  "bm_Moved (move_failed c m r) = bm_Moved r"
  "bm_Failed (move_failed c m r) = bm_Failed r @ [\<lparr>mf_SourcePath = c, mf_Reason = m\<rparr>]"
  "moved_sources (move_failed c m r) = moved_sources r + {#c#}"
  by (simp_all add: move_failed_def moved_sources_def)

lemma move_report_ok: "report_ok n (move_report n ph c r) \<longleftrightarrow> length (bm_Moved r) + length (bm_Failed r) \<le> n"
  by (simp add: report_ok_def move_report_def)

lemma validated_reject:
  assumes "validated tot target ps b" "p \<notin> set ps" "length ps < tot"
    and "bs_seenSources b' = p # bs_seenSources b" "bs_candidates b' = bs_candidates b" "bs_result b' = bs_result b"
    and "set (bs_seenDestinations b) \<subseteq> set (bs_seenDestinations b')" "list_all (report_ok tot) (bs_reports b')"
  shows "validated tot target (ps @ [p]) (reject tot ph p reason b')"
  using assms validated_failed[OF assms(1)] by (auto simp: validated_def move_report_ok)

lemma validated_candidate:
  assumes "validated tot target ps b" "p \<notin> set ps" "candidate_ok target c" "mc_sourcePath c = p"
    and "mc_destinationPath c \<notin> set (bs_seenDestinations b)"
    and "bs_seenSources b' = p # bs_seenSources b" "bs_candidates b' = bs_candidates b @ [c]" "bs_result b' = bs_result b"
    and "bs_seenDestinations b' = mc_destinationPath c # bs_seenDestinations b" "list_all (report_ok tot) (bs_reports b')"
  shows "validated tot target (ps @ [p]) b'"
  using assms by (auto simp: validated_def)

lemma inspect_source_cases:
  assumes "inspect_source sv oper route remote tot p d b = (b', e)"
  shows "(e \<noteq> None \<and> b' = b)
    \<or> (e = None \<and> (\<exists>reason. b' = reject tot ''validating'' p reason b))
    \<or> (e = None \<and> (\<exists>c. b' = b\<lparr>bs_candidates := bs_candidates b @ [c]\<rparr> \<and> mc_sourcePath c = p \<and> mc_destinationPath c = d))"
proof -
  let ?R = "bind_res (routeObjectPath sv route p) (\<lambda>sourceRemotePath.
             bind_res (routeObjectPath sv route d) (\<lambda>destinationRemotePath.
               bind_res (map_err RemoteFailure (op_StatRemote oper remote (rr_RemoteName route) sourceRemotePath)) (\<lambda>source.
                 case source of
                   None \<Rightarrow> Inr (Inl ''source file does not exist'')
                 | Some obj \<Rightarrow>
                     if ro_IsDir obj then Inr (Inl ''source path is a directory'')
                     else bind_res (map_err RemoteFailure (op_StatRemote oper remote (rr_RemoteName route) destinationRemotePath)) (\<lambda>there.
                       if there \<noteq> None then Inr (Inl ''destination already exists'')
                       else Inr (Inr \<lparr>mc_sourcePath = p, mc_destinationPath = d,
                                     mc_sourceRemotePath = sourceRemotePath, mc_destRemotePath = destinationRemotePath\<rparr>)))))"
  have c: "mc_sourcePath c = p \<and> mc_destinationPath c = d" if "?R = Inr (Inr c)" for c
    using that by (auto simp: bind_res_Inr split: option.splits if_splits)
  show ?thesis
  proof (cases ?R)
    case (Inl x)
    with assms show ?thesis by (auto simp: inspect_source_def)
  next
    case (Inr y)
    with assms c show ?thesis by (cases y) (auto simp: inspect_source_def)
  qed
qed

lemma validatedD:
  "validated tot target ps b \<Longrightarrow> bm_Moved (bs_result b) = [] \<and> list_all (report_ok tot) (bs_reports b)"
  by (simp add: validated_def)

lemma validate_source_step:
  assumes v: "validated tot target ps b" and l: "length ps < tot"
    and s: "validate_source sv oper route target remote tot raw b = (b', e)"
  shows "bm_Moved (bs_result b') = [] \<and> length (bm_Failed (bs_result b')) \<le> tot \<and> list_all (report_ok tot) (bs_reports b')
    \<and> (e = None \<longrightarrow> (\<exists>p. normalizeRemoteMutationPath raw False = Inr p \<and> validated tot target (ps @ [p]) b'))"
proof (cases "normalizeRemoteMutationPath raw False")
  case (Inl x)
  with s v validated_failed[OF v] l show ?thesis by (auto simp: validate_source_def validated_def)
next
  case (Inr p)
  show ?thesis
  proof (cases "p \<in> set (bs_seenSources b)")
    case True
    with s v Inr validated_failed[OF v] l show ?thesis by (auto simp: validate_source_def validated_def)
  next
    case False
    let ?b1 = "report tot ''validating'' p (b\<lparr>bs_seenSources := p # bs_seenSources b\<rparr>)"
    let ?d = "join_index target (path_Base p)"
    let ?b2 = "?b1\<lparr>bs_seenDestinations := ?d # bs_seenDestinations ?b1\<rparr>"
    have p: "p \<notin> set ps" using v False by (simp add: validated_def)
    have rep: "list_all (report_ok tot) (bs_reports ?b1)" "bm_Moved (bs_result b) = []"
      using v validated_failed[OF v] l by (auto simp: validated_def move_report_ok)
    have rej: "validated tot target (ps @ [p]) (reject tot ph p reason ?b1)"
      "validated tot target (ps @ [p]) (reject tot ph p reason ?b2)" for ph reason
      by (rule validated_reject[OF v p l]; use rep in auto)+
    have settled: "?thesis" if "b' = reject tot ''validating'' p reason ?b1 \<and> e = None
        \<or> b' = reject tot ''validating'' p reason ?b2 \<and> e = None" for reason
      using that rej[of "''validating''" reason] Inr l validatedD[of tot target "ps @ [p]" b']
        validated_failed[of tot target "ps @ [p]" b'] by fastforce
    show ?thesis
    proof (cases "?d = p \<or> ?d \<in> set (bs_seenDestinations ?b1)")
      case True
      with s Inr False settled show ?thesis by (auto simp: validate_source_def Let_def split: if_splits)
    next
      case new: False
      with s Inr False have i: "inspect_source sv oper route remote tot p ?d ?b2 = (b', e)"
        by (simp add: validate_source_def Let_def)
      from inspect_source_cases[OF i] show ?thesis
      proof (elim disjE conjE exE)
        assume "e \<noteq> None" "b' = ?b2"
        with rep validated_failed[OF v] l show ?thesis by auto
      next
        fix reason assume "e = None" "b' = reject tot ''validating'' p reason ?b2"
        with settled show ?thesis by blast
      next
        fix c assume c: "e = None" "b' = ?b2\<lparr>bs_candidates := bs_candidates ?b2 @ [c]\<rparr>"
          "mc_sourcePath c = p" "mc_destinationPath c = ?d"
        have "validated tot target (ps @ [p]) b'"
          by (rule validated_candidate[OF v p, of c]) (use c new rep in \<open>auto simp: candidate_ok_def\<close>)
        with c Inr l validatedD[OF this] validated_failed[OF this] show ?thesis by auto
      qed
    qed
  qed
qed


lemma validate_sources_outcome:
  assumes "validated tot target ps b" "length ps + length raws \<le> tot"
    and "validate_sources sv oper route target remote tot raws b = (b', e)"
  shows "bm_Moved (bs_result b') = [] \<and> length (bm_Failed (bs_result b')) \<le> tot \<and> list_all (report_ok tot) (bs_reports b')
    \<and> (e = None \<longrightarrow> (\<exists>qs. list_all2 (\<lambda>raw p. normalizeRemoteMutationPath raw False = Inr p) raws qs
          \<and> validated tot target (ps @ qs) b'))"
  using assms
proof (induction raws arbitrary: ps b)
  case Nil
  then show ?case using validatedD[OF Nil.prems(1)] validated_failed[OF Nil.prems(1)] by auto
next
  case (Cons raw raws)
  obtain b1 e1 where v: "validate_source sv oper route target remote tot raw b = (b1, e1)" by fastforce
  from Cons.prems(2) have l: "length ps < tot" by simp
  note step = validate_source_step[OF Cons.prems(1) l v]
  show ?case
  proof (cases e1)
    case (Some x)
    with step Cons.prems(3) v show ?thesis by auto
  next
    case None
    with step obtain p where p: "normalizeRemoteMutationPath raw False = Inr p" "validated tot target (ps @ [p]) b1" by blast
    from Cons.prems(2,3) v None have "length (ps @ [p]) + length raws \<le> tot"
      "validate_sources sv oper route target remote tot raws b1 = (b', e)" by simp_all
    note ih = Cons.IH[OF p(2) this]
    have "\<exists>qs. list_all2 (\<lambda>raw p. normalizeRemoteMutationPath raw False = Inr p) (raw # raws) qs
        \<and> validated tot target (ps @ qs) b'" if "e = None"
    proof -
      from ih that obtain qs where "list_all2 (\<lambda>raw p. normalizeRemoteMutationPath raw False = Inr p) raws qs"
        "validated tot target ((ps @ [p]) @ qs) b'" by blast
      with p(1) show ?thesis by (intro exI[of _ "p # qs"]) simp
    qed
    with ih show ?thesis by blast
  qed
qed

text \<open>While the candidates \<open>cs\<close> still wait to be moved.\<close>
definition moving :: "nat \<Rightarrow> string \<Rightarrow> string list \<Rightarrow> move_candidate list \<Rightarrow> batch_state \<Rightarrow> bool" where
  "moving tot target ps cs b \<longleftrightarrow>
     mset (map mc_sourcePath cs) + moved_sources (bs_result b) = mset ps
     \<and> distinct (map mr_DestinationPath (bm_Moved (bs_result b)) @ map mc_destinationPath cs)
     \<and> list_all (candidate_ok target) cs
     \<and> (\<forall>m \<in> set (bm_Moved (bs_result b)). mr_DestinationPath m = join_index target (path_Base (mr_SourcePath m))
           \<and> mr_DestinationPath m \<noteq> mr_SourcePath m)
     \<and> list_all (report_ok tot) (bs_reports b)"

lemma moving_count:
  assumes "moving tot target ps cs b"
  shows "length (bm_Moved (bs_result b)) + length (bm_Failed (bs_result b)) + length cs = length ps"
proof -
  have "size (mset (map mc_sourcePath cs) + moved_sources (bs_result b)) = length ps"
    using assms unfolding moving_def by (metis size_mset)
  then show ?thesis by (simp add: size_moved_sources)
qed

lemma move_candidates_outcome:
  assumes "moving tot target ps cs b" "length ps \<le> tot" "move_candidates oper route tot cs (r, b) = (r', b')"
  shows "moving tot target ps [] b' \<and> bm_RefreshScheduled (bs_result b') = bm_RefreshScheduled (bs_result b)"
  using assms
proof (induction cs arbitrary: r b)
  case Nil
  then show ?case by simp
next
  case (Cons c cs)
  let ?b1 = "report tot ''moving'' (mc_sourcePath c) b"
  obtain r1 res where m: "op_MoveRemoteObject oper (rr_RemoteName route) (mc_sourceRemotePath c) (mc_destRemotePath c) r = (r1, res)"
    by fastforce
  note n = moving_count[OF Cons.prems(1)]
  let ?failed = "reject tot ''moving'' (mc_sourcePath c) ''remote move failed'' ?b1"
  let ?moved = "report tot ''moving'' (mc_sourcePath c) (?b1\<lparr>bs_result := (bs_result ?b1)\<lparr>bm_Moved := bm_Moved (bs_result ?b1) @
                       [\<lparr>mr_SourcePath = mc_sourcePath c, mr_DestinationPath = mc_destinationPath c\<rparr>]\<rparr>\<rparr>)"
  have f: "moving tot target ps cs ?failed"
    using Cons.prems(1,2) n by (auto simp: moving_def move_report_ok)
  have "moving tot target ps cs ?moved"
    using Cons.prems(1,2) n by (auto simp: moving_def move_report_ok moved_sources_def candidate_ok_def)
  with f Cons.IH[of ?failed r1] Cons.IH[of ?moved r1] Cons.prems(2,3) m show ?case
    by (cases res) (auto simp: Let_def move_failed_def)
qed

lemma batch_outcome:
  assumes "MoveFilesWithProgress sv i sources target w = (w', r, err, reps)"
  shows "list_all (report_ok (length sources)) reps
    \<and> (case err of
         Some e \<Rightarrow> w' = w \<and> bm_Moved r = [] \<and> length (bm_Failed r) \<le> length sources
       | None \<Rightarrow> (\<exists>ps folder. list_all2 (\<lambda>raw p. normalizeRemoteMutationPath raw False = Inr p) sources ps \<and> distinct ps
           \<and> normalizeRemoteMutationPath target True = Inr folder
           \<and> mset (map mr_SourcePath (bm_Moved r) @ map mf_SourcePath (bm_Failed r)) = mset ps
           \<and> distinct (map mr_DestinationPath (bm_Moved r))
           \<and> (\<forall>m \<in> set (bm_Moved r). mr_DestinationPath m = join_index folder (path_Base (mr_SourcePath m))))
           \<and> mp_Phase (last reps) = ''completed'' \<and> mp_Processed (last reps) = length sources)"
proof (cases "sources = [] \<or> length sources > maxRemoteMoveBatch")
  case True
  then have "w' = w \<and> r = no_batch \<and> err \<noteq> None \<and> reps = []"
    using assms by (cases "sources = []") (auto simp: MoveFilesWithProgress_def)
  then show ?thesis by (auto simp: no_batch_def)
next
  case False
  let ?n = "length sources"
  let ?b0 = "report ?n ''preparing'' '''' start_batch"
  have v0: "validated ?n folder [] ?b0" for folder
    by (simp add: validated_def start_batch_def no_batch_def move_report_ok moved_sources_def)
  show ?thesis
  proof (cases "move_target sv i target w")
    case (Inl e)
    with assms False have "w' = w" "r = no_batch" "err = Some e" "reps = bs_reports ?b0"
      by (auto simp: MoveFilesWithProgress_def Let_def)
    then show ?thesis using validatedD[OF v0] by (simp add: no_batch_def)
  next
    case (Inr t)
    obtain oper route folder where t: "t = (oper, route, folder)" by (cases t)
    from Inr t have folder: "normalizeRemoteMutationPath target True = Inr folder"
      by (auto simp: move_target_def bind_res_Inr split: if_splits)
    obtain b1 e1 where vs: "validate_sources sv oper route folder (rw_remote w) ?n sources ?b0 = (b1, e1)" by fastforce
    from validate_sources_outcome[OF v0 _ vs] have v1: "bm_Moved (bs_result b1) = []" "length (bm_Failed (bs_result b1)) \<le> ?n" "list_all (report_ok ?n) (bs_reports b1)"
      and ok1: "e1 = None \<longrightarrow> (\<exists>qs. list_all2 (\<lambda>raw p. normalizeRemoteMutationPath raw False = Inr p) sources qs
          \<and> validated ?n folder qs b1)" by auto
    show ?thesis
    proof (cases e1)
      case (Some x)
      with assms False Inr t vs v1 show ?thesis by (auto simp: MoveFilesWithProgress_def Let_def)
    next
      case None
      with ok1 obtain ps where ps: "list_all2 (\<lambda>raw p. normalizeRemoteMutationPath raw False = Inr p) sources ps"
        "validated ?n folder ps b1" by blast
      then have len: "length ps = ?n" by (simp add: list_all2_lengthD)
      have m1: "moving ?n folder ps (bs_candidates b1) b1" using ps(2) by (auto simp: moving_def validated_def)
      obtain r' b2 where mv: "move_candidates oper route ?n (bs_candidates b1) (rw_remote w, b1) = (r', b2)" by fastforce
      from move_candidates_outcome[OF m1 _ mv] len have m2: "moving ?n folder ps [] b2" by simp
      have c2: "length (bm_Moved (bs_result b2)) + length (bm_Failed (bs_result b2)) = ?n"
        using moving_count[OF m2] len by simp
      obtain b3 :: batch_state where b3: "err = None" "r = bs_result b3" "reps = bs_reports b3 @ [move_report ?n ''completed'' '''' (bs_result b3)]"
        "bm_Moved (bs_result b3) = bm_Moved (bs_result b2)" "bm_Failed (bs_result b3) = bm_Failed (bs_result b2)"
        "list_all (report_ok ?n) (bs_reports b3)"
      proof (cases "bm_Moved (bs_result b2) = []")
        case True
        with that[of b2] assms False Inr t vs None mv m2 show ?thesis
          by (auto simp: MoveFilesWithProgress_def Let_def moving_def)
      next
        case ne: False
        obtain w3 rf where sm: "scheduleMutationRefresh sv 1 (rr_ID route) (w\<lparr>rw_remote := r'\<rparr>) = (w3, rf)" by fastforce
        let ?b = "report ?n ''refreshing'' '''' b2"
        have "list_all (report_ok ?n) (bs_reports ?b)" using m2 c2 by (simp add: moving_def move_report_ok)
        with that[of "?b\<lparr>bs_result := (bs_result ?b)\<lparr>bm_RefreshScheduled := rf\<rparr>\<rparr>"] assms False Inr t vs None mv ne sm
        show ?thesis by (auto simp: MoveFilesWithProgress_def Let_def)
      qed
      have "list_all (report_ok ?n) reps" "mp_Phase (last reps) = ''completed''" "mp_Processed (last reps) = ?n"
        using b3 c2 by (simp_all add: move_report_def report_ok_def)
      moreover have "mset (map mr_SourcePath (bm_Moved r) @ map mf_SourcePath (bm_Failed r)) = mset ps"
        "distinct (map mr_DestinationPath (bm_Moved r))"
        "\<forall>m \<in> set (bm_Moved r). mr_DestinationPath m = join_index folder (path_Base (mr_SourcePath m))"
        using m2 b3 by (simp_all add: moving_def moved_sources_def)
      moreover have "distinct ps" using ps(2) by (simp add: validated_def)
      ultimately show ?thesis using b3(1) ps(1) folder by auto
    qed
  qed
qed



definition sample_operator :: "(string \<Rightarrow> remote_object option) remote_operator" where
  "sample_operator = \<lparr>op_StatRemote = (\<lambda>r _ p. Inr (r p)),
     op_MakeRemoteDirectory = (\<lambda>_ p r. (r(p \<mapsto> listed_file\<lparr>ro_IsDir := True\<rparr>), Inr ())),
     op_MoveRemoteObject = (\<lambda>_ s d r. (r(d := r s, s := None), Inr ()))\<rparr>"

definition sample_service :: "(string \<Rightarrow> remote_object option) route_service" where
  "sample_service = \<lparr>sv_policy = None, sv_operator = Some sample_operator, sv_sha256 = (\<lambda>x. x),
     sv_flt = (\<lambda>_. no_fault), sv_now = (\<lambda>_. 50)\<rparr>"

definition sample_world :: "(string \<Rightarrow> remote_object option) route_world" where
  "sample_world = \<lparr>rw_db = route_db [sample_route 4 RemoteRouteStatusReady],
     rw_remote = [''b'' \<mapsto> listed_file\<lparr>ro_IsDir := True\<rparr>, ''b/d/f'' \<mapsto> listed_file], rw_wake = Some 0\<rparr>"

lemma sample_cleans:
  "TrimSpace ''d/f'' = ''d/f''
   \<and> TrimSpace '''' = ''''
   \<and> TrimSpace ''r'' = ''r''
   \<and> Trim1 slash ''d/f'' = ''d/f''
   \<and> path_Clean ''d/f'' = ''d/f''
   \<and> path_Clean ''b'' = ''b''
   \<and> path_Clean ''b/d/f'' = ''b/d/f''
   \<and> path_Clean ''b/f'' = ''b/f''
   \<and> path_Join [''b'', ''d/f''] = ''b/d/f''
   \<and> path_Join [''b'', ''f''] = ''b/f''
   \<and> path_Base ''d/f'' = ''f''
   \<and> \<not> ContainsAny ''r'' [CHR '':'', byte0, byte 13, byte 10]
   \<and> \<not> ContainsAny ''b'' [byte0, byte 13, byte 10]
   \<and> \<not> ContainsAny ''b/d/f'' [byte0, byte 13, byte 10]
   \<and> \<not> ContainsAny ''b/f'' [byte0, byte 13, byte 10]"
  by code_simp

lemma sample_paths:
  "normalizeRemoteMutationPath ''d/f'' False = Inr ''d/f''" "normalizeRemoteMutationPath '''' True = Inr ''''"
  "join_index '''' (path_Base ''d/f'') = ''f''"
  "ValidateRemote None ''r'' ''b'' = Inr ''b''" "ValidateRemote None ''r'' ''b/d/f'' = Inr ''b/d/f''"
  "ValidateRemote None ''r'' ''b/f'' = Inr ''b/f''"
  by (simp_all add: normalizeRemoteMutationPath_def normalizeIndexPath_def ReplaceByte_def sample_cleans Let_def
      join_index_def ValidateRemote_def TrimPrefix_def Trim1_def)

lemma sample_batch_moves:
  "fst (snd (snd (MoveFilesWithProgress sample_service 4 [''d/f''] '''' sample_world))) = None"
proof -
  have w: "writableRoute sample_service 4 sample_world = Inr (sample_operator, sample_route 4 RemoteRouteStatusReady)"
    by (simp add: writableRoute_def sample_service_def sample_world_def Get_remote_route_def GetByID_route_def
        route_by_def first_where_def route_samples)
  have p: "routeObjectPath sample_service (sample_route 4 RemoteRouteStatusReady) '''' = Inr ''b''"
    "routeObjectPath sample_service (sample_route 4 RemoteRouteStatusReady) ''d/f'' = Inr ''b/d/f''"
    "routeObjectPath sample_service (sample_route 4 RemoteRouteStatusReady) ''f'' = Inr ''b/f''"
    by (simp_all add: routeObjectPath_def sample_service_def sample_route_def sample_paths sample_cleans)
  have t: "move_target sample_service 4 '''' sample_world = Inr (sample_operator, sample_route 4 RemoteRouteStatusReady, '''')"
    by (simp add: move_target_def w sample_paths p) (simp add: sample_operator_def sample_world_def)
  show ?thesis
    by (simp add: MoveFilesWithProgress_def Let_def maxRemoteMoveBatch_def t validate_source_def sample_paths p
        inspect_source_def start_batch_def report_def case_prod_beta)
      (simp add: sample_operator_def sample_world_def listed_file_def split: prod.split)
qed


end
