(* ===== verification/FolderService.thy ===== *)
theory FolderService
  imports RouteService PathPipeline
begin

section \<open>The watch-folder service\<close>

text \<open>
  \<open>internal/service/watch_folder_service.go\<close>: creation, change and deletion of watch folders with
  their validation, the link to a route, and the rule that no two folders overlap.  The properties
  say that the rule is an invariant, so that a local file belongs to one folder at most, and when a
  linked folder keeps the destination of its route.
\<close>

subsection \<open>Inputs\<close>

(* src/internal/service/watch_folder_service.go 39-51 CreateWatchFolderInput *)
record create_folder_input =
  cfi_Name :: string
  cfi_LocalPath :: string
  cfi_RemoteRouteID :: nat
  cfi_RemoteName :: string
  cfi_RemotePath :: string
  cfi_SyncType :: string
  cfi_MaxDepth :: int
  cfi_FilterKeywords :: string
  cfi_ScanIntervalSecond :: int
  cfi_PathPipeline :: "pipeline_step list"

(* src/internal/service/watch_folder_service.go 53-67 UpdateWatchFolderInput *)
record update_folder_input =
  ufi_Name :: "string option"
  ufi_LocalPath :: "string option"
  ufi_RemoteRouteID :: "nat option"
  ufi_RemoteName :: "string option"
  ufi_RemotePath :: "string option"
  ufi_SyncType :: "string option"
  ufi_MaxDepth :: "int option"
  ufi_FilterKeywords :: "string option"
  ufi_ScanIntervalSecond :: "int option"
  ufi_PathPipeline :: "pipeline_step list option"
  ufi_Status :: "string option"
  ufi_Enabled :: "bool option"

text \<open>The policy, the file system, the regular-expression engine, and the faults and clock of the calls.\<close>
(* src/internal/service/watch_folder_service.go 28-32 watchFolderService *)
record 'p folder_service =
  fv_policy :: "resource_policy option"
  fv_os :: os
  fv_rx :: "'p regex_engine"
  fv_quote :: "string \<Rightarrow> string"  \<comment> \<open>the verb \<open>%q\<close>\<close>
  fv_flt :: "nat \<Rightarrow> fault"
  fv_now :: "nat \<Rightarrow> time"

definition local_to_remote :: string where "local_to_remote = ''local_to_remote''"

(* src/internal/service/watch_folder_service.go 331-339 watchFolderRepositoryError *)
fun watchFolderRepositoryError :: "repo_error \<Rightarrow> service_error" where
  "watchFolderRepositoryError ErrNotFound = NotFound ''watch folder not found''"
| "watchFolderRepositoryError ErrConflict = Conflict ''watch folder local path already exists''"
| "watchFolderRepositoryError e = RepoFailure e"

subsection \<open>Overlap\<close>

(* src/internal/service/watch_folder_service.go 272-278 pathContains *)
definition pathContains :: "string \<Rightarrow> string \<Rightarrow> bool" where
  "pathContains root candidate = rel_inside (path_Rel (path_Clean root) (path_Clean candidate))"

(* src/internal/service/watch_folder_service.go 268-270 localPathsOverlap *)
definition localPathsOverlap :: "string \<Rightarrow> string \<Rightarrow> bool" where
  "localPathsOverlap left right \<longleftrightarrow> pathContains left right \<or> pathContains right left"

text \<open>The first existing folder that overlaps is named in the message.\<close>
(* src/internal/service/watch_folder_service.go 255-266 watchFolderService.ensurePathDoesNotOverlap *)
definition ensurePathDoesNotOverlap :: "(string \<Rightarrow> string) \<Rightarrow> fault \<Rightarrow> nat \<Rightarrow> string \<Rightarrow> db \<Rightarrow> (service_error, unit) result" where
  "ensurePathDoesNotOverlap quote flt excludeID candidate s =
     bind_res (map_err RepoFailure (ListPaths flt excludeID s)) (\<lambda>fs.
       case find (\<lambda>f. localPathsOverlap candidate (wf_LocalPath f)) fs of
         Some existing \<Rightarrow> Inl (Conflict (''local directory overlaps watch folder '' @ quote (wf_Name existing)))
       | None \<Rightarrow> Inr ())"

text \<open>Checked once at startup: the ids of an overlapping pair, if there is one.\<close>
(* src/internal/service/watch_folder_service.go 280-295 ValidateWatchFolderPathTopology *)
fun overlapping_pair :: "watch_folder list \<Rightarrow> (nat \<times> nat) option" where
  "overlapping_pair [] = None"
| "overlapping_pair (f # fs) =
     (case find (\<lambda>g. localPathsOverlap (wf_LocalPath f) (wf_LocalPath g)) fs of
        Some g \<Rightarrow> Some (wf_ID f, wf_ID g)
      | None \<Rightarrow> overlapping_pair fs)"

subsection \<open>Operations\<close>

(* src/internal/service/watch_folder_service.go 323-329 watchFolderService.Get *)
definition Get_watch_folder :: "'p folder_service \<Rightarrow> nat \<Rightarrow> nat \<Rightarrow> db \<Rightarrow> (service_error, watch_folder) result" where
  "Get_watch_folder fv k i s = map_err watchFolderRepositoryError (GetByID_folder (fv_flt fv k) i s)"

definition require :: "bool \<Rightarrow> service_error \<Rightarrow> (service_error, unit) result" where
  "require b e = (if b then Inr () else Inl e)"

lemma require_simps [simp]:
  "require b e = Inr u \<longleftrightarrow> b" "require b e = Inl x \<longleftrightarrow> \<not> b \<and> x = e"
  by (auto simp: require_def)

text \<open>The destination a folder is created with: that of its route, or its own.\<close>
(* src/internal/service/watch_folder_service.go 77-90 watchFolderService.Create *)
definition chosen_destination ::
    "'p folder_service \<Rightarrow> create_folder_input \<Rightarrow> db \<Rightarrow> (service_error, string \<times> string) result" where
  "chosen_destination fv inp s =
     bind_res
       (if cfi_RemoteRouteID inp > 0 then
          bind_res (map_err remoteRouteRepositoryError (GetByID_route (fv_flt fv 0) (cfi_RemoteRouteID inp) s))
            (\<lambda>route. Inr (rr_RemoteName route, rr_RemotePath route))
        else bind_res (require (TrimSpace (cfi_RemoteName inp) \<noteq> '''' \<and> TrimSpace (cfi_RemotePath inp) \<noteq> '''')
               (Validation ''remote_route_id is required''))
             (\<lambda>_. Inr (TrimSpace (cfi_RemoteName inp), cfi_RemotePath inp)))
       (\<lambda>(remoteName, path0).
          bind_res (map_err destination_error (ValidateRemote (fv_policy fv) remoteName path0))
            (\<lambda>remotePath. Inr (remoteName, remotePath)))"

text \<open>Everything that is checked before a folder is created, in the order of the code.\<close>
(* src/internal/service/watch_folder_service.go 70-133 watchFolderService.Create *)
definition folder_to_create ::
    "'p folder_service \<Rightarrow> time \<Rightarrow> create_folder_input \<Rightarrow> db \<Rightarrow> (service_error, watch_folder) result" where
  "folder_to_create fv now inp s =
     bind_res (require (TrimSpace (cfi_Name inp) \<noteq> '''' \<and> length (cfi_Name inp) \<le> 255)
                 (Validation ''name is required and must not exceed 255 characters'')) (\<lambda>_.
     bind_res (map_err (\<lambda>_. Validation ''local directory is invalid, inaccessible, or outside the allowlist'')
                 (ValidateLocalDirectory (fv_os fv) (fv_policy fv) (cfi_LocalPath inp))) (\<lambda>localPath.
     bind_res (chosen_destination fv inp s) (\<lambda>(remoteName, remotePath).
     bind_res (require (0 \<le> cfi_MaxDepth inp \<and> cfi_MaxDepth inp \<le> 1000) (Validation ''max_depth must be between 0 and 1000'')) (\<lambda>_.
     bind_res (require (length (cfi_FilterKeywords inp) \<le> 16 * 1024) (Validation ''filter_keywords is too large'')) (\<lambda>_.
     bind_res (map_err (\<lambda>_. Validation ''path_pipeline is invalid'') (Normalize (fv_rx fv) (cfi_PathPipeline inp))) (\<lambda>pathPipeline.
     let syncType = (if cfi_SyncType inp = '''' then local_to_remote else cfi_SyncType inp);
         interval = (if cfi_ScanIntervalSecond inp \<le> 0 then 300 else cfi_ScanIntervalSecond inp) in
     bind_res (require (10 \<le> interval \<and> interval \<le> 7 * 24 * 60 * 60)
                 (Validation ''scan_interval_seconds must be between 10 and 604800'')) (\<lambda>_.
     bind_res (require (syncType = local_to_remote) (Validation ''unsupported sync_type'')) (\<lambda>_.
     bind_res (ensurePathDoesNotOverlap (fv_quote fv) (fv_flt fv 1) 0 localPath s) (\<lambda>_.
       Inr \<lparr>wf_ID = 0, wf_Name = cfi_Name inp, wf_LocalPath = localPath, wf_RemoteRouteID = cfi_RemoteRouteID inp,
            wf_RemoteName = remoteName, wf_RemotePath = remotePath, wf_SyncType = syncType,
            wf_MaxDepth = cfi_MaxDepth inp, wf_FilterKeywords = cfi_FilterKeywords inp, wf_Enabled = True,
            wf_Status = WatchFolderStatusWatching, wf_LastError = '''', wf_LastScanAt = None,
            wf_LastScanStartedAt = None, wf_LastScanFinishedAt = None, wf_LastScanSuccessAt = None,
            wf_LastScanDurationMs = 0, wf_LastSyncAt = None, wf_NextScanAt = None, wf_LastActiveAt = Some now,
            wf_ScanLeaseOwner = '''', wf_ScanLeaseExpiresAt = None, wf_TotalFileCount = 0, wf_TotalFileSize = 0,
            wf_UploadedFileCount = 0, wf_UploadedBytes = 0, wf_FailedFileCount = 0, wf_WindowUploadedFiles = 0,
            wf_WindowUploadedBytes = 0, wf_ScanIntervalSeconds = interval, wf_PathPipeline = pathPipeline,
            wf_CreatedAt = zero_time, wf_UpdatedAt = zero_time\<rparr>)))))))))"

(* src/internal/service/watch_folder_service.go 69-138 watchFolderService.Create *)
definition Create_watch_folder ::
    "'p folder_service \<Rightarrow> time \<Rightarrow> create_folder_input \<Rightarrow> db \<Rightarrow> db \<times> (service_error, watch_folder) result" where
  "Create_watch_folder fv now inp s =
     (case folder_to_create fv now inp s of
        Inl e \<Rightarrow> (s, Inl e)
      | Inr f \<Rightarrow>
          (case Create_folder (fv_flt fv 2) (fv_now fv 2) f s of
             (s', r) \<Rightarrow> (s', map_err watchFolderRepositoryError r)))"

text \<open>The three statuses a client may set.\<close>
definition settable_status :: "string \<Rightarrow> folder_status option" where
  "settable_status st =
     (if st = ''watching'' then Some WatchFolderStatusWatching
      else if st = ''stopped'' then Some WatchFolderStatusStopped
      else if st = ''paused'' then Some WatchFolderStatusPaused else None)"

definition or_keep :: "'a option \<Rightarrow> 'a \<Rightarrow> 'a" where
  "or_keep x old = (case x of None \<Rightarrow> old | Some v \<Rightarrow> v)"

definition configurationChanged :: "update_folder_input \<Rightarrow> bool" where
  "configurationChanged inp \<longleftrightarrow> ufi_Name inp \<noteq> None \<or> ufi_LocalPath inp \<noteq> None \<or> ufi_RemoteRouteID inp \<noteq> None
     \<or> ufi_RemoteName inp \<noteq> None \<or> ufi_RemotePath inp \<noteq> None \<or> ufi_SyncType inp \<noteq> None \<or> ufi_MaxDepth inp \<noteq> None
     \<or> ufi_FilterKeywords inp \<noteq> None \<or> ufi_ScanIntervalSecond inp \<noteq> None \<or> ufi_PathPipeline inp \<noteq> None"

text \<open>The link and the destination asked for; explicit remote fields are applied after those of the route.\<close>
(* src/internal/service/watch_folder_service.go 163-182 watchFolderService.Update *)
definition changed_destination ::
    "'p folder_service \<Rightarrow> update_folder_input \<Rightarrow> watch_folder \<Rightarrow> db \<Rightarrow> (service_error, watch_folder) result" where
  "changed_destination fv inp f s =
     bind_res
       (case ufi_RemoteRouteID inp of
          Some rid \<Rightarrow>
            if rid = 0 then Inl (Validation ''remote_route_id is required'')
            else bind_res (map_err remoteRouteRepositoryError (GetByID_route (fv_flt fv 1) rid s)) (\<lambda>route.
                   Inr (f\<lparr>wf_RemoteRouteID := rr_ID route, wf_RemoteName := rr_RemoteName route,
                          wf_RemotePath := rr_RemotePath route\<rparr>))
        | None \<Rightarrow>
            if wf_RemoteRouteID f > 0 \<and> (ufi_RemoteName inp \<noteq> None \<or> ufi_RemotePath inp \<noteq> None)
            then Inl (Validation ''select a remote route instead of editing its destination'') else Inr f)
       (\<lambda>f'. Inr (f'\<lparr>wf_RemoteName := or_keep (ufi_RemoteName inp) (wf_RemoteName f'),
                     wf_RemotePath := or_keep (ufi_RemotePath inp) (wf_RemotePath f')\<rparr>))"

text \<open>The status after the requested one and the switch on or off.\<close>
(* src/internal/service/watch_folder_service.go 202-212 watchFolderService.Update *)
definition changed_status :: "update_folder_input \<Rightarrow> folder_status \<Rightarrow> folder_status" where
  "changed_status inp old =
     (let st = (case ufi_Status inp of None \<Rightarrow> old
                | Some x \<Rightarrow> (case settable_status x of None \<Rightarrow> old | Some y \<Rightarrow> y))
      in case ufi_Enabled inp of
           None \<Rightarrow> st
         | Some False \<Rightarrow> if ufi_Status inp = None then WatchFolderStatusStopped else st
         | Some True \<Rightarrow> if ufi_Status inp = None \<and> st = WatchFolderStatusStopped then WatchFolderStatusWatching else st)"

text \<open>The stored folder and the folder with the requested changes.\<close>
(* src/internal/service/watch_folder_service.go 141-212 watchFolderService.Update *)
definition requested_folder ::
    "'p folder_service \<Rightarrow> nat \<Rightarrow> update_folder_input \<Rightarrow> db \<Rightarrow> (service_error, watch_folder \<times> watch_folder) result" where
  "requested_folder fv i inp s =
     bind_res (require (case ufi_ScanIntervalSecond inp of None \<Rightarrow> True | Some v \<Rightarrow> 10 \<le> v \<and> v \<le> 7 * 24 * 60 * 60)
                 (Validation ''scan_interval_seconds must be between 10 and 604800'')) (\<lambda>_.
     bind_res (require (case ufi_Status inp of None \<Rightarrow> True | Some x \<Rightarrow> x = '''' \<or> settable_status x \<noteq> None)
                 (Validation ''status may only be watching, stopped, or paused'')) (\<lambda>_.
     bind_res (Get_watch_folder fv 0 i s) (\<lambda>f0.
     bind_res (require (\<not> (wf_Status f0 = WatchFolderStatusDetecting \<and> configurationChanged inp))
                 (Conflict ''watch folder configuration cannot change during an active scan'')) (\<lambda>_.
     bind_res (changed_destination fv inp
                 (f0\<lparr>wf_Name := or_keep (ufi_Name inp) (wf_Name f0), wf_LocalPath := or_keep (ufi_LocalPath inp) (wf_LocalPath f0)\<rparr>) s) (\<lambda>f1.
     bind_res (case ufi_PathPipeline inp of None \<Rightarrow> Inr (wf_PathPipeline f1)
               | Some p \<Rightarrow> map_err (\<lambda>_. Validation ''path_pipeline is invalid'') (Normalize (fv_rx fv) p)) (\<lambda>pathPipeline.
       Inr (f0, f1\<lparr>wf_SyncType := (case ufi_SyncType inp of None \<Rightarrow> wf_SyncType f1 | Some v \<Rightarrow> if v = '''' then wf_SyncType f1 else v),
                  wf_MaxDepth := or_keep (ufi_MaxDepth inp) (wf_MaxDepth f1),
                  wf_FilterKeywords := or_keep (ufi_FilterKeywords inp) (wf_FilterKeywords f1),
                  wf_ScanIntervalSeconds := or_keep (ufi_ScanIntervalSecond inp) (wf_ScanIntervalSeconds f1),
                  wf_PathPipeline := pathPipeline, wf_Status := changed_status inp (wf_Status f1),
                  wf_Enabled := or_keep (ufi_Enabled inp) (wf_Enabled f1)\<rparr>)))))))"

text \<open>The checks of the changed folder, and the paths it is stored with.\<close>
(* src/internal/service/watch_folder_service.go 213-240 watchFolderService.Update *)
definition checked_folder :: "'p folder_service \<Rightarrow> watch_folder \<Rightarrow> (service_error, watch_folder) result" where
  "checked_folder fv f =
     bind_res (require (TrimSpace (wf_Name f) \<noteq> '''' \<and> length (wf_Name f) \<le> 255)
                 (Validation ''name is required and must not exceed 255 characters'')) (\<lambda>_.
     bind_res (map_err (\<lambda>_. Validation ''local directory is invalid, inaccessible, or outside the allowlist'')
                 (ValidateLocalDirectory (fv_os fv) (fv_policy fv) (wf_LocalPath f))) (\<lambda>localPath.
     bind_res (map_err destination_error (ValidateRemote (fv_policy fv) (wf_RemoteName f) (wf_RemotePath f))) (\<lambda>remotePath.
     bind_res (require (0 \<le> wf_MaxDepth f \<and> wf_MaxDepth f \<le> 1000) (Validation ''max_depth must be between 0 and 1000'')) (\<lambda>_.
     bind_res (require (length (wf_FilterKeywords f) \<le> 16 * 1024) (Validation ''filter_keywords is too large'')) (\<lambda>_.
     bind_res (require (10 \<le> wf_ScanIntervalSeconds f \<and> wf_ScanIntervalSeconds f \<le> 7 * 24 * 60 * 60)
                 (Validation ''scan_interval_seconds must be between 10 and 604800'')) (\<lambda>_.
     bind_res (require (wf_SyncType f = local_to_remote) (Validation ''unsupported sync_type'')) (\<lambda>_.
       Inr (f\<lparr>wf_LocalPath := localPath, wf_RemotePath := remotePath\<rparr>))))))))"

text \<open>The folder to store and whether its destination changed.\<close>
(* src/internal/service/watch_folder_service.go 140-245 watchFolderService.Update *)
definition folder_to_update ::
    "'p folder_service \<Rightarrow> nat \<Rightarrow> update_folder_input \<Rightarrow> db \<Rightarrow> (service_error, watch_folder \<times> bool) result" where
  "folder_to_update fv i inp s =
     bind_res (requested_folder fv i inp s) (\<lambda>(f0, f2).
       bind_res (checked_folder fv f2) (\<lambda>f3.
         let destinationChanged = (wf_RemoteRouteID f0 \<noteq> wf_RemoteRouteID f3 \<or> wf_RemoteName f0 \<noteq> wf_RemoteName f3
                                   \<or> wf_RemotePath f0 \<noteq> wf_RemotePath f3 \<or> wf_PathPipeline f0 \<noteq> wf_PathPipeline f3) in
         bind_res (ensurePathDoesNotOverlap (fv_quote fv) (fv_flt fv 2) i (wf_LocalPath f3) s)
           (\<lambda>_. Inr (f3, destinationChanged))))"

(* src/internal/service/watch_folder_service.go 140-253 watchFolderService.Update *)
definition Update_watch_folder ::
    "'p folder_service \<Rightarrow> nat \<Rightarrow> update_folder_input \<Rightarrow> db \<Rightarrow> db \<times> (service_error, watch_folder) result" where
  "Update_watch_folder fv i inp s =
     (case folder_to_update fv i inp s of
        Inl e \<Rightarrow> (s, Inl e)
      | Inr (f, destinationChanged) \<Rightarrow>
          (case Update_folder (fv_flt fv 3) (fv_now fv 3) f (configurationChanged inp) destinationChanged s of
             (s', Inl ErrConflict) \<Rightarrow>
               (s', Inl (Conflict ''watch folder changed concurrently, is being scanned, overlaps another path, or already exists''))
           | (s', Inl e) \<Rightarrow> (s', Inl (watchFolderRepositoryError e))
           | (s', Inr _) \<Rightarrow> (s', Inr f)))"

(* src/internal/service/watch_folder_service.go 306-321 watchFolderService.Delete *)
definition Delete_watch_folder :: "'p folder_service \<Rightarrow> nat \<Rightarrow> db \<Rightarrow> db \<times> (service_error, unit) result" where
  "Delete_watch_folder fv i s =
     (case Get_watch_folder fv 0 i s of
        Inl e \<Rightarrow> (s, Inl e)
      | Inr f \<Rightarrow>
          if wf_Status f = WatchFolderStatusDetecting \<and> lease_running (fv_now fv 0) (wf_ScanLeaseExpiresAt f)
          then (s, Inl (Conflict ''watch folder cannot be deleted during an active scan''))
          else (case Delete_folder (fv_flt fv 1) (fv_now fv 1) i s of
                  (s', Inl ErrConflict) \<Rightarrow> (s', Inl (Conflict ''watch folder cannot be deleted during an active scan''))
                | (s', r) \<Rightarrow> (s', map_err watchFolderRepositoryError r)))"

(* src/internal/service/watch_folder_service.go 341-356 watchFolderService.List *)
definition List_watch_folders ::
    "(string \<Rightarrow> string \<Rightarrow> bool) \<Rightarrow> 'p folder_service \<Rightarrow> folder_status option \<Rightarrow> string \<Rightarrow> int \<Rightarrow> int \<Rightarrow> db
      \<Rightarrow> (repo_error, watch_folder list \<times> nat) result" where
  "List_watch_folders like fv status keyword page0 size0 s =
     (let pageSize = (if size0 \<le> 0 then 20 else if size0 > 200 then 200 else size0);
          page = (if page0 \<le> 0 then 1 else if page0 > 10000 then 10000 else page0)
      in List_folders like (fv_flt fv 0) status keyword (nat ((page - 1) * pageSize)) (nat pageSize) s)"


subsection \<open>Folders never overlap\<close>

lemma pathContains_iff:
  assumes "rooted root" "rooted p"
  shows "pathContains root p \<longleftrightarrow> prefix (elems root) (elems p)"
  using assms by (simp add: pathContains_def rel_inside_iff elems_path_Clean)

lemma localPathsOverlap_sym: "localPathsOverlap a b = localPathsOverlap b a"
  by (auto simp: localPathsOverlap_def)

definition folders_apart :: "db \<Rightarrow> bool" where
  "folders_apart s \<longleftrightarrow> folders_inv s \<and> 0 < next_folder s \<and> (\<forall>f \<in> set (folders s). 0 < wf_ID f \<and> rooted (wf_LocalPath f))
     \<and> (\<forall>f \<in> set (folders s). \<forall>g \<in> set (folders s). wf_ID f \<noteq> wf_ID g \<longrightarrow> \<not> localPathsOverlap (wf_LocalPath f) (wf_LocalPath g))"

lemma ValidateLocalDirectory_rooted:
  assumes "honest_os fs" "ValidateLocalDirectory fs p x = Inr r"
  shows "rooted r"
  using assms honest_resolved[OF assms(1)]
  by (auto simp: ValidateLocalDirectory_def validateLocal_def Let_def split: if_splits option.splits)

lemma ensurePath_apart:
  assumes "ensurePathDoesNotOverlap quote flt i c s = Inr u" "f \<in> set (folders s)" "i > 0 \<longrightarrow> wf_ID f \<noteq> i"
  shows "\<not> localPathsOverlap c (wf_LocalPath f)"
  using assms
  by (auto simp: ensurePathDoesNotOverlap_def bind_res_Inr ListPaths_def find_None_iff split: if_splits option.splits)

datatype folder_request =
    FReqCreate time create_folder_input
  | FReqUpdate nat update_folder_input
  | FReqDelete nat
  | FReqScanning time "fault \<times> folder_op"  \<comment> \<open>what scanners and workers do to folders\<close>
  | FReqRoute time "fault \<times> route_op"  \<comment> \<open>what is done to routes\<close>

text \<open>One request after the other, each with its own faults and clock.\<close>
fun serve_folder :: "'p folder_service \<times> folder_request \<Rightarrow> db \<Rightarrow> db" where
  "serve_folder (fv, FReqCreate now inp) s = fst (Create_watch_folder fv now inp s)"
| "serve_folder (fv, FReqUpdate i inp) s = fst (Update_watch_folder fv i inp s)"
| "serve_folder (fv, FReqDelete i) s = fst (Delete_watch_folder fv i s)"
| "serve_folder (fv, FReqScanning now a) s = folder_step now a s"
| "serve_folder (fv, FReqRoute now a) s = route_step now a s"

text \<open>New and changed folders go through the service.\<close>
fun via_service :: "folder_request \<Rightarrow> bool" where
  "via_service (FReqScanning _ (_, FOpCreate _)) = False"
| "via_service (FReqScanning _ (_, FOpUpdate _ _ _)) = False"
| "via_service _ = True"

lemma folders_apart_cong: "folders s = folders s' \<Longrightarrow> next_folder s = next_folder s' \<Longrightarrow> folders_apart s = folders_apart s'"
  by (simp add: folders_apart_def folders_inv_def)

lemma Create_folder_folders:
  "next_folder (fst (Create_folder flt now f s)) = next_folder s \<and> folders (fst (Create_folder flt now f s)) = folders s
   \<or> next_folder (fst (Create_folder flt now f s)) = next_folder s + 1
     \<and> (\<exists>f'. wf_ID f' = next_folder s \<and> wf_LocalPath f' = wf_LocalPath f
          \<and> folders (fst (Create_folder flt now f s)) = folders s @ [f'])"
  by (auto simp: Create_folder_def Let_def folder_defaults_def)

lemma create_apart:
  assumes "folders_apart s" "honest_os (fv_os fv)"
  shows "folders_apart (fst (Create_watch_folder fv now inp s))"
proof (cases "folder_to_create fv now inp s")
  case (Inl e)
  with assms show ?thesis by (simp add: Create_watch_folder_def)
next
  case (Inr f)
  then obtain raw u where r: "ValidateLocalDirectory (fv_os fv) (fv_policy fv) raw = Inr (wf_LocalPath f)"
    "ensurePathDoesNotOverlap (fv_quote fv) (fv_flt fv 1) 0 (wf_LocalPath f) s = Inr u"
    by (auto simp: folder_to_create_def bind_res_Inr Let_def)
  have root: "rooted (wf_LocalPath f)" by (rule ValidateLocalDirectory_rooted[OF assms(2) r(1)])
  have apart: "\<not> localPathsOverlap (wf_LocalPath f) (wf_LocalPath g)" if "g \<in> set (folders s)" for g
    using ensurePath_apart[OF r(2) that] by simp
  have c: "fst (Create_watch_folder fv now inp s) = fst (Create_folder (fv_flt fv 2) (fv_now fv 2) f s)"
    using Inr by (simp add: Create_watch_folder_def split: prod.split)
  from Create_folder_folders[of "fv_flt fv 2" "fv_now fv 2" f s] show ?thesis
  proof (elim disjE conjE exE)
    assume "next_folder (fst (Create_folder (fv_flt fv 2) (fv_now fv 2) f s)) = next_folder s"
      "folders (fst (Create_folder (fv_flt fv 2) (fv_now fv 2) f s)) = folders s"
    with assms(1) c show ?thesis by (simp add: folders_apart_def folders_inv_def)
  next
    fix f' assume n: "next_folder (fst (Create_folder (fv_flt fv 2) (fv_now fv 2) f s)) = next_folder s + 1"
      "wf_ID f' = next_folder s" "wf_LocalPath f' = wf_LocalPath f"
      "folders (fst (Create_folder (fv_flt fv 2) (fv_now fv 2) f s)) = folders s @ [f']"
    have "folders_inv (fst (Create_watch_folder fv now inp s))"
      using assms(1) n unfolding c by (auto simp: folders_apart_def folders_inv_def)
    then show ?thesis
      using assms(1) apart root n unfolding c folders_apart_def
      by (auto simp: localPathsOverlap_sym)
  qed
qed


lemma Get_watch_folder_Inr: "Get_watch_folder fv k i s = Inr f \<Longrightarrow> folder_by i s = Some f"
  by (auto simp: Get_watch_folder_def GetByID_folder_def split: if_splits option.splits)

lemma changed_destination_id: "changed_destination fv inp f0 s = Inr f1 \<Longrightarrow> wf_ID f1 = wf_ID f0"
  by (auto simp: changed_destination_def bind_res_Inr split: option.splits if_splits)

lemma requested_folder_row:
  assumes "requested_folder fv i inp s = Inr (f0, f2)"
  shows "folder_by i s = Some f0 \<and> wf_ID f2 = wf_ID f0"
proof -
  from assms obtain f1 where "Get_watch_folder fv 0 i s = Inr f0"
    "changed_destination fv inp (f0\<lparr>wf_Name := or_keep (ufi_Name inp) (wf_Name f0),
          wf_LocalPath := or_keep (ufi_LocalPath inp) (wf_LocalPath f0)\<rparr>) s = Inr f1" "wf_ID f2 = wf_ID f1"
    unfolding requested_folder_def bind_res_Inr by auto
  with changed_destination_id Get_watch_folder_Inr show ?thesis by fastforce
qed

lemma checked_folder_paths:
  assumes "checked_folder fv f = Inr f'"
  shows "ValidateLocalDirectory (fv_os fv) (fv_policy fv) (wf_LocalPath f) = Inr (wf_LocalPath f')
    \<and> ValidateRemote (fv_policy fv) (wf_RemoteName f) (wf_RemotePath f) = Inr (wf_RemotePath f')
    \<and> wf_ID f' = wf_ID f \<and> wf_RemoteName f' = wf_RemoteName f \<and> wf_RemoteRouteID f' = wf_RemoteRouteID f"
  using assms unfolding checked_folder_def bind_res_Inr by auto

lemma folder_to_update_checked:
  assumes "folder_to_update fv i inp s = Inr (f, dest)"
  shows "(\<exists>raw. ValidateLocalDirectory (fv_os fv) (fv_policy fv) raw = Inr (wf_LocalPath f))
    \<and> (\<exists>u. ensurePathDoesNotOverlap (fv_quote fv) (fv_flt fv 2) i (wf_LocalPath f) s = Inr u)
    \<and> (\<exists>f0. folder_by i s = Some f0 \<and> wf_ID f = wf_ID f0)"
proof -
  from assms obtain f0 f2 u where "requested_folder fv i inp s = Inr (f0, f2)" "checked_folder fv f2 = Inr f"
    "ensurePathDoesNotOverlap (fv_quote fv) (fv_flt fv 2) i (wf_LocalPath f) s = Inr u"
    by (auto simp: folder_to_update_def bind_res_Inr Let_def)
  with requested_folder_row[OF this(1)] checked_folder_paths[OF this(2)] show ?thesis by auto
qed

text \<open>Rows may change in everything but their key and their path, and may go.\<close>
lemma folders_apart_keep:
  assumes "folders_apart s" "next_folder s' = next_folder s" "distinct (map wf_ID (folders s'))"
    and "\<forall>f' \<in> set (folders s'). \<exists>f \<in> set (folders s). wf_ID f' = wf_ID f \<and> wf_LocalPath f' = wf_LocalPath f"
  shows "folders_apart s'"
proof -
  have "\<not> localPathsOverlap (wf_LocalPath f') (wf_LocalPath g')"
    if m: "f' \<in> set (folders s')" "g' \<in> set (folders s')" "wf_ID f' \<noteq> wf_ID g'" for f' g'
  proof -
    from assms(4) m obtain f g where "f \<in> set (folders s)" "g \<in> set (folders s)" "wf_ID f' = wf_ID f" "wf_ID g' = wf_ID g"
      "wf_LocalPath f' = wf_LocalPath f" "wf_LocalPath g' = wf_LocalPath g" by metis
    with assms(1) m(3) show ?thesis unfolding folders_apart_def by metis
  qed
  moreover have "\<forall>f' \<in> set (folders s'). 0 < wf_ID f' \<and> rooted (wf_LocalPath f') \<and> wf_ID f' < next_folder s"
    using assms(1,4) unfolding folders_apart_def folders_inv_def by metis
  ultimately show ?thesis using assms(1-3) by (auto simp: folders_apart_def folders_inv_def)
qed

lemma update_apart:
  assumes "folders_apart s" "honest_os (fv_os fv)"
  shows "folders_apart (fst (Update_watch_folder fv i inp s))"
proof (cases "folder_to_update fv i inp s")
  case (Inl e)
  with assms show ?thesis by (simp add: Update_watch_folder_def)
next
  case (Inr fd)
  obtain f dest where fd: "fd = (f, dest)" by (cases fd)
  let ?idle = "configurationChanged inp"
  let ?s' = "fst (Update_folder (fv_flt fv 3) (fv_now fv 3) f ?idle dest s)"
  let ?p = "\<lambda>x. wf_ID x = wf_ID f \<and> (wf_UpdatedAt f = zero_time \<or> wf_UpdatedAt x = wf_UpdatedAt f)
      \<and> (?idle \<longrightarrow> wf_Status x \<noteq> WatchFolderStatusDetecting)"
  from folder_to_update_checked[OF Inr[unfolded fd]] obtain raw u f0 where
    r: "ValidateLocalDirectory (fv_os fv) (fv_policy fv) raw = Inr (wf_LocalPath f)"
    "ensurePathDoesNotOverlap (fv_quote fv) (fv_flt fv 2) i (wf_LocalPath f) s = Inr u"
    and f0: "folder_by i s = Some f0" "wf_ID f = wf_ID f0" by blast
  have id: "wf_ID f = i" using f0 folder_by_id by simp
  have root: "rooted (wf_LocalPath f)" by (rule ValidateLocalDirectory_rooted[OF assms(2) r(1)])
  have apart: "\<not> localPathsOverlap (wf_LocalPath f) (wf_LocalPath g)" if "g \<in> set (folders s)" "wf_ID g \<noteq> i" for g
    using ensurePath_apart[OF r(2) that(1)] that(2) by simp
  have c: "fst (Update_watch_folder fv i inp s) = ?s'"
    using Inr fd by (auto simp: Update_watch_folder_def split: prod.split sum.split repo_error.split)
  from Update_folder_folders[of "fv_flt fv 3" "fv_now fv 3" f ?idle dest s] show ?thesis
  proof (elim disjE conjE)
    assume "folders ?s' = folders s" "next_folder ?s' = next_folder s"
    with assms(1) c show ?thesis by (simp add: folders_apart_def folders_inv_def)
  next
    assume n: "next_folder ?s' = next_folder s"
      and fs: "folders ?s' = folders (update_folders ?p (config_row (fv_now fv 3) f) s)"
    have inv: "folders_inv ?s'"
      using folders_inv_update[of "config_row (fv_now fv 3) f" s ?p] assms(1) n fs
      by (simp add: folders_apart_def folders_inv_def update_folders_def)
    have rows: "(x \<in> set (folders s)) \<or> (wf_ID x = i \<and> wf_LocalPath x = wf_LocalPath f)" if "x \<in> set (folders ?s')" for x
      using that fs id by (auto simp: update_folders_def set_update_where config_row_def)
    have pos: "0 < i" using assms(1) f0 folder_by_Some[OF f0(1)] by (auto simp: folders_apart_def)
    have "\<not> localPathsOverlap (wf_LocalPath x) (wf_LocalPath y)"
      if m: "x \<in> set (folders ?s')" "y \<in> set (folders ?s')" "wf_ID x \<noteq> wf_ID y" for x y
      using rows[OF m(1)] rows[OF m(2)] m(3) apart assms(1) localPathsOverlap_sym
      by (auto simp: folders_apart_def) metis+
    moreover have "0 < wf_ID x \<and> rooted (wf_LocalPath x)" if "x \<in> set (folders ?s')" for x
      using rows[OF that] assms(1) pos root by (auto simp: folders_apart_def)
    ultimately show ?thesis using inv n assms(1) unfolding c by (simp add: folders_apart_def)
  qed
qed


lemma folders_apart_update:
  assumes "folders_apart s" "\<And>f. wf_ID (u f) = wf_ID f \<and> wf_LocalPath (u f) = wf_LocalPath f"
  shows "folders_apart (update_folders p u s)"
proof (rule folders_apart_keep[OF assms(1)])
  show "distinct (map wf_ID (folders (update_folders p u s)))"
    using folders_inv_update[of u s p] assms by (simp add: folders_apart_def folders_inv_def)
qed (use assms(2) in \<open>auto simp: update_folders_def set_update_where\<close>)

lemma folders_apart_delete:
  assumes "folders_apart s" "next_folder s' = next_folder s" "folders s' = delete_where P (folders s)"
  shows "folders_apart s'"
  by (rule folders_apart_keep[OF assms(1,2)])
    (use assms in \<open>auto simp: distinct_delete_where folders_apart_def folders_inv_def\<close>)

lemma Delete_folder_apart: "folders_apart s \<Longrightarrow> folders_apart (fst (Delete_folder flt now i s))"
  using Delete_folder_folders[of flt now i s] folders_apart_delete folders_apart_cong by metis

lemma scan_row_paths [simp]:
  "wf_LocalPath (claim_scan_row n w st d f) = wf_LocalPath f" "wf_LocalPath (renew_scan_row n d f) = wf_LocalPath f"
  "wf_LocalPath (finish_scan_row n c f) = wf_LocalPath f"
  by (simp_all add: folder_rows)

lemma scanning_apart:
  assumes "folders_apart s" "via_service (FReqScanning now (flt, a))"
  shows "folders_apart (folder_step now (flt, a) s)"
  using assms
  by (cases a) (auto simp: ClaimForScan_def RenewScanLease_def FinishScan_def ScheduleAllEnabledNow_def
      RecordUploadSuccess_def RecordUploadFailure_def Let_def Delete_folder_apart intro!: folders_apart_update)

lemma move_linked_apart:
  assumes "folders_apart s"
  shows "folders_apart (move_linked now r ws s)"
proof (rule folders_apart_keep[OF assms])
  show "next_folder (move_linked now r ws s) = next_folder s"
    by (simp add: move_linked_def Let_def cancel_linked_tasks_map update_folders_def)
       (simp add: cancel_linked_tasks_def update_tasks_def)
qed (use assms in \<open>auto simp: move_linked_tables set_update_where update_where_cong_map folders_apart_def folders_inv_def\<close>)


lemma route_requests_apart:
  assumes "folders_apart s"
  shows "folders_apart (route_step now (flt, a) s)"
proof (cases a)
  case (ROpUpdate r dest)
  have "folders_apart (update_routes p u s)" for p u
    using assms folders_apart_cong[of "update_routes p u s" s] by (simp add: update_routes_def)
  with assms Update_route_cases[OF prod.collapse[symmetric], of flt now r dest s] show ?thesis
    by (auto simp: ROpUpdate move_linked_apart)
next
  case (ROpUpsert fs n)
  with assms folders_apart_cong[of "route_step now (flt, a) s" s] show ?thesis by simp
next
  case (ROpDeleteUnseen i t)
  with assms folders_apart_cong[of "route_step now (flt, a) s" s] show ?thesis by simp
next
  case (ROpDelete i)
  with assms Delete_route_cases[OF prod.collapse[symmetric], of flt now i s] show ?thesis
    by (auto simp: folders_apart_def folders_inv_def)
qed (use assms in \<open>auto simp: ClaimForScan_route_def RenewScanLease_route_def FinishScan_route_def ScheduleScan_def
      ScheduleAllScans_def Create_route_def update_routes_def folders_apart_def folders_inv_def Let_def\<close>)

lemma delete_apart: "folders_apart s \<Longrightarrow> folders_apart (fst (Delete_watch_folder fv i s))"
  using Delete_folder_apart[of s "fv_flt fv 1" "fv_now fv 1" i]
  by (auto simp: Delete_watch_folder_def split: sum.split prod.split repo_error.split)

lemma serve_folder_apart:
  assumes "folders_apart s" "honest_os (fv_os fv)" "via_service q"
  shows "folders_apart (serve_folder (fv, q) s)"
proof (cases q)
  case (FReqScanning now x)
  with assms show ?thesis by (cases x) (simp add: scanning_apart)
next
  case (FReqRoute now x)
  with assms show ?thesis by (cases x) (simp add: route_requests_apart)
qed (use assms in \<open>simp_all add: create_apart update_apart delete_apart\<close>)

lemma serve_folders_apart:
  "folders_apart s \<Longrightarrow> list_all (\<lambda>(fv, q). honest_os (fv_os fv) \<and> via_service q) qs \<Longrightarrow> folders_apart (fold serve_folder qs s)"
proof (induction qs arbitrary: s)
  case (Cons x qs)
  then show ?case by (cases x) (simp add: serve_folder_apart)
qed simp

lemma apart_one_folder:
  assumes "folders_apart s" "f \<in> set (folders s)" "g \<in> set (folders s)" "rooted p"
    and "pathContains (wf_LocalPath f) p" "pathContains (wf_LocalPath g) p"
  shows "f = g"
proof -
  have rooted: "rooted (wf_LocalPath f)" "rooted (wf_LocalPath g)" using assms(1-3) by (auto simp: folders_apart_def)
  with assms(4-6) have "prefix (elems (wf_LocalPath f)) (elems p)" "prefix (elems (wf_LocalPath g)) (elems p)"
    by (simp_all add: pathContains_iff)
  then have "localPathsOverlap (wf_LocalPath f) (wf_LocalPath g)"
    using rooted by (auto simp: localPathsOverlap_def pathContains_iff dest: prefix_same_cases)
  with assms(1-3) have "wf_ID f = wf_ID g" unfolding folders_apart_def by blast
  with assms(1-3) show ?thesis by (simp add: folders_apart_def folders_inv_def distinct_map inj_on_def)
qed


subsection \<open>Properties\<close>


definition directories_os :: os where
  "directories_os = \<lparr>os_Getwd = Some ''/srv'', os_EvalSymlinks = Some, os_Stat = (\<lambda>_. Some Directory)\<rparr>"

definition demo_folder_service :: "string folder_service" where
  "demo_folder_service = \<lparr>fv_policy = None, fv_os = directories_os, fv_rx = demo_engine, fv_quote = (\<lambda>x. x),
     fv_flt = (\<lambda>_ _. False), fv_now = (\<lambda>_. 5)\<rparr>"

definition folder_at :: "string \<Rightarrow> create_folder_input" where
  "folder_at p = \<lparr>cfi_Name = ''docs'', cfi_LocalPath = p, cfi_RemoteRouteID = 0, cfi_RemoteName = ''r'',
     cfi_RemotePath = ''b'', cfi_SyncType = '''', cfi_MaxDepth = 0, cfi_FilterKeywords = '''',
     cfi_ScanIntervalSecond = 0, cfi_PathPipeline = []\<rparr>"

definition demo_requests :: "(string folder_service \<times> folder_request) list" where
  "demo_requests = map (Pair demo_folder_service)
     [FReqCreate 4 (folder_at ''/data''), FReqCreate 5 (folder_at ''/data/sub''), FReqCreate 6 (folder_at ''/data2'')]"

lemma demo_cleans:
  "path_Clean ''/data'' = ''/data''
   \<and> path_Clean ''/data/sub'' = ''/data/sub''
   \<and> path_Clean ''/data2'' = ''/data2''
   \<and> byte0 \<notin> set ''/data''
   \<and> byte0 \<notin> set ''/data/sub''
   \<and> byte0 \<notin> set ''/data2''"
  by code_simp

lemma demo_trims:
  "TrimSpace ''/data'' = ''/data''
   \<and> TrimSpace ''/data/sub'' = ''/data/sub''
   \<and> TrimSpace ''/data2'' = ''/data2''
   \<and> TrimSpace ''docs'' = ''docs''
   \<and> TrimSpace ''r'' = ''r''
   \<and> TrimSpace ''b'' = ''b''"
  by (simp add: TrimSpace_printable printable_def)

lemma demo_elems:
  "elems ''/data'' = [''data'']" "elems ''/data/sub'' = [''data'', ''sub'']" "elems ''/data2'' = [''data2'']"
  by (simp_all add: elems_def)

lemma demo_local:
  "ValidateLocalDirectory directories_os None ''/data'' = Inr ''/data''"
  "ValidateLocalDirectory directories_os None ''/data/sub'' = Inr ''/data/sub''"
  "ValidateLocalDirectory directories_os None ''/data2'' = Inr ''/data2''"
  by (simp_all add: ValidateLocalDirectory_def validateLocal_def demo_cleans demo_trims directories_os_def filepath_Abs_def
      Let_def del: set_simps)

lemma demo_remote: "ValidateRemote None ''r'' ''b'' = Inr ''b''"
  by code_simp

lemma demo_overlap:
  "localPathsOverlap ''/data/sub'' ''/data''" "\<not> localPathsOverlap ''/data2'' ''/data''"
  by (simp_all add: localPathsOverlap_def pathContains_iff demo_elems)

lemmas demo_service = demo_folder_service_def folder_at_def demo_trims demo_local demo_remote demo_overlap
  chosen_destination_def Normalize_def demo_engine_def require_def local_to_remote_def Create_folder_def folder_defaults_def
  ensurePathDoesNotOverlap_def ListPaths_def

lemma demo_requests_served: "map (\<lambda>f. (wf_ID f, wf_LocalPath f)) (folders (fold serve_folder demo_requests empty_db))
    = [(1, ''/data''), (2, ''/data2'')]"
  by (simp add: demo_requests_def Create_watch_folder_def folder_to_create_def demo_service empty_db_def Let_def)

lemma directories_os_honest: "honest_os directories_os"
  by (simp add: honest_os_def directories_os_def)


lemma demo_requests_sound:
  "folders_apart empty_db" "list_all (\<lambda>(fv, q). honest_os (fv_os fv) \<and> via_service q) demo_requests"
  by (simp_all add: folders_apart_def folders_inv_def empty_db_def demo_requests_def demo_folder_service_def
      directories_os_honest)


text \<open>
  A change that links a folder to a route gives it the key of the route, and the name and path of
  the route unless the same request also names a destination: explicit fields win, without being
  compared with the route, so the folder then uploads somewhere else than the route it is linked to.
\<close>
theorem linked_folder_destination:
  assumes "folder_to_update fv i inp s = Inr (f, dest)" "ufi_RemoteRouteID inp = Some rid"
  shows "\<exists>r. route_by rid s = Some r \<and> wf_RemoteRouteID f = rid
    \<and> wf_RemoteName f = (case ufi_RemoteName inp of None \<Rightarrow> rr_RemoteName r | Some n \<Rightarrow> n)
    \<and> ValidateRemote (fv_policy fv) (wf_RemoteName f)
        (case ufi_RemotePath inp of None \<Rightarrow> rr_RemotePath r | Some p \<Rightarrow> p) = Inr (wf_RemotePath f)"
proof -
  from assms(1) obtain f0 f2 where q: "requested_folder fv i inp s = Inr (f0, f2)" "checked_folder fv f2 = Inr f"
    by (auto simp: folder_to_update_def bind_res_Inr Let_def)
  from q(1) obtain g f1 where "changed_destination fv inp g s = Inr f1"
    "wf_RemoteName f2 = wf_RemoteName f1" "wf_RemotePath f2 = wf_RemotePath f1" "wf_RemoteRouteID f2 = wf_RemoteRouteID f1"
    unfolding requested_folder_def bind_res_Inr by auto
  moreover from this(1) assms(2) obtain r where "GetByID_route (fv_flt fv 1) rid s = Inr r"
    "wf_RemoteRouteID f1 = rr_ID r" "wf_RemoteName f1 = or_keep (ufi_RemoteName inp) (rr_RemoteName r)"
    "wf_RemotePath f1 = or_keep (ufi_RemotePath inp) (rr_RemotePath r)"
    by (auto simp: changed_destination_def bind_res_Inr split: if_splits)
  ultimately show ?thesis
    using checked_folder_paths[OF q(2)]
    by (auto simp: GetByID_route_def or_keep_def route_by_Some split: if_splits option.splits)
qed


definition link_elsewhere :: update_folder_input where
  "link_elsewhere = \<lparr>ufi_Name = None, ufi_LocalPath = None, ufi_RemoteRouteID = Some 3, ufi_RemoteName = Some ''elsewhere'',
     ufi_RemotePath = None, ufi_SyncType = None, ufi_MaxDepth = None, ufi_FilterKeywords = None,
     ufi_ScanIntervalSecond = None, ufi_PathPipeline = None, ufi_Status = None, ufi_Enabled = None\<rparr>"

definition unlinked_db :: db where
  "unlinked_db = (route_db [sample_route 3 RemoteRouteStatusReady])
     \<lparr>folders := [(sample_folder 4 WatchFolderStatusWatching)\<lparr>wf_LocalPath := ''/data''\<rparr>], next_folder := 9\<rparr>"

lemma link_elsewhere_remote: "ValidateRemote None ''elsewhere'' ''b'' = Inr ''b''"
  by code_simp

lemma link_elsewhere_requested:
  "requested_folder demo_folder_service 4 link_elsewhere unlinked_db
     = Inr ((sample_folder 4 WatchFolderStatusWatching)\<lparr>wf_LocalPath := ''/data''\<rparr>,
            (sample_folder 4 WatchFolderStatusWatching)\<lparr>wf_LocalPath := ''/data'', wf_RemoteRouteID := 3,
              wf_RemoteName := ''elsewhere''\<rparr>)"
  by (simp add: requested_folder_def link_elsewhere_def unlinked_db_def changed_destination_def Get_watch_folder_def
      GetByID_folder_def GetByID_route_def folder_by_def route_by_def demo_folder_service_def or_keep_def
      changed_status_def folder_samples route_samples require_def configurationChanged_def first_where_def)


lemma link_elsewhere_stored:
  "folder_to_update demo_folder_service 4 link_elsewhere unlinked_db
     = Inr ((sample_folder 4 WatchFolderStatusWatching)\<lparr>wf_LocalPath := ''/data'', wf_RemoteRouteID := 3,
              wf_RemoteName := ''elsewhere''\<rparr>, True)"
proof -
  have c: "checked_folder demo_folder_service ((sample_folder 4 WatchFolderStatusWatching)\<lparr>wf_LocalPath := ''/data'',
        wf_RemoteRouteID := 3, wf_RemoteName := ''elsewhere''\<rparr>)
      = Inr ((sample_folder 4 WatchFolderStatusWatching)\<lparr>wf_LocalPath := ''/data'', wf_RemoteRouteID := 3,
              wf_RemoteName := ''elsewhere''\<rparr>)"
    by (simp add: checked_folder_def demo_folder_service_def sample_folder_def require_def demo_trims demo_local
        link_elsewhere_remote local_to_remote_def)
  show ?thesis
    by (simp add: folder_to_update_def link_elsewhere_requested c)
      (simp add: ensurePathDoesNotOverlap_def ListPaths_def demo_folder_service_def unlinked_db_def folder_samples)
qed

theorem linked_folder_destination_witness:
  "\<exists>f r. folder_to_update demo_folder_service 4 link_elsewhere unlinked_db = Inr (f, True)
     \<and> route_by 3 unlinked_db = Some r \<and> wf_RemoteRouteID f = 3 \<and> wf_RemoteName f \<noteq> rr_RemoteName r"
proof -
  let ?f = "(sample_folder 4 WatchFolderStatusWatching)\<lparr>wf_LocalPath := ''/data'', wf_RemoteRouteID := 3,
              wf_RemoteName := ''elsewhere''\<rparr>"
  have "ufi_RemoteRouteID link_elsewhere = Some 3" by (simp add: link_elsewhere_def)
  from linked_folder_destination[OF link_elsewhere_stored this] obtain r where
    "route_by 3 unlinked_db = Some r" by blast
  moreover from this have "rr_RemoteName r = ''r''"
    by (auto simp: route_by_def unlinked_db_def route_samples first_where_def)
  ultimately show ?thesis
    by (intro exI[of _ ?f] exI[of _ r]) (simp add: link_elsewhere_stored)
qed

end
