(* ===== verification/MoveOps.thy ===== *)
theory MoveOps
  imports RouteService
begin

section \<open>Asynchronous batch moves\<close>

text \<open>
  \<open>internal/api/remote_move_operation.go\<close>: the manager that runs batch moves in the background, one
  per route at a time, and keeps a snapshot that clients poll.  Every method holds the mutex for
  the whole of its access to the state, so requests and the goroutines of the moves interleave in
  whole critical sections: these are the steps of \<open>move_step\<close>.  What the runner may report and return
  is the contract \<open>move_runner\<close>, which the route service is proved to keep.
\<close>

subsection \<open>State\<close>

datatype move_status =
    remoteMoveStatusQueued
  | remoteMoveStatusRunning
  | remoteMoveStatusCompleted
  | remoteMoveStatusFailed

(* src/internal/api/remote_move_operation.go 27-44 RemoteMoveOperation *)
record move_operation =
  mo_ID :: string
  mo_RouteID :: nat
  mo_Status :: move_status
  mo_Phase :: string
  mo_Total :: nat
  mo_Processed :: nat
  mo_Percent :: int
  mo_CurrentPath :: string
  mo_Moved :: "move_result list"
  mo_Failed :: "move_failure list"
  mo_RefreshScheduled :: bool
  mo_Error :: string
  mo_CreatedAt :: time
  mo_StartedAt :: "time option"
  mo_FinishedAt :: "time option"

(* src/internal/api/remote_move_operation.go 50-58 remoteMoveOperationManager *)
record move_manager =
  mm_retention :: dur
  mm_operations :: "string \<rightharpoonup> move_operation"
  mm_activeByRoute :: "nat \<rightharpoonup> string"

(* src/internal/api/remote_move_operation.go 60-68 newRemoteMoveOperationManager *)
definition newRemoteMoveOperationManager :: move_manager where
  "newRemoteMoveOperationManager =
     \<lparr>mm_retention = 3600 * 1000000000, mm_operations = Map.empty, mm_activeByRoute = Map.empty\<rparr>"

definition maxRemoteMoveOperationBatch :: nat where "maxRemoteMoveOperationBatch = 100"

subsection \<open>Methods\<close>

definition hex_digit :: "nat \<Rightarrow> char" where
  "hex_digit n = ''0123456789abcdef'' ! (n mod 16)"

text \<open>\<open>None\<close>: the random source failed; otherwise the sixteen bytes it gave.\<close>
(* src/internal/api/remote_move_operation.go 70-76 newRemoteMoveOperationID *)
definition newRemoteMoveOperationID :: "nat list option \<Rightarrow> string option" where
  "newRemoteMoveOperationID entropy =
     (case entropy of
        None \<Rightarrow> None
      | Some buffer \<Rightarrow> Some (concat (map (\<lambda>n. [hex_digit (n div 16), hex_digit n]) buffer)))"

(* src/internal/api/remote_move_operation.go 184-190 remoteMoveOperationManager.cleanupLocked *)
definition cleanupLocked :: "time \<Rightarrow> move_manager \<Rightarrow> move_manager" where
  "cleanupLocked now m =
     m\<lparr>mm_operations := (\<lambda>operationID. case mm_operations m operationID of
          None \<Rightarrow> None
        | Some operation \<Rightarrow>
            if (case mo_FinishedAt operation of None \<Rightarrow> False | Some finished \<Rightarrow> now - finished > mm_retention m)
            then None else Some operation)\<rparr>"

(* src/internal/api/remote_move_operation.go 192-204 remoteMovePercent *)
definition remoteMovePercent :: "int \<Rightarrow> int \<Rightarrow> int" where
  "remoteMovePercent processed tot =
     (if tot \<le> 0 then 0
      else let percent = go_div (wrap64 (processed * 100)) tot in
        if percent < 0 then 0 else if percent > 100 then 100 else percent)"

definition queued_operation :: "time \<Rightarrow> string \<Rightarrow> nat \<Rightarrow> nat \<Rightarrow> move_operation" where
  "queued_operation now operationID routeID tot =
     \<lparr>mo_ID = operationID, mo_RouteID = routeID, mo_Status = remoteMoveStatusQueued, mo_Phase = ''queued'',
      mo_Total = tot, mo_Processed = 0, mo_Percent = 0, mo_CurrentPath = '''', mo_Moved = [], mo_Failed = [],
      mo_RefreshScheduled = False, mo_Error = '''', mo_CreatedAt = now, mo_StartedAt = None, mo_FinishedAt = None\<rparr>"

datatype start_error = RandomUnavailable | Refused service_error

text \<open>The goroutine that \<open>Start\<close> launches is the one for the operation it returns.\<close>
(* src/internal/api/remote_move_operation.go 78-105 remoteMoveOperationManager.Start *)
definition Start_move ::
    "time \<Rightarrow> nat list option \<Rightarrow> nat \<Rightarrow> string list \<Rightarrow> move_manager \<Rightarrow> move_manager \<times> (start_error, move_operation) result" where
  "Start_move now entropy routeID sourcePaths m =
     (if sourcePaths = [] \<or> length sourcePaths > maxRemoteMoveOperationBatch
      then (m, Inl (Refused (Validation ''source_paths must contain between 1 and 100 files'')))
      else case newRemoteMoveOperationID entropy of
        None \<Rightarrow> (m, Inl RandomUnavailable)
      | Some operationID \<Rightarrow>
          let m1 = cleanupLocked now m in
          if (case mm_activeByRoute m1 routeID of None \<Rightarrow> '''' | Some activeID \<Rightarrow> activeID) \<noteq> ''''
          then (m1, Inl (Refused (Conflict ''this remote route already has a file move operation running'')))
          else let operation = queued_operation now operationID routeID (length sourcePaths) in
            (m1\<lparr>mm_operations := (mm_operations m1)(operationID \<mapsto> operation),
                mm_activeByRoute := (mm_activeByRoute m1)(routeID \<mapsto> operationID)\<rparr>, Inr operation))"

(* src/internal/api/remote_move_operation.go 107-119 remoteMoveOperationManager.Get *)
definition Get_move :: "time \<Rightarrow> nat \<Rightarrow> string \<Rightarrow> move_manager \<Rightarrow> move_manager \<times> (service_error, move_operation) result" where
  "Get_move now routeID operationID m =
     (let m1 = cleanupLocked now m in
      case mm_operations m1 operationID of
        None \<Rightarrow> (m1, Inl (NotFound ''file move operation not found''))
      | Some operation \<Rightarrow>
          if mo_RouteID operation \<noteq> routeID then (m1, Inl (NotFound ''file move operation not found''))
          else (m1, Inr operation))"

definition update_operation :: "string \<Rightarrow> (move_operation \<Rightarrow> move_operation) \<Rightarrow> move_manager \<Rightarrow> move_manager" where
  "update_operation operationID u m =
     m\<lparr>mm_operations := (mm_operations m)(operationID := map_option u (mm_operations m operationID))\<rparr>"

text \<open>The three critical sections of the goroutine: before the call of the runner, in its callback, after it.\<close>
(* src/internal/api/remote_move_operation.go 123-130 remoteMoveOperationManager.run *)
definition run_begin :: "time \<Rightarrow> string \<Rightarrow> move_manager \<Rightarrow> move_manager" where
  "run_begin startedAt operationID =
     update_operation operationID (\<lambda>operation. operation\<lparr>mo_Status := remoteMoveStatusRunning, mo_Phase := ''preparing'',
       mo_StartedAt := Some startedAt\<rparr>)"

(* src/internal/api/remote_move_operation.go 167-182 remoteMoveOperationManager.updateProgress *)
definition updateProgress :: "string \<Rightarrow> move_progress \<Rightarrow> move_manager \<Rightarrow> move_manager" where
  "updateProgress operationID progress =
     update_operation operationID (\<lambda>operation. operation\<lparr>mo_Phase := mp_Phase progress, mo_Total := mp_Total progress,
       mo_Processed := mp_Processed progress, mo_CurrentPath := mp_CurrentPath progress,
       mo_Moved := bm_Moved (mp_Result progress), mo_Failed := bm_Failed (mp_Result progress),
       mo_RefreshScheduled := bm_RefreshScheduled (mp_Result progress),
       mo_Percent := remoteMovePercent (int (mp_Processed progress)) (int (mp_Total progress))\<rparr>)"

text \<open>The bytes of the two messages in Chinese.\<close>
definition deadline_message :: string where
  "deadline_message = map char_of
     [232, 191, 156, 231, 171, 175, 230, 150, 135, 228, 187, 182, 231, 167, 187, 229, 138, 168, 232, 182, 133, 232,
      191, 135, 32, 54, 32, 229, 176, 143, 230, 151, 182, 229, 144, 142, 229, 143, 176, 230, 137, 167, 232, 161,
      140, 230, 151, 182, 233, 153, 144::nat]"

definition failure_message :: string where
  "failure_message = map char_of
     [232, 191, 156, 231, 171, 175, 230, 150, 135, 228, 187, 182, 231, 167, 187, 229, 138, 168, 229, 164, 177, 232,
      180, 165, 239, 188, 140, 232, 175, 183, 230, 159, 165, 231, 156, 139, 230, 156, 141, 229, 138, 161, 230, 151,
      165, 229, 191, 151::nat]"

text \<open>\<open>deadline\<close> is \<open>errors.Is(err, context.DeadlineExceeded)\<close>.\<close>
(* src/internal/api/remote_move_operation.go 206-214 publicRemoteMoveError *)
definition publicRemoteMoveError :: "(service_error \<Rightarrow> bool) \<Rightarrow> service_error \<Rightarrow> string" where
  "publicRemoteMoveError deadline err =
     (if deadline err then deadline_message
      else case As_app err of Some publicError \<Rightarrow> ae_Message publicError | None \<Rightarrow> failure_message)"

definition finished_operation ::
    "(service_error \<Rightarrow> bool) \<Rightarrow> time \<Rightarrow> batch_move \<Rightarrow> service_error option \<Rightarrow> move_operation \<Rightarrow> move_operation" where
  "finished_operation deadline finishedAt r moveErr operation =
     (let operation1 = operation\<lparr>mo_Moved := bm_Moved r, mo_Failed := bm_Failed r,
            mo_Processed := length (bm_Moved r) + length (bm_Failed r), mo_RefreshScheduled := bm_RefreshScheduled r,
            mo_CurrentPath := '''', mo_FinishedAt := Some finishedAt\<rparr>
      in case moveErr of
           Some e \<Rightarrow> operation1\<lparr>mo_Status := remoteMoveStatusFailed, mo_Phase := ''failed'',
                               mo_Error := publicRemoteMoveError deadline e\<rparr>
         | None \<Rightarrow> operation1\<lparr>mo_Status := remoteMoveStatusCompleted, mo_Phase := ''completed'', mo_Percent := 100\<rparr>)"

(* src/internal/api/remote_move_operation.go 138-159 remoteMoveOperationManager.run *)
definition run_finish ::
    "(service_error \<Rightarrow> bool) \<Rightarrow> time \<Rightarrow> string \<Rightarrow> nat \<Rightarrow> batch_move \<Rightarrow> service_error option \<Rightarrow> move_manager \<Rightarrow> move_manager" where
  "run_finish deadline finishedAt operationID routeID r moveErr m =
     (let m1 = update_operation operationID (finished_operation deadline finishedAt r moveErr) m in
      if mm_activeByRoute m1 routeID = Some operationID
      then m1\<lparr>mm_activeByRoute := (mm_activeByRoute m1)(routeID := None)\<rparr> else m1)"


subsection \<open>Requests and goroutines\<close>

text \<open>
  A goroutine has been launched and not begun, or it is inside the runner with the reports still to
  come and the result it will return.
\<close>
datatype move_thread =
    Launched string nat "string list" string
  | Inside string nat nat "move_progress list" batch_move "service_error option"

fun thread_id :: "move_thread \<Rightarrow> string" where
  "thread_id (Launched i _ _ _) = i"
| "thread_id (Inside i _ _ _ _ _) = i"

fun thread_route :: "move_thread \<Rightarrow> nat" where
  "thread_route (Launched _ r _ _) = r"
| "thread_route (Inside _ r _ _ _ _) = r"

record move_system =
  ms_manager :: move_manager
  ms_threads :: "move_thread list"

type_synonym runner = "nat \<Rightarrow> string list \<Rightarrow> string \<Rightarrow> batch_move \<Rightarrow> service_error option \<Rightarrow> move_progress list \<Rightarrow> bool"

text \<open>
  The runner relates a call to every result and list of reports it may have.  Random identifiers of
  sixteen bytes are taken not to repeat.
\<close>
inductive move_step :: "runner \<Rightarrow> (service_error \<Rightarrow> bool) \<Rightarrow> move_system \<Rightarrow> move_system \<Rightarrow> bool"
  for runner :: runner and deadline :: "service_error \<Rightarrow> bool" where
  accept: "Start_move now (Some buffer) routeID sourcePaths m = (m', Inr operation) \<Longrightarrow> length buffer = 16
    \<Longrightarrow> mo_ID operation \<notin> dom (mm_operations m)
    \<Longrightarrow> move_step runner deadline \<lparr>ms_manager = m, ms_threads = ts\<rparr>
          \<lparr>ms_manager = m', ms_threads = ts @ [Launched (mo_ID operation) routeID sourcePaths targetFolder]\<rparr>"
| refuse: "Start_move now entropy routeID sourcePaths m = (m', Inl e)
    \<Longrightarrow> move_step runner deadline \<lparr>ms_manager = m, ms_threads = ts\<rparr> \<lparr>ms_manager = m', ms_threads = ts\<rparr>"
| poll: "Get_move now routeID operationID m = (m', res)
    \<Longrightarrow> move_step runner deadline \<lparr>ms_manager = m, ms_threads = ts\<rparr> \<lparr>ms_manager = m', ms_threads = ts\<rparr>"
| commence: "runner routeID sourcePaths targetFolder r err reports
    \<Longrightarrow> move_step runner deadline
          \<lparr>ms_manager = m, ms_threads = ts @ Launched operationID routeID sourcePaths targetFolder # us\<rparr>
          \<lparr>ms_manager = run_begin now operationID m,
           ms_threads = ts @ Inside operationID routeID (length sourcePaths) reports r err # us\<rparr>"
| progress: "move_step runner deadline
          \<lparr>ms_manager = m, ms_threads = ts @ Inside operationID routeID n (p # ps) r err # us\<rparr>
          \<lparr>ms_manager = updateProgress operationID p m, ms_threads = ts @ Inside operationID routeID n ps r err # us\<rparr>"
| finish: "move_step runner deadline
          \<lparr>ms_manager = m, ms_threads = ts @ Inside operationID routeID n [] r err # us\<rparr>
          \<lparr>ms_manager = run_finish deadline now operationID routeID r err m, ms_threads = ts @ us\<rparr>"

definition move_start :: move_system where
  "move_start = \<lparr>ms_manager = newRemoteMoveOperationManager, ms_threads = []\<rparr>"

subsection \<open>Invariant\<close>

text \<open>What a stored operation says of itself.\<close>
definition operation_ok :: "move_operation \<Rightarrow> bool" where
  "operation_ok operation \<longleftrightarrow>
     0 \<le> mo_Percent operation \<and> mo_Percent operation \<le> 100
     \<and> mo_Total operation \<le> maxRemoteMoveOperationBatch \<and> mo_Processed operation \<le> mo_Total operation
     \<and> (mo_FinishedAt operation = None \<longleftrightarrow> mo_Status operation \<in> {remoteMoveStatusQueued, remoteMoveStatusRunning})
     \<and> (mo_Status operation = remoteMoveStatusCompleted \<longrightarrow> mo_Percent operation = 100
          \<and> mo_Processed operation = mo_Total operation
          \<and> length (mo_Moved operation) + length (mo_Failed operation) = mo_Total operation)"


definition outcome_ok :: "nat \<Rightarrow> batch_move \<Rightarrow> service_error option \<Rightarrow> move_progress list \<Rightarrow> bool" where
  "outcome_ok n r err reports \<longleftrightarrow> list_all (report_ok n) reports \<and> length (bm_Moved r) + length (bm_Failed r) \<le> n
     \<and> (err = None \<longrightarrow> length (bm_Moved r) + length (bm_Failed r) = n)"

text \<open>A goroutine owns an unfinished operation and the entry of its route.\<close>
fun thread_ok :: "move_manager \<Rightarrow> move_thread \<Rightarrow> bool" where
  "thread_ok m (Launched i route sourcePaths _) \<longleftrightarrow>
     mm_activeByRoute m route = Some i
     \<and> (\<exists>operation. mm_operations m i = Some operation \<and> mo_FinishedAt operation = None \<and> mo_RouteID operation = route
          \<and> mo_Total operation = length sourcePaths)"
| "thread_ok m (Inside i route n reports r err) \<longleftrightarrow>
     mm_activeByRoute m route = Some i \<and> outcome_ok n r err reports
     \<and> (\<exists>operation. mm_operations m i = Some operation \<and> mo_FinishedAt operation = None \<and> mo_RouteID operation = route
          \<and> mo_Total operation = n)"

definition moves_inv :: "move_system \<Rightarrow> bool" where
  "moves_inv s \<longleftrightarrow>
     (\<forall>i operation. mm_operations (ms_manager s) i = Some operation \<longrightarrow> mo_ID operation = i \<and> i \<noteq> '''' \<and> operation_ok operation
        \<and> (mo_FinishedAt operation = None \<longrightarrow> i \<in> set (map thread_id (ms_threads s))))
     \<and> list_all (thread_ok (ms_manager s)) (ms_threads s)
     \<and> distinct (map thread_id (ms_threads s))
     \<and> (\<forall>route i. mm_activeByRoute (ms_manager s) route = Some i \<longrightarrow>
          i \<noteq> '''' \<and> (\<exists>t \<in> set (ms_threads s). thread_id t = i \<and> thread_route t = route))"


lemma distinct_keys_apart:
  "distinct (map key (xs @ y # ys)) \<Longrightarrow> x \<in> set (xs @ ys) \<Longrightarrow> key x \<noteq> key y"
  by (auto dest: sym)

lemma moves_invI:
  assumes "\<And>i operation. mm_operations m i = Some operation \<Longrightarrow> mo_ID operation = i \<and> i \<noteq> '''' \<and> operation_ok operation
        \<and> (mo_FinishedAt operation = None \<longrightarrow> i \<in> set (map thread_id ts))"
    and "\<And>t. t \<in> set ts \<Longrightarrow> thread_ok m t" "distinct (map thread_id ts)"
    and "\<And>route i. mm_activeByRoute m route = Some i \<Longrightarrow> i \<noteq> '''' \<and> (\<exists>t \<in> set ts. thread_id t = i \<and> thread_route t = route)"
  shows "moves_inv \<lparr>ms_manager = m, ms_threads = ts\<rparr>"
  using assms by (simp add: moves_inv_def list_all_iff)

lemma moves_invD:
  assumes "moves_inv \<lparr>ms_manager = m, ms_threads = ts\<rparr>"
  shows "mm_operations m i = Some operation \<Longrightarrow> mo_ID operation = i \<and> i \<noteq> '''' \<and> operation_ok operation
        \<and> (mo_FinishedAt operation = None \<longrightarrow> i \<in> set (map thread_id ts))"
    and "t \<in> set ts \<Longrightarrow> thread_ok m t" and "distinct (map thread_id ts)"
    and "mm_activeByRoute m route = Some i \<Longrightarrow> i \<noteq> '''' \<and> (\<exists>t \<in> set ts. thread_id t = i \<and> thread_route t = route)"
  using assms by (auto simp: moves_inv_def list_all_iff)

lemma remoteMovePercent_bounds: "0 \<le> remoteMovePercent p n \<and> remoteMovePercent p n \<le> 100"
  by (simp add: remoteMovePercent_def Let_def)

lemma newRemoteMoveOperationID_ne:
  "newRemoteMoveOperationID (Some buffer) = Some i \<Longrightarrow> length buffer = 16 \<Longrightarrow> i \<noteq> ''''"
  by (cases buffer) (auto simp: newRemoteMoveOperationID_def)

lemma cleanup_Some:
  "mm_operations (cleanupLocked now m) i = Some operation \<longleftrightarrow> mm_operations m i = Some operation
     \<and> (case mo_FinishedAt operation of None \<Rightarrow> True | Some finished \<Rightarrow> now - finished \<le> mm_retention m)"
  by (auto simp: cleanupLocked_def split: option.splits)

lemma cleanup_active [simp]: "mm_activeByRoute (cleanupLocked now m) = mm_activeByRoute m"
  by (simp add: cleanupLocked_def)

lemma update_operation_fields [simp]:
  "mm_activeByRoute (update_operation i u m) = mm_activeByRoute m"
  "mm_operations (update_operation i u m) = (mm_operations m)(i := map_option u (mm_operations m i))"
  by (simp_all add: update_operation_def)

lemma thread_ok_cong:
  assumes "thread_ok m t" "mm_operations m' (thread_id t) = mm_operations m (thread_id t)"
    and "mm_activeByRoute m' (thread_route t) = mm_activeByRoute m (thread_route t)"
  shows "thread_ok m' t"
  using assms by (cases t) simp_all

lemma thread_ok_owns:
  assumes "thread_ok m t"
  shows "mm_activeByRoute m (thread_route t) = Some (thread_id t)
    \<and> (\<exists>operation. mm_operations m (thread_id t) = Some operation \<and> mo_FinishedAt operation = None
         \<and> mo_RouteID operation = thread_route t)"
  using assms by (cases t) auto

lemma thread_ok_cleanup: "thread_ok m t \<Longrightarrow> thread_ok (cleanupLocked now m) t"
  by (cases t) (auto simp: cleanup_Some)

lemma moves_inv_cleanup:
  "moves_inv \<lparr>ms_manager = m, ms_threads = ts\<rparr> \<Longrightarrow> moves_inv \<lparr>ms_manager = cleanupLocked now m, ms_threads = ts\<rparr>"
  by (auto simp: moves_inv_def cleanup_Some list_all_iff thread_ok_cleanup)

text \<open>A goroutine writes its own operation and goes on.\<close>
lemma moves_inv_write:
  assumes inv: "moves_inv \<lparr>ms_manager = m, ms_threads = ts @ t # us\<rparr>"
    and "mm_operations m (thread_id t) = Some operation"
    and "mo_ID (u operation) = mo_ID operation" "operation_ok (u operation)"
    and t': "thread_id t' = thread_id t" "thread_route t' = thread_route t" "thread_ok (update_operation (thread_id t) u m) t'"
  shows "moves_inv \<lparr>ms_manager = update_operation (thread_id t) u m, ms_threads = ts @ t' # us\<rparr>"
proof (rule moves_invI)
  fix x assume x: "x \<in> set (ts @ t' # us)"
  show "thread_ok (update_operation (thread_id t) u m) x"
  proof (cases "x = t'")
    case True
    with t' show ?thesis by simp
  next
    case False
    with x have m: "x \<in> set (ts @ us)" by auto
    show ?thesis
    proof (rule thread_ok_cong)
      show "thread_ok m x" using moves_invD(2)[OF inv] m by auto
      have "thread_id x \<noteq> thread_id t" by (rule distinct_keys_apart[OF moves_invD(3)[OF inv] m])
      then show "mm_operations (update_operation (thread_id t) u m) (thread_id x) = mm_operations m (thread_id x)" by simp
    qed simp
  qed
next
  fix i op' assume "mm_operations (update_operation (thread_id t) u m) i = Some op'"
  with assms(2) have "op' = u operation \<and> i = thread_id t \<or> mm_operations m i = Some op' \<and> i \<noteq> thread_id t"
    by (auto split: if_splits)
  then show "mo_ID op' = i \<and> i \<noteq> '''' \<and> operation_ok op' \<and> (mo_FinishedAt op' = None \<longrightarrow> i \<in> set (map thread_id (ts @ t' # us)))"
  proof (elim disjE conjE)
    assume "op' = u operation" "i = thread_id t"
    with moves_invD(1)[OF inv assms(2)] assms(3,4) t'(1) show ?thesis by simp
  next
    assume "mm_operations m i = Some op'" "i \<noteq> thread_id t"
    with moves_invD(1)[OF inv this(1)] t'(1) show ?thesis by auto
  qed
next
  show "distinct (map thread_id (ts @ t' # us))" using moves_invD(3)[OF inv] t'(1) by simp
next
  fix route i assume "mm_activeByRoute (update_operation (thread_id t) u m) route = Some i"
  with moves_invD(4)[OF inv] have "i \<noteq> ''''" "\<exists>x \<in> set (ts @ t # us). thread_id x = i \<and> thread_route x = route"
    by simp_all
  with t' show "i \<noteq> '''' \<and> (\<exists>x \<in> set (ts @ t' # us). thread_id x = i \<and> thread_route x = route)" by auto
qed

text \<open>A goroutine writes its own operation for the last time and gives the route back.\<close>
lemma moves_inv_leave:
  assumes inv: "moves_inv \<lparr>ms_manager = m, ms_threads = ts @ t # us\<rparr>"
    and "mm_operations m (thread_id t) = Some operation"
    and "mo_ID (u operation) = mo_ID operation" "operation_ok (u operation)" "mo_FinishedAt (u operation) \<noteq> None"
    and m': "mm_operations m' = (mm_operations m)(thread_id t := Some (u operation))"
      "mm_activeByRoute m' = (mm_activeByRoute m)(thread_route t := None)"
  shows "moves_inv \<lparr>ms_manager = m', ms_threads = ts @ us\<rparr>"
proof -
  have owns: "mm_activeByRoute m (thread_route x) = Some (thread_id x)" if "x \<in> set (ts @ t # us)" for x
    using moves_invD(2)[OF inv that] thread_ok_owns by blast
  have other: "thread_id x \<noteq> thread_id t \<and> thread_route x \<noteq> thread_route t" if "x \<in> set (ts @ us)" for x
  proof -
    have "thread_id x \<noteq> thread_id t" by (rule distinct_keys_apart[OF moves_invD(3)[OF inv] that])
    with owns[of x] owns[of t] that show ?thesis by auto
  qed
  show ?thesis
  proof (rule moves_invI)
    fix x assume x: "x \<in> set (ts @ us)"
    show "thread_ok m' x"
    proof (rule thread_ok_cong)
      show "thread_ok m x" using moves_invD(2)[OF inv] x by auto
    qed (use other[OF x] m' in simp_all)
  next
    fix i op' assume "mm_operations m' i = Some op'"
    with m' have "op' = u operation \<and> i = thread_id t \<or> mm_operations m i = Some op' \<and> i \<noteq> thread_id t"
      by (auto split: if_splits)
    then show "mo_ID op' = i \<and> i \<noteq> '''' \<and> operation_ok op' \<and> (mo_FinishedAt op' = None \<longrightarrow> i \<in> set (map thread_id (ts @ us)))"
    proof (elim disjE conjE)
      assume "op' = u operation" "i = thread_id t"
      with moves_invD(1)[OF inv assms(2)] assms(3,4,5) show ?thesis by auto
    next
      assume "mm_operations m i = Some op'" "i \<noteq> thread_id t"
      with moves_invD(1)[OF inv this(1)] show ?thesis by auto
    qed
  next
    show "distinct (map thread_id (ts @ us))" using moves_invD(3)[OF inv] by simp
  next
    fix route i assume "mm_activeByRoute m' route = Some i"
    with m' have r: "route \<noteq> thread_route t" "mm_activeByRoute m route = Some i" by (auto split: if_splits)
    with moves_invD(4)[OF inv r(2)] show "i \<noteq> '''' \<and> (\<exists>x \<in> set (ts @ us). thread_id x = i \<and> thread_route x = route)" by auto
  qed
qed


lemma Start_moves_inv:
  assumes "Start_move now (Some buffer) routeID sourcePaths m = (m', Inr operation)" "length buffer = 16"
    and "mo_ID operation \<notin> dom (mm_operations m)" "moves_inv \<lparr>ms_manager = m, ms_threads = ts\<rparr>"
  shows "moves_inv \<lparr>ms_manager = m', ms_threads = ts @ [Launched (mo_ID operation) routeID sourcePaths target]\<rparr>"
proof -
  let ?m1 = "cleanupLocked now m"
  let ?t = "Launched (mo_ID operation) routeID sourcePaths target"
  obtain i where i: "newRemoteMoveOperationID (Some buffer) = Some i" "i \<noteq> ''''"
    using newRemoteMoveOperationID_ne[OF _ assms(2)] by (auto simp: newRemoteMoveOperationID_def)
  from assms(1) i have n: "length sourcePaths \<le> maxRemoteMoveOperationBatch"
    "operation = queued_operation now i routeID (length sourcePaths)"
    "mm_operations m' = (mm_operations ?m1)(i \<mapsto> operation)" "mm_activeByRoute m' = (mm_activeByRoute m)(routeID \<mapsto> i)"
    and free: "(case mm_activeByRoute m routeID of None \<Rightarrow> '''' | Some a \<Rightarrow> a) = ''''"
    by (auto simp: Start_move_def Let_def split: if_splits)
  have id: "mo_ID operation = i" using n(2) by (simp add: queued_operation_def)
  note inv = moves_inv_cleanup[OF assms(4), of now]
  have none: "mm_activeByRoute m routeID = None"
    using free moves_invD(4)[OF assms(4), of routeID] by (cases "mm_activeByRoute m routeID") auto
  have new: "i \<noteq> thread_id x \<and> routeID \<noteq> thread_route x" if "x \<in> set ts" for x
    using thread_ok_owns[OF moves_invD(2)[OF assms(4) that]] assms(3) none id by auto
  show ?thesis
  proof (rule moves_invI)
    fix x assume "x \<in> set (ts @ [?t])"
    then show "thread_ok m' x"
    proof (cases "x = ?t")
      case True
      with n id show ?thesis by (auto simp: queued_operation_def)
    next
      case False
      with \<open>x \<in> set (ts @ [?t])\<close> have x: "x \<in> set ts" by simp
      show ?thesis by (rule thread_ok_cong[OF moves_invD(2)[OF inv x]]) (use new[OF x] n in auto)
    qed
  next
    fix j op' assume "mm_operations m' j = Some op'"
    with n(3) have "j = i \<and> op' = operation \<or> mm_operations ?m1 j = Some op'" by (auto split: if_splits)
    then show "mo_ID op' = j \<and> j \<noteq> '''' \<and> operation_ok op' \<and> (mo_FinishedAt op' = None \<longrightarrow> j \<in> set (map thread_id (ts @ [?t])))"
    proof
      assume "j = i \<and> op' = operation"
      with n id i(2) show ?thesis by (simp add: operation_ok_def queued_operation_def)
    next
      assume "mm_operations ?m1 j = Some op'"
      from moves_invD(1)[OF inv this] show ?thesis by auto
    qed
  next
    show "distinct (map thread_id (ts @ [?t]))" using moves_invD(3)[OF inv] new id by auto
  next
    fix route j assume "mm_activeByRoute m' route = Some j"
    with n(4) have "route = routeID \<and> j = i \<or> mm_activeByRoute ?m1 route = Some j" by (auto split: if_splits)
    with moves_invD(4)[OF inv, of route j] id i(2)
    show "j \<noteq> '''' \<and> (\<exists>x \<in> set (ts @ [?t]). thread_id x = j \<and> thread_route x = route)" by auto
  qed
qed

lemma Start_refused: "Start_move now entropy routeID sourcePaths m = (m', Inl e) \<Longrightarrow> m' = m \<or> m' = cleanupLocked now m"
  by (auto simp: Start_move_def Let_def split: if_splits option.splits)

lemma Get_move_cleans: "Get_move now routeID operationID m = (m', r) \<Longrightarrow> m' = cleanupLocked now m"
  by (auto simp: Get_move_def Let_def split: if_splits option.splits)

subsection \<open>The contract of the runner\<close>

locale move_runner =
  fixes runner :: runner
  assumes accounts: "runner routeID sourcePaths target r err reports \<Longrightarrow> outcome_ok (length sourcePaths) r err reports"
    and returns: "\<exists>r err reports. runner routeID sourcePaths target r err reports"
begin

lemma step_inv:
  assumes "move_step runner deadline s s'" "moves_inv s"
  shows "moves_inv s'"
  using assms
proof cases
  case (accept now buffer routeID sourcePaths m m' operation ts target)
  with Start_moves_inv assms(2) show ?thesis by simp
next
  case (refuse now entropy routeID sourcePaths m m' e ts)
  with Start_refused[OF refuse(3)] assms(2) moves_inv_cleanup show ?thesis by auto
next
  case (poll now routeID operationID m m' res ts)
  with Get_move_cleans[OF poll(3)] assms(2) moves_inv_cleanup show ?thesis by auto
next
  case (commence routeID sourcePaths target r err reports m ts i us now)
  let ?t = "Launched i routeID sourcePaths target"
  have inv: "moves_inv \<lparr>ms_manager = m, ms_threads = ts @ ?t # us\<rparr>" using assms(2) commence(1) by simp
  from moves_invD(2)[OF inv, of ?t] obtain operation where op: "mm_operations m i = Some operation"
    "mo_FinishedAt operation = None" "mo_RouteID operation = routeID" "mo_Total operation = length sourcePaths"
    "mm_activeByRoute m routeID = Some i" by auto
  have "operation_ok operation" using moves_invD(1)[OF inv op(1)] by simp
  then have "moves_inv \<lparr>ms_manager = update_operation (thread_id ?t) (\<lambda>operation. operation\<lparr>mo_Status := remoteMoveStatusRunning,
      mo_Phase := ''preparing'', mo_StartedAt := Some now\<rparr>) m, ms_threads = ts @ Inside i routeID (length sourcePaths) reports r err # us\<rparr>"
    using op accounts[OF commence(3)] by (intro moves_inv_write[OF inv, of operation]) (auto simp: operation_ok_def)
  then show ?thesis using commence(2) by (simp add: run_begin_def)
next
  case (progress m ts i routeID n p ps r err us)
  let ?t = "Inside i routeID n (p # ps) r err"
  have inv: "moves_inv \<lparr>ms_manager = m, ms_threads = ts @ ?t # us\<rparr>" using assms(2) progress(1) by simp
  from moves_invD(2)[OF inv, of ?t] obtain operation where op: "mm_operations m i = Some operation"
    "mo_FinishedAt operation = None" "mo_RouteID operation = routeID" "mo_Total operation = n"
    "mm_activeByRoute m routeID = Some i" "outcome_ok n r err (p # ps)" by auto
  have ok: "operation_ok operation" using moves_invD(1)[OF inv op(1)] by simp
  have "moves_inv \<lparr>ms_manager = update_operation (thread_id ?t) (\<lambda>operation. operation\<lparr>mo_Phase := mp_Phase p, mo_Total := mp_Total p,
       mo_Processed := mp_Processed p, mo_CurrentPath := mp_CurrentPath p,
       mo_Moved := bm_Moved (mp_Result p), mo_Failed := bm_Failed (mp_Result p),
       mo_RefreshScheduled := bm_RefreshScheduled (mp_Result p),
       mo_Percent := remoteMovePercent (int (mp_Processed p)) (int (mp_Total p))\<rparr>) m, ms_threads = ts @ Inside i routeID n ps r err # us\<rparr>"
    by (rule moves_inv_write[OF inv, of operation])
      (use op ok remoteMovePercent_bounds in \<open>auto simp: operation_ok_def outcome_ok_def report_ok_def\<close>)
  then show ?thesis using progress(2) by (simp add: updateProgress_def)
next
  case (finish m ts i routeID n r err us now)
  let ?t = "Inside i routeID n [] r err"
  have inv: "moves_inv \<lparr>ms_manager = m, ms_threads = ts @ ?t # us\<rparr>" using assms(2) finish(1) by simp
  from moves_invD(2)[OF inv, of ?t] obtain operation where op: "mm_operations m i = Some operation"
    "mo_FinishedAt operation = None" "mo_Total operation = n"
    "mm_activeByRoute m routeID = Some i" "outcome_ok n r err []" by auto
  have ok: "operation_ok operation" using moves_invD(1)[OF inv op(1)] by simp
  have "moves_inv \<lparr>ms_manager = run_finish deadline now i routeID r err m, ms_threads = ts @ us\<rparr>"
    by (rule moves_inv_leave[OF inv, of operation "finished_operation deadline now r err"])
      (use op ok in \<open>auto simp: operation_ok_def outcome_ok_def finished_operation_def run_finish_def Let_def split: option.splits\<close>)
  then show ?thesis using finish(2) by simp
qed

lemma reachable_inv: "(move_step runner deadline)\<^sup>*\<^sup>* move_start s \<Longrightarrow> moves_inv s"
proof (induction rule: rtranclp_induct)
  case base
  show ?case by (simp add: moves_inv_def move_start_def newRemoteMoveOperationManager_def)
next
  case (step s s')
  then show ?case using step_inv by blast
qed

lemma unfinished_active:
  assumes "(move_step runner deadline)\<^sup>*\<^sup>* move_start s"
    and "mm_operations (ms_manager s) i = Some operation" "mo_FinishedAt operation = None"
  shows "mm_activeByRoute (ms_manager s) (mo_RouteID operation) = Some i"
proof -
  obtain m ts where s: "s = \<lparr>ms_manager = m, ms_threads = ts\<rparr>" by (cases s) auto
  note inv = reachable_inv[OF assms(1), unfolded s]
  from moves_invD(1)[OF inv, of i operation] assms(2,3) s obtain t where "t \<in> set ts" "thread_id t = i" by auto
  with thread_ok_owns[OF moves_invD(2)[OF inv this(1)]] assms(2) s show ?thesis by auto
qed

lemma active_refuses:
  assumes "(move_step runner deadline)\<^sup>*\<^sup>* move_start s" "mm_activeByRoute (ms_manager s) route = Some i"
    and "paths \<noteq> []" "length paths \<le> maxRemoteMoveOperationBatch"
  shows "Start_move now (Some buffer) route paths (ms_manager s)
    = (cleanupLocked now (ms_manager s), Inl (Refused (Conflict ''this remote route already has a file move operation running'')))"
proof -
  obtain m ts where s: "s = \<lparr>ms_manager = m, ms_threads = ts\<rparr>" by (cases s) auto
  have "i \<noteq> ''''" using moves_invD(4)[OF reachable_inv[OF assms(1), unfolded s]] assms(2) s by simp
  with assms(2-4) show ?thesis by (simp add: Start_move_def newRemoteMoveOperationID_def Let_def)
qed

text \<open>A goroutine inside the runner gets through its reports and leaves.\<close>
lemma inside_ends:
  assumes "moves_inv \<lparr>ms_manager = m, ms_threads = ts @ Inside i route n reports r err # us\<rparr>"
  shows "\<exists>m' operation. (move_step runner deadline)\<^sup>*\<^sup>* \<lparr>ms_manager = m, ms_threads = ts @ Inside i route n reports r err # us\<rparr>
             \<lparr>ms_manager = m', ms_threads = ts @ us\<rparr>
     \<and> mm_activeByRoute m' route = None \<and> mm_operations m' i = Some operation \<and> mo_FinishedAt operation \<noteq> None"
  using assms
proof (induction reports arbitrary: m)
  case Nil
  let ?m' = "run_finish deadline 0 i route r err m"
  have step: "move_step runner deadline \<lparr>ms_manager = m, ms_threads = ts @ Inside i route n [] r err # us\<rparr>
      \<lparr>ms_manager = ?m', ms_threads = ts @ us\<rparr>" by (rule finish)
  from moves_invD(2)[OF Nil, of "Inside i route n [] r err"] obtain operation where
    "mm_operations m i = Some operation" "mm_activeByRoute m route = Some i" by auto
  then have "mm_activeByRoute ?m' route = None"
    "mm_operations ?m' i = Some (finished_operation deadline 0 r err operation)"
    by (simp_all add: run_finish_def Let_def)
  moreover have "mo_FinishedAt (finished_operation deadline 0 r err operation) \<noteq> None"
    by (simp add: finished_operation_def Let_def split: option.split)
  ultimately show ?case using r_into_rtranclp[of "move_step runner deadline", OF step] by blast
next
  case (Cons p ps)
  have step: "move_step runner deadline \<lparr>ms_manager = m, ms_threads = ts @ Inside i route n (p # ps) r err # us\<rparr>
      \<lparr>ms_manager = updateProgress i p m, ms_threads = ts @ Inside i route n ps r err # us\<rparr>" by (rule progress)
  from Cons.IH[OF step_inv[OF step Cons.prems]] show ?case
    by (blast intro: converse_rtranclp_into_rtranclp[of "move_step runner deadline", OF step])
qed

lemma thread_ends:
  assumes "moves_inv \<lparr>ms_manager = m, ms_threads = ts @ t # us\<rparr>"
  shows "\<exists>m' operation. (move_step runner deadline)\<^sup>*\<^sup>* \<lparr>ms_manager = m, ms_threads = ts @ t # us\<rparr>
             \<lparr>ms_manager = m', ms_threads = ts @ us\<rparr>
     \<and> mm_activeByRoute m' (thread_route t) = None \<and> mm_operations m' (thread_id t) = Some operation
     \<and> mo_FinishedAt operation \<noteq> None"
proof (cases t)
  case (Launched i route paths target)
  from returns obtain r err reports where r: "runner route paths target r err reports" by blast
  have step: "move_step runner deadline \<lparr>ms_manager = m, ms_threads = ts @ t # us\<rparr>
      \<lparr>ms_manager = run_begin 0 i m, ms_threads = ts @ Inside i route (length paths) reports r err # us\<rparr>"
    unfolding Launched by (rule commence[of runner, OF r])
  from inside_ends[OF step_inv[OF step assms], of deadline] show ?thesis
    unfolding thread_id.simps thread_route.simps Launched
    by (blast intro: converse_rtranclp_into_rtranclp[of "move_step runner deadline", OF step[unfolded Launched]])
next
  case (Inside i route n reports r err)
  with inside_ends[of m ts i route n reports r err us deadline] assms show ?thesis by simp
qed

lemma active_ends:
  assumes "(move_step runner deadline)\<^sup>*\<^sup>* move_start s" "mm_activeByRoute (ms_manager s) route = Some i"
  shows "\<exists>s' operation. (move_step runner deadline)\<^sup>*\<^sup>* s s' \<and> mm_activeByRoute (ms_manager s') route = None
    \<and> mm_operations (ms_manager s') i = Some operation \<and> mo_FinishedAt operation \<noteq> None"
proof -
  obtain m ts where s: "s = \<lparr>ms_manager = m, ms_threads = ts\<rparr>" by (cases s) auto
  note inv = reachable_inv[OF assms(1), unfolded s]
  from moves_invD(4)[OF inv, of route i] assms(2) s obtain t where t: "t \<in> set ts" "thread_id t = i" "thread_route t = route"
    by auto
  then obtain xs ys where ts: "ts = xs @ t # ys" by (meson split_list)
  from thread_ends[OF inv[unfolded ts], of deadline] obtain m' operation where
    "(move_step runner deadline)\<^sup>*\<^sup>* s \<lparr>ms_manager = m', ms_threads = xs @ ys\<rparr>"
    "mm_activeByRoute m' route = None \<and> mm_operations m' i = Some operation \<and> mo_FinishedAt operation \<noteq> None"
    unfolding s ts t by blast
  then show ?thesis by (intro exI[of _ "\<lparr>ms_manager = m', ms_threads = xs @ ys\<rparr>"] exI[of _ operation]) simp
qed

end

text \<open>The route service as a runner: whatever it does in some state of the database and of the remote.\<close>
definition service_runner :: "'r route_service \<Rightarrow> runner" where
  "service_runner sv route paths target r err reports \<longleftrightarrow>
     (\<exists>w w'. MoveFilesWithProgress sv route paths target w = (w', r, err, reports))"

interpretation mr: move_runner "service_runner sv" for sv :: "'r route_service"
proof
  fix routeID paths target r err reports
  assume "service_runner sv routeID paths target r err reports"
  then obtain w w' where "MoveFilesWithProgress sv routeID paths target w = (w', r, err, reports)"
    unfolding service_runner_def by blast
  note out = batch_outcome[OF this]
  have "length (bm_Moved r) + length (bm_Failed r) = length paths" if "err = None"
  proof -
    from out that obtain ps where "list_all2 (\<lambda>raw p. normalizeRemoteMutationPath raw False = Inr p) paths ps"
      "mset (map mr_SourcePath (bm_Moved r) @ map mf_SourcePath (bm_Failed r)) = mset ps" by auto
    from list_all2_lengthD[OF this(1)] arg_cong[OF this(2), of size] show ?thesis by simp
  qed
  with out show "outcome_ok (length paths) r err reports"
    by (cases err) (auto simp: outcome_ok_def)
next
  fix routeID paths target
  show "\<exists>r err reports. service_runner sv routeID paths target r err reports"
    unfolding service_runner_def by (metis prod_cases4)
qed


subsection \<open>Properties\<close>

text \<open>
  C19: However requests and background moves interleave, a polled operation is consistent: its percentage
  stays within 0 and 100, it never counts more files than it was given, it is finished exactly when it
  is completed or failed, and a completed one accounts for every file and shows 100 percent.
\<close>
theorem move_operations_account:
  assumes "(move_step (service_runner sv) deadline)\<^sup>*\<^sup>* move_start s"
    and "mm_operations (ms_manager s) i = Some operation"
  shows "mo_ID operation = i \<and> 0 \<le> mo_Percent operation \<and> mo_Percent operation \<le> 100
    \<and> mo_Processed operation \<le> mo_Total operation \<and> mo_Total operation \<le> 100
    \<and> (mo_FinishedAt operation = None \<longleftrightarrow> mo_Status operation \<in> {remoteMoveStatusQueued, remoteMoveStatusRunning})
    \<and> (mo_Status operation = remoteMoveStatusCompleted \<longrightarrow> mo_Percent operation = 100
         \<and> length (mo_Moved operation) + length (mo_Failed operation) = mo_Total operation)"
  using mr.reachable_inv[OF assms(1)] assms(2)
  by (simp add: moves_inv_def operation_ok_def maxRemoteMoveOperationBatch_def)

text \<open>
  C18: A route has one unfinished move at a time: two unfinished operations of one route are the same
  operation, and as long as it is not finished another batch for the route is refused.
\<close>
theorem one_move_per_route:
  assumes "(move_step (service_runner sv) deadline)\<^sup>*\<^sup>* move_start s"
    and "mm_operations (ms_manager s) i = Some a" "mo_FinishedAt a = None"
    and "mm_operations (ms_manager s) j = Some b" "mo_FinishedAt b = None" "mo_RouteID b = mo_RouteID a"
    and "paths \<noteq> []" "length paths \<le> 100"
  shows "i = j \<and> snd (Start_move now (Some buffer) (mo_RouteID a) paths (ms_manager s))
      = Inl (Refused (Conflict ''this remote route already has a file move operation running''))"
  using mr.unfinished_active[OF assms(1-3)] mr.unfinished_active[OF assms(1,4,5)] assms(6-8)
    mr.active_refuses[OF assms(1), of "mo_RouteID a" i paths now buffer]
  by (simp add: maxRemoteMoveOperationBatch_def)


subsection \<open>Witnesses\<close>

text \<open>The state after one accepted request for route 4.\<close>
definition sample_move :: move_operation where
  "sample_move = queued_operation 0 (replicate 32 (CHR ''0'')) 4 1"

definition moving_system :: move_system where
  "moving_system = \<lparr>ms_manager = fst (Start_move 0 (Some (replicate 16 0)) 4 [''d/f''] newRemoteMoveOperationManager),
     ms_threads = [Launched (replicate 32 (CHR ''0'')) 4 [''d/f''] '''']\<rparr>"

lemma sample_id: "newRemoteMoveOperationID (Some (replicate 16 0)) = Some (replicate 32 (CHR ''0''))"
proof -
  have "hex_digit 0 = CHR ''0''" by (simp add: hex_digit_def)
  then have "concat (map (\<lambda>n. [hex_digit (n div 16), hex_digit n]) (replicate k 0)) = replicate (2 * k) (CHR ''0'')" for k
    by (induction k) simp_all
  from this[of 16] show ?thesis by (simp add: newRemoteMoveOperationID_def)
qed

lemma sample_start:
  "Start_move 0 (Some (replicate 16 0)) 4 [''d/f''] newRemoteMoveOperationManager
     = (ms_manager moving_system, Inr sample_move)"
  by (simp add: Start_move_def sample_id newRemoteMoveOperationManager_def cleanupLocked_def
      maxRemoteMoveOperationBatch_def moving_system_def sample_move_def Let_def)

lemma moving_system_reached: "(move_step (service_runner sv) deadline)\<^sup>*\<^sup>* move_start moving_system"
proof -
  have "move_step (service_runner sv) deadline \<lparr>ms_manager = newRemoteMoveOperationManager, ms_threads = []\<rparr>
      \<lparr>ms_manager = ms_manager moving_system, ms_threads = [] @ [Launched (mo_ID sample_move) 4 [''d/f''] '''']\<rparr>"
    by (rule accept[OF sample_start]) (simp_all add: newRemoteMoveOperationManager_def)
  then show ?thesis by (simp add: move_start_def moving_system_def sample_move_def queued_operation_def)
qed


lemma moving_system_operation:
  "mm_operations (ms_manager moving_system) (replicate 32 (CHR ''0'')) = Some sample_move"
  "mo_FinishedAt sample_move = None" "mo_RouteID sample_move = 4" "mo_Total sample_move = 1"
  using sample_start
  by (simp_all add: Start_move_def sample_id newRemoteMoveOperationManager_def maxRemoteMoveOperationBatch_def Let_def
      cleanupLocked_def sample_move_def queued_operation_def moving_system_def)

theorem move_operations_account_witness:
  "mo_Percent sample_move \<le> 100 \<and> mo_Processed sample_move \<le> mo_Total sample_move \<and> mo_Total sample_move = 1"
  using move_operations_account[OF moving_system_reached[of sample_service "\<lambda>_. False"] moving_system_operation(1)]
    moving_system_operation(4) by simp

theorem one_move_per_route_witness:
  "snd (Start_move 5 (Some [1]) 4 [''d/g''] (ms_manager moving_system))
     = Inl (Refused (Conflict ''this remote route already has a file move operation running''))"
  using one_move_per_route[OF moving_system_reached[of sample_service "\<lambda>_. False"] moving_system_operation(1,2)
      moving_system_operation(1,2) refl, of "[''d/g'']" 5 "[1]"] moving_system_operation(3) by simp


end
