(* ===== verification/UploadService.thy ===== *)
theory UploadService
  imports Queue WatchScanner RouteService
begin

section \<open>The upload service\<close>

text \<open>
  \<open>internal/service/upload_service.go\<close>: what users do to tasks.  A request works on the database
  and on the queue of the process (its wake-up channel and the running attempts it can interrupt).
  The properties say that no sequence of requests takes a task away from the worker that runs it,
  that creating an upload that already has a task, by hand or by a scan, adds none, and what a batch
  deletion deletes.
\<close>

subsection \<open>The service and its surroundings\<close>

text \<open>
  \<open>us_stat\<close> is \<open>os.Stat\<close> (regular, size, modification time); \<open>us_race\<close> are the snapshots other
  requests insert between the lookup of a file and its own insertion.
\<close>
(* src/internal/service/upload_service.go 37-44 uploadService *)
record upload_service =
  us_policy :: "resource_policy option"
  us_os :: os
  us_stat :: "string \<Rightarrow> (bool \<times> int \<times> time) option"
  us_sha :: "string \<Rightarrow> string"
  us_flt :: "nat \<Rightarrow> fault"
  us_clock :: "nat \<Rightarrow> time"
  us_now :: time
  us_done :: bool
  us_race :: "file_record list"

type_synonym upload_world = "db \<times> queue"

(* src/internal/service/upload_service.go 65-70 taskLookupError *)
fun taskLookupError :: "repo_error \<Rightarrow> service_error" where
  "taskLookupError ErrNotFound = NotFound ''task not found''"
| "taskLookupError e = RepoFailure e"

(* src/internal/service/upload_service.go 57-63 uploadService.GetTask *)
definition GetTask :: "upload_service \<Rightarrow> nat \<Rightarrow> nat \<Rightarrow> db \<Rightarrow> (service_error, upload_task) result" where
  "GetTask sv k taskID s = map_err taskLookupError (GetByID_task (us_flt sv k) taskID s)"

text \<open>The error of the queue is that of the context.\<close>
definition queue_result :: "db \<Rightarrow> queue \<times> bool \<Rightarrow> upload_world \<times> (service_error, unit) result" where
  "queue_result s r = ((s, fst r), if snd r then Inr () else Inl ContextDone)"

subsection \<open>Requests for one task\<close>

(* src/internal/service/upload_service.go 99-120 uploadService.SubmitTask *)
definition SubmitTask :: "upload_service \<Rightarrow> nat \<Rightarrow> upload_world \<Rightarrow> upload_world \<times> (service_error, unit) result" where
  "SubmitTask sv taskID w =
     (case w of (s, q) \<Rightarrow>
        (case GetTask sv 0 taskID s of
           Inl e \<Rightarrow> (w, Inl e)
         | Inr t \<Rightarrow>
             (case task_Status t of
                TaskStatusPending \<Rightarrow> queue_result s (Submit (us_done sv) q)
              | TaskStatusRunning \<Rightarrow> (w, Inl (Conflict ''running task cannot be retried''))
              | TaskStatusSuccess \<Rightarrow> (w, Inl (Conflict ''successful task cannot be retried''))
              | _ \<Rightarrow>
                  (case ResetForRetry (us_flt sv 1) (us_clock sv 1) taskID (us_now sv) s of
                     (s', Inl e) \<Rightarrow> ((s', q), Inl (RepoFailure e))
                   | (s', Inr False) \<Rightarrow> ((s', q), Inl (Conflict ''task cannot be retried in its current state''))
                   | (s', Inr True) \<Rightarrow> queue_result s' (Submit (us_done sv) q)))))"

(* src/internal/service/upload_service.go 285-301 uploadService.PauseTask *)
definition PauseTask :: "upload_service \<Rightarrow> nat \<Rightarrow> upload_world \<Rightarrow> upload_world \<times> (service_error, unit) result" where
  "PauseTask sv taskID w =
     (case w of (s, q) \<Rightarrow>
        (case GetTask sv 0 taskID s of
           Inl e \<Rightarrow> (w, Inl e)
         | Inr t \<Rightarrow>
             if task_Status t = TaskStatusRunning
             then (w, Inl (Conflict ''running task cannot be paused; cancel it instead''))
             else (case PauseIfNotRunning (us_flt sv 1) (us_clock sv 1) taskID (us_now sv) s of
                     (s', Inl e) \<Rightarrow> ((s', q), Inl (RepoFailure e))
                   | (s', Inr False) \<Rightarrow> ((s', q), Inl (Conflict ''task cannot be paused in its current state''))
                   | (s', Inr True) \<Rightarrow> ((s', q), Inr ()))))"

(* src/internal/service/upload_service.go 303-322 uploadService.CancelTask *)
definition CancelTask :: "upload_service \<Rightarrow> nat \<Rightarrow> upload_world \<Rightarrow> upload_world \<times> (service_error, unit) result" where
  "CancelTask sv taskID w =
     (case w of (s, q) \<Rightarrow>
        (case GetTask sv 0 taskID s of
           Inl e \<Rightarrow> (w, Inl e)
         | Inr t \<Rightarrow>
             if task_Status t = TaskStatusSuccess then (w, Inl (Conflict ''successful task cannot be canceled''))
             else (case RequestCancel (us_flt sv 1) (us_clock sv 1) taskID (us_now sv) s of
                     (s', Inl e) \<Rightarrow> ((s', q), Inl (RepoFailure e))
                   | (s', Inr st) \<Rightarrow>
                       if st = TaskStatusCanceled then ((s', q), Inr ())
                       else if st = TaskStatusSuccess then ((s', q), Inl (Conflict ''successful task cannot be canceled''))
                       else queue_result s' (Cancel (us_done sv) taskID q))))"

(* src/internal/service/upload_service.go 275-283 taskDeleteError *)
fun taskDeleteError :: "repo_error \<Rightarrow> service_error" where
  "taskDeleteError ErrNotFound = NotFound ''task not found''"
| "taskDeleteError ErrConflict = Conflict ''running task must be canceled before deletion''"
| "taskDeleteError e = RepoFailure e"

(* src/internal/service/upload_service.go 271-273 uploadService.DeleteTask *)
definition DeleteTask :: "upload_service \<Rightarrow> nat \<Rightarrow> upload_world \<Rightarrow> upload_world \<times> (service_error, unit) result" where
  "DeleteTask sv taskID w =
     (case w of (s, q) \<Rightarrow>
        (case Delete_task (us_flt sv 0) taskID s of (s', r) \<Rightarrow> ((s', q), map_err taskDeleteError r)))"

subsection \<open>Reads\<close>

definition all_statuses :: "task_status list" where
  "all_statuses = [TaskStatusPending, TaskStatusRunning, TaskStatusSuccess, TaskStatusFailed, TaskStatusPaused,
     TaskStatusCanceled]"

text \<open>Every status has an entry; a status without tasks counts zero.\<close>
(* src/internal/service/upload_service.go 80-97 uploadService.GetStats *)
definition GetStats :: "upload_service \<Rightarrow> db \<Rightarrow> (repo_error, task_status \<rightharpoonup> nat) result" where
  "GetStats sv s =
     bind_res (CountByStatuses (us_flt sv 0) s) (\<lambda>counts.
       Inr (map_of (map (\<lambda>status. (status, case counts status of None \<Rightarrow> 0 | Some n \<Rightarrow> n)) all_statuses)))"

(* src/internal/service/upload_service.go 122-133 uploadService.GetTaskLogs *)
definition GetTaskLogs :: "upload_service \<Rightarrow> nat \<Rightarrow> int \<Rightarrow> db \<Rightarrow> (service_error, upload_log list) result" where
  "GetTaskLogs sv taskID limit s =
     bind_res (GetTask sv 0 taskID s) (\<lambda>_.
       let limit1 = (if limit \<le> 0 then 500 else limit);
           limit2 = (if limit1 > 1000 then 1000 else limit1)
       in map_err RepoFailure (ListByTaskID (us_flt sv 1) taskID limit2 s))"

(* src/internal/service/upload_service.go 135-158 uploadService.ListTasks *)
definition ListTasks ::
    "(string \<Rightarrow> string \<Rightarrow> bool) \<Rightarrow> upload_service \<Rightarrow> task_status option \<Rightarrow> string \<Rightarrow> int \<Rightarrow> int \<Rightarrow> db
      \<Rightarrow> (repo_error, upload_task list \<times> nat) result" where
  "ListTasks like sv status keyword page0 size0 s =
     (let pageSize = (if size0 \<le> 0 then 20 else if size0 > 200 then 200 else size0);
          page = (if page0 \<le> 0 then 1 else if page0 > 10000 then 10000 else page0)
      in bind_res (List_tasks like (us_flt sv 0) status keyword (nat ((page - 1) * pageSize)) (nat pageSize) s) (\<lambda>list.
         bind_res (CountForList like (us_flt sv 1) status keyword s) (\<lambda>n. Inr (list, n))))"

subsection \<open>Creation\<close>

(* src/internal/service/upload_service.go 160-168 CreateTaskInput *)
record create_task_input =
  cti_WatchFolderID :: nat
  cti_WatchFolderName :: string
  cti_FileName :: string
  cti_LocalPath :: string
  cti_RemoteName :: string
  cti_RemotePath :: string
  cti_FileSize :: int

(* src/internal/service/upload_service.go 376-379 uploadMetadataFingerprint *)
definition uploadMetadataFingerprint :: "(string \<Rightarrow> string) \<Rightarrow> int \<Rightarrow> time \<Rightarrow> string" where
  "uploadMetadataFingerprint sha sz modTime = sha (show_int sz @ byte0 # show_int modTime)"

(* src/internal/service/upload_service.go 381-385 uploadTaskIdempotencyKey *)
definition uploadTaskIdempotencyKey :: "(string \<Rightarrow> string) \<Rightarrow> nat \<Rightarrow> string \<Rightarrow> string \<Rightarrow> string \<Rightarrow> string \<Rightarrow> string" where
  "uploadTaskIdempotencyKey sha watchFolderID localPath fingerprint remoteName remotePath =
     sha (show_nat watchFolderID @ byte0 # path_Clean localPath @ byte0 # fingerprint
          @ byte0 # remoteName @ byte0 # remotePath)"

text \<open>The validated paths, the size and the modification time of the file.\<close>
(* src/internal/service/upload_service.go 170-191 uploadService.CreateTask *)
definition checked_upload ::
    "upload_service \<Rightarrow> create_task_input \<Rightarrow> (service_error, string \<times> string \<times> int \<times> time) result" where
  "checked_upload sv inp =
     (if cti_LocalPath inp = '''' \<or> cti_RemoteName inp = '''' \<or> cti_RemotePath inp = ''''
      then Inl (Validation ''local_path, remote_name and remote_path are required'')
      else if length (cti_FileName inp) > 512 then Inl (Validation ''file_name must not exceed 512 characters'')
      else bind_res (map_err (\<lambda>_. Validation ''local path is invalid, inaccessible, or outside the allowlist'')
                       (ValidateLocalFile (us_os sv) (us_policy sv) (cti_LocalPath inp))) (\<lambda>localPath.
           bind_res (map_err (\<lambda>_. Validation ''remote destination is invalid or outside the allowlist'')
                       (ValidateRemote (us_policy sv) (cti_RemoteName inp) (cti_RemotePath inp))) (\<lambda>remotePath.
             case us_stat sv localPath of
               None \<Rightarrow> Inl (Validation ''local file is not accessible'')
             | Some (regular, sz, modTime) \<Rightarrow>
                 if \<not> regular then Inl (Validation ''local_path must be a regular file'')
                 else Inr (localPath, remotePath, sz, modTime))))"

text \<open>The fields both kinds of snapshot are given.\<close>
definition observed_snapshot ::
    "upload_service \<Rightarrow> create_task_input \<Rightarrow> string \<Rightarrow> string \<Rightarrow> int \<Rightarrow> time \<Rightarrow> string \<Rightarrow> file_record \<Rightarrow> file_record" where
  "observed_snapshot sv inp localPath remotePath sz modTime fingerprint f =
     f\<lparr>fr_WatchFolderID := cti_WatchFolderID inp, fr_RelativePath := path_Base localPath,
       fr_RemoteName := cti_RemoteName inp, fr_RemotePath := remotePath, fr_FileSize := sz,
       fr_FileModTime := modTime, fr_Fingerprint := fingerprint, fr_LastSeenAt := Some (us_now sv)\<rparr>"

(* src/internal/service/upload_service.go 194-239 uploadService.CreateTask *)
definition snapshot_upload ::
    "upload_service \<Rightarrow> create_task_input \<Rightarrow> string \<Rightarrow> string \<Rightarrow> int \<Rightarrow> time \<Rightarrow> string \<Rightarrow> db
      \<Rightarrow> db \<times> (service_error, file_record) result" where
  "snapshot_upload sv inp localPath remotePath sz modTime fingerprint s =
     (case GetByLocalPath (us_flt sv 0) localPath s of
        Inr f \<Rightarrow>
          let clearUploaded = (fr_Fingerprint f \<noteq> '''' \<and> (fr_Fingerprint f \<noteq> fingerprint
                                 \<or> fr_RemoteName f \<noteq> cti_RemoteName inp \<or> fr_RemotePath f \<noteq> remotePath));
              f1 = observed_snapshot sv inp localPath remotePath sz modTime fingerprint f;
              f2 = (if clearUploaded then f1\<lparr>fr_UploadedAt := None\<rparr> else f1)
          in (case UpdateSnapshot (us_flt sv 1) (us_clock sv 1) f2 clearUploaded s of
                (s', Inl e) \<Rightarrow> (s', Inl (RepoFailure e))
              | (s', Inr _) \<Rightarrow> (s', Inr f2))
      | Inl ErrNotFound \<Rightarrow>
          let s0 = fst (insert_files (us_clock sv 0) (us_race sv) s);
              f1 = observed_snapshot sv inp localPath remotePath sz modTime fingerprint (blank_record localPath)
          in (case CreateSnapshot (us_flt sv 1) (us_clock sv 1) f1 s0 of
                (s', Inl e) \<Rightarrow> (s', Inl (RepoFailure e))
              | (s', Inr f2) \<Rightarrow>
                  if fr_ID f2 = 0 then (s', map_err RepoFailure (GetByLocalPath (us_flt sv 2) localPath s'))
                  else (s', Inr f2))
      | Inl e \<Rightarrow> (s, Inl (RepoFailure e)))"

(* src/internal/service/upload_service.go 241-259 uploadService.CreateTask *)
definition requested_task ::
    "upload_service \<Rightarrow> create_task_input \<Rightarrow> string \<Rightarrow> string \<Rightarrow> int \<Rightarrow> string \<Rightarrow> nat \<Rightarrow> string \<Rightarrow> upload_task" where
  "requested_task sv inp localPath remotePath sz fingerprint recordID key =
     \<lparr>task_ID = 0, task_FileRecordID = recordID, task_WatchFolderID = cti_WatchFolderID inp,
      task_WatchFolderName = cti_WatchFolderName inp,
      task_FileName = (if cti_FileName inp = '''' then path_Base localPath else cti_FileName inp),
      task_LocalPath = localPath, task_RemoteName = cti_RemoteName inp, task_RemotePath = remotePath,
      task_Status = TaskStatusPending,
      task_Progress = 0, task_Speed = 0, task_RetryCount = 0, task_Priority = 0, task_ErrorMsg = '''',
      task_DurationSeconds = 0, task_StartedAt = None, task_FinishedAt = None, task_LastStatusAt = Some (us_now sv),
      task_LastProgressAt = None, task_NextRetryAt = None, task_LeaseOwner = '''', task_LeaseExpiresAt = None,
      task_HeartbeatAt = None, task_CancelRequestedAt = None, task_CanceledAt = None, task_FileSize = sz,
      task_FileFingerprint = fingerprint, task_IdempotencyKey = Some key, task_AccumulatedFailures = 0,
      task_CreatedAt = zero_time, task_UpdatedAt = zero_time\<rparr>"

text \<open>The task is stored, or the stored one with its key is returned; only a new one wakes a worker.\<close>
(* src/internal/service/upload_service.go 260-268 uploadService.CreateTask *)
definition enqueue_upload :: "upload_service \<Rightarrow> upload_task \<Rightarrow> string \<Rightarrow> upload_world \<Rightarrow> upload_world \<times> (service_error, upload_task) result" where
  "enqueue_upload sv task key w =
     (case w of (s, q) \<Rightarrow>
        (case CreateIfAbsent (us_flt sv 3) (us_clock sv 3) task s of
           (s', Inl e) \<Rightarrow> ((s', q), Inl (RepoFailure e))
         | (s', Inr (False, _)) \<Rightarrow> ((s', q), map_err RepoFailure (GetByIdempotencyKey (us_flt sv 4) key s'))
         | (s', Inr (True, task')) \<Rightarrow> ((s', fst (Submit (us_done sv) q)), Inr task')))"

(* src/internal/service/upload_service.go 170-269 uploadService.CreateTask *)
definition CreateTask :: "upload_service \<Rightarrow> create_task_input \<Rightarrow> upload_world \<Rightarrow> upload_world \<times> (service_error, upload_task) result" where
  "CreateTask sv inp w =
     (case checked_upload sv inp of
        Inl e \<Rightarrow> (w, Inl e)
      | Inr (localPath, remotePath, sz, modTime) \<Rightarrow>
          let fingerprint = uploadMetadataFingerprint (us_sha sv) sz modTime in
          (case snapshot_upload sv inp localPath remotePath sz modTime fingerprint (fst w) of
             (s1, Inl e) \<Rightarrow> ((s1, snd w), Inl e)
           | (s1, Inr f) \<Rightarrow>
               let key = uploadTaskIdempotencyKey (us_sha sv) (cti_WatchFolderID inp) localPath fingerprint
                           (cti_RemoteName inp) remotePath
               in enqueue_upload sv (requested_task sv inp localPath remotePath sz fingerprint (fr_ID f) key) key (s1, snd w)))"

subsection \<open>Batches\<close>

(* src/internal/service/upload_service.go 324-327 TaskBatchResult *)
record task_batch =
  tb_OKIDs :: "nat list"
  tb_Failed :: "nat \<rightharpoonup> string"

definition batch_reason :: "service_error \<Rightarrow> string" where
  "batch_reason e = (case As_app e of Some publicError \<Rightarrow> ae_Message publicError | None \<Rightarrow> ''operation failed'')"

text \<open>The action is given the position, so that every call has its own faults and clock.\<close>
fun run_batch :: "(nat \<Rightarrow> nat \<Rightarrow> 'w \<Rightarrow> 'w \<times> (service_error, unit) result) \<Rightarrow> nat \<Rightarrow> nat list \<Rightarrow> 'w \<times> task_batch \<Rightarrow> 'w \<times> task_batch" where
  "run_batch action k [] wb = wb"
| "run_batch action k (i # ids) (w, b) =
     (case action k i w of
        (w', Inl e) \<Rightarrow> run_batch action (k + 1) ids (w', b\<lparr>tb_Failed := (tb_Failed b)(i \<mapsto> batch_reason e)\<rparr>)
      | (w', Inr _) \<Rightarrow> run_batch action (k + 1) ids (w', b\<lparr>tb_OKIDs := tb_OKIDs b @ [i]\<rparr>))"

(* src/internal/service/upload_service.go 360-374 runTaskBatch *)
definition runTaskBatch :: "(nat \<Rightarrow> nat \<Rightarrow> 'w \<Rightarrow> 'w \<times> (service_error, unit) result) \<Rightarrow> nat list \<Rightarrow> 'w \<Rightarrow> 'w \<times> task_batch" where
  "runTaskBatch action ids w = run_batch action 0 ids (w, \<lparr>tb_OKIDs = [], tb_Failed = Map.empty\<rparr>)"

(* src/internal/service/upload_service.go 329-331 uploadService.BatchSubmitTasks *)
definition BatchSubmitTasks :: "(nat \<Rightarrow> upload_service) \<Rightarrow> nat list \<Rightarrow> upload_world \<Rightarrow> upload_world \<times> task_batch" where
  "BatchSubmitTasks svs = runTaskBatch (\<lambda>k. SubmitTask (svs k))"

(* src/internal/service/upload_service.go 333-335 uploadService.BatchPauseTasks *)
definition BatchPauseTasks :: "(nat \<Rightarrow> upload_service) \<Rightarrow> nat list \<Rightarrow> upload_world \<Rightarrow> upload_world \<times> task_batch" where
  "BatchPauseTasks svs = runTaskBatch (\<lambda>k. PauseTask (svs k))"

(* src/internal/service/upload_service.go 356-358 uploadService.BatchCancelTasks *)
definition BatchCancelTasks :: "(nat \<Rightarrow> upload_service) \<Rightarrow> nat list \<Rightarrow> upload_world \<Rightarrow> upload_world \<times> task_batch" where
  "BatchCancelTasks svs = runTaskBatch (\<lambda>k. CancelTask (svs k))"

text \<open>The first occurrence of every key stays.\<close>
fun unique_ids :: "nat list \<Rightarrow> nat list \<Rightarrow> nat list" where
  "unique_ids seen [] = []"
| "unique_ids seen (i # ids) = (if i \<in> set seen then unique_ids seen ids else i # unique_ids (i # seen) ids)"

(* src/internal/service/upload_service.go 348-353 uploadService.BatchDeleteTasks *)
definition delete_answer :: "(repo_error, nat \<Rightarrow> repo_error option) result \<Rightarrow> nat \<Rightarrow> (service_error, unit) result" where
  "delete_answer r i =
     (case r of
        Inl e \<Rightarrow> Inl (RepoFailure e)
      | Inr failed \<Rightarrow> (case failed i of None \<Rightarrow> Inr () | Some e \<Rightarrow> Inl (taskDeleteError e)))"

(* src/internal/service/upload_service.go 337-354 uploadService.BatchDeleteTasks *)
definition BatchDeleteTasks :: "upload_service \<Rightarrow> nat list \<Rightarrow> upload_world \<Rightarrow> upload_world \<times> task_batch" where
  "BatchDeleteTasks sv ids w =
     (let uniqueIDs = unique_ids [] ids in
      case DeleteMany (us_flt sv 0) uniqueIDs (fst w) of
        (s', r) \<Rightarrow> runTaskBatch (\<lambda>_ i w'. (w', delete_answer r i)) uniqueIDs (s', snd w))"


subsection \<open>Users and workers\<close>

datatype user_request =
    ReqCreate create_task_input
  | ReqSubmit nat
  | ReqPause nat
  | ReqCancel nat
  | ReqDelete nat
  | ReqSubmitMany "nat list"
  | ReqPauseMany "nat list"
  | ReqCancelMany "nat list"
  | ReqDeleteMany "nat list"

text \<open>One request after the other, every call with its own faults and clock.\<close>
fun serve_user :: "(nat \<Rightarrow> upload_service) \<times> user_request \<Rightarrow> upload_world \<Rightarrow> upload_world" where
  "serve_user (svs, ReqCreate inp) w = fst (CreateTask (svs 0) inp w)"
| "serve_user (svs, ReqSubmit i) w = fst (SubmitTask (svs 0) i w)"
| "serve_user (svs, ReqPause i) w = fst (PauseTask (svs 0) i w)"
| "serve_user (svs, ReqCancel i) w = fst (CancelTask (svs 0) i w)"
| "serve_user (svs, ReqDelete i) w = fst (DeleteTask (svs 0) i w)"
| "serve_user (svs, ReqSubmitMany ids) w = fst (BatchSubmitTasks svs ids w)"
| "serve_user (svs, ReqPauseMany ids) w = fst (BatchPauseTasks svs ids w)"
| "serve_user (svs, ReqCancelMany ids) w = fst (BatchCancelTasks svs ids w)"
| "serve_user (svs, ReqDeleteMany ids) w = fst (BatchDeleteTasks (svs 0) ids w)"

text \<open>
  The database after a request is that after some steps of the task repository that act for no
  worker, and writes to other tables.
\<close>
inductive calm :: "db \<Rightarrow> db \<Rightarrow> bool" where
  calm_refl: "calm s s"
| calm_step: "calm s s' \<Longrightarrow> task_actor (flt, a) = None \<Longrightarrow> okop 0 (flt, a) \<Longrightarrow> calm s (task_step now (flt, a) s')"
| calm_other: "calm s s' \<Longrightarrow> tasks s'' = tasks s' \<Longrightarrow> next_task s'' = next_task s' \<Longrightarrow> calm s s''"

lemma calm_trans: "calm s' s'' \<Longrightarrow> calm s s' \<Longrightarrow> calm s s''"
  by (induction rule: calm.induct) (auto intro: calm.intros)

lemma okop_userless: "task_actor (flt, a) = None \<Longrightarrow> okop M (flt, a) = okop M' (flt, a)"
  by (cases a) auto

lemma calm_inv: "calm s s' \<Longrightarrow> task_inv M s \<Longrightarrow> task_inv M s'"
proof (induction rule: calm.induct)
  case (calm_step s s' flt a now)
  then show ?case using task_step_inv okop_userless by blast
next
  case (calm_other s s' s'')
  then show ?case by (simp add: task_inv_def keys_fresh_def)
qed

lemma row_move_userless:
  assumes "row_move now a t t'" "task_actor (flt, a) = None" "task_Status t = TaskStatusRunning"
  shows "task_Status t' = TaskStatusRunning \<and> task_LeaseOwner t' = task_LeaseOwner t
    \<and> task_LeaseExpiresAt t' = task_LeaseExpiresAt t"
  using assms by (induction rule: row_move.induct) (auto simp: cancel_row_def retryable_def pausable_def)

lemma calm_running:
  assumes "calm s s'" "task_inv M s" "task_by i s = Some t" "task_Status t = TaskStatusRunning"
  shows "\<exists>t'. task_by i s' = Some t' \<and> task_Status t' = TaskStatusRunning
    \<and> task_LeaseOwner t' = task_LeaseOwner t \<and> task_LeaseExpiresAt t' = task_LeaseExpiresAt t"
  using assms
proof (induction rule: calm.induct)
  case (calm_refl s)
  then show ?case by blast
next
  case (calm_step s s' flt a now)
  then obtain t1 where t1: "task_by i s' = Some t1" "task_Status t1 = TaskStatusRunning"
    "task_LeaseOwner t1 = task_LeaseOwner t" "task_LeaseExpiresAt t1 = task_LeaseExpiresAt t" by blast
  have "task_inv M s'" using calm_inv calm_step.hyps(1) calm_step.prems(1) by blast
  moreover have "okop M (flt, a)" using calm_step.hyps(2,3) okop_userless by blast
  ultimately obtain t2 where "task_by i (task_step now (flt, a) s') = Some t2" "row_move now a t1 t2"
    using task_step_row t1(1,2) by blast
  with row_move_userless[OF this(2) calm_step.hyps(2) t1(2)] t1 show ?case by auto
next
  case (calm_other s s' s'')
  then show ?case by (simp add: task_by_def)
qed


lemma repo_calm:
  "calm s (fst (ResetForRetry flt now i at s))" "calm s (fst (PauseIfNotRunning flt now i at s))"
  "calm s (fst (RequestCancel flt now i at s))" "calm s (fst (Delete_task flt i s))"
  "calm s (fst (DeleteMany flt ids s))"
  using calm_step[OF calm_refl, of flt "OpReset i at" s now] calm_step[OF calm_refl, of flt "OpPause i at" s now]
    calm_step[OF calm_refl, of flt "OpRequestCancel i at" s now] calm_step[OF calm_refl, of flt "OpDelete i" s now]
    calm_step[OF calm_refl, of flt "OpDeleteMany ids" s now]
  by simp_all

lemma create_calm: "fresh_task t \<Longrightarrow> calm s (fst (CreateIfAbsent flt now t s))"
  using calm_step[OF calm_refl, of flt "OpCreate t" s now] by simp

lemma SubmitTask_calm: "calm (fst w) (fst (fst (SubmitTask sv i w)))"
  using repo_calm(1)[of "fst w" "us_flt sv 1" "us_clock sv 1" i "us_now sv"]
  by (auto simp: SubmitTask_def queue_result_def calm_refl split: prod.splits sum.splits task_status.splits bool.splits)

lemma PauseTask_calm: "calm (fst w) (fst (fst (PauseTask sv i w)))"
  using repo_calm(2)[of "fst w" "us_flt sv 1" "us_clock sv 1" i "us_now sv"]
  by (auto simp: PauseTask_def calm_refl split: prod.splits sum.splits bool.splits)

lemma CancelTask_calm: "calm (fst w) (fst (fst (CancelTask sv i w)))"
  using repo_calm(3)[of "fst w" "us_flt sv 1" "us_clock sv 1" i "us_now sv"]
  by (auto simp: CancelTask_def queue_result_def calm_refl split: prod.splits sum.splits)

lemma DeleteTask_calm: "calm (fst w) (fst (fst (DeleteTask sv i w)))"
  using repo_calm(4)[of "fst w" "us_flt sv 0" i]
  by (auto simp: DeleteTask_def split: prod.splits)

lemma run_batch_calm:
  "(\<And>k i w. calm (fst w) (fst (fst (action k i w)))) \<Longrightarrow> calm (fst (fst wb)) (fst (fst (run_batch action k ids wb)))"
proof (induction action k ids wb rule: run_batch.induct)
  case (1 action k wb)
  show ?case by (simp add: calm_refl)
next
  case (2 action k i ids w b)
  have step: "calm (fst w) (fst (fst (action k i w)))" by (rule 2(3))
  show ?case
  proof (cases "action k i w")
    case (Pair w' r)
    show ?thesis
    proof (cases r)
      case (Inl e)
      from 2(1)[OF Pair[symmetric] Inl 2(3)] step show ?thesis by (auto simp: Pair Inl intro: calm_trans)
    next
      case (Inr u)
      from 2(2)[OF Pair[symmetric] Inr 2(3)] step show ?thesis by (auto simp: Pair Inr intro: calm_trans)
    qed
  qed
qed

lemma insert_files_tasks [simp]:
  "tasks (fst (insert_files now fs s)) = tasks s" "next_task (fst (insert_files now fs s)) = next_task s"
  by (induction fs arbitrary: s) (simp_all add: insert_file_def case_prod_beta Let_def)

lemma snapshot_upload_tasks:
  "tasks (fst (snapshot_upload sv inp lp rp sz mt fp s)) = tasks s
   \<and> next_task (fst (snapshot_upload sv inp lp rp sz mt fp s)) = next_task s"
  by (auto simp: snapshot_upload_def UpdateSnapshot_def CreateSnapshot_def insert_file_def Let_def
      split: sum.splits repo_error.splits prod.splits if_splits)

lemma requested_fresh: "fresh_task (requested_task sv inp lp rp sz fp i key)"
  by (simp add: fresh_task_def requested_task_def)

lemma enqueue_calm: "fresh_task t \<Longrightarrow> calm (fst w) (fst (fst (enqueue_upload sv t key w)))"
  using create_calm[of t "fst w" "us_flt sv 3" "us_clock sv 3"]
  by (auto simp: enqueue_upload_def split: prod.splits sum.splits bool.splits)

lemma CreateTask_calm: "calm (fst w) (fst (fst (CreateTask sv inp w)))"
proof (cases "checked_upload sv inp")
  case (Inl e)
  then show ?thesis by (simp add: CreateTask_def calm_refl)
next
  case (Inr c)
  obtain lp rp sz mt where c: "c = (lp, rp, sz, mt)" by (cases c)
  let ?fp = "uploadMetadataFingerprint (us_sha sv) sz mt"
  obtain s1 r where snap: "snapshot_upload sv inp lp rp sz mt ?fp (fst w) = (s1, r)" by fastforce
  have "calm (fst w) s1"
    using snapshot_upload_tasks[of sv inp lp rp sz mt ?fp "fst w"] calm_other[OF calm_refl] snap by simp
  moreover have "calm s1 (fst (fst (enqueue_upload sv (requested_task sv inp lp rp sz ?fp i key) key (s1, q))))" for i key q
    using enqueue_calm[OF requested_fresh, of "(s1, q)"] by simp
  ultimately show ?thesis
    using Inr c snap by (cases r) (auto simp: CreateTask_def Let_def intro: calm_trans)
qed

lemma runTaskBatch_calm:
  "(\<And>k i w. calm (fst w) (fst (fst (action k i w)))) \<Longrightarrow> calm (fst w) (fst (fst (runTaskBatch action ids w)))"
  using run_batch_calm[of action "(w, \<lparr>tb_OKIDs = [], tb_Failed = Map.empty\<rparr>)" 0 ids] by (simp add: runTaskBatch_def)

lemma serve_user_calm: "calm (fst w) (fst (serve_user x w))"
proof -
  obtain svs q where x: "x = (svs, q)" by (cases x)
  show ?thesis
  proof (cases q)
    case (ReqDeleteMany ids)
    have "calm (fst w) (fst (DeleteMany (us_flt (svs 0) 0) (unique_ids [] ids) (fst w)))" by (rule repo_calm)
    moreover have "fst (fst (run_batch (\<lambda>_ i w'. (w', f i)) k is wb)) = fst (fst wb)"
      for f :: "nat \<Rightarrow> (service_error, unit) result" and k "is" and wb :: "upload_world \<times> task_batch"
      by (induction "is" arbitrary: k wb) (auto split: sum.split)
    ultimately show ?thesis using x ReqDeleteMany
      by (cases "DeleteMany (us_flt (svs 0) 0) (unique_ids [] ids) (fst w)")
        (simp add: BatchDeleteTasks_def runTaskBatch_def Let_def)
  qed (simp_all add: x CreateTask_calm SubmitTask_calm PauseTask_calm CancelTask_calm DeleteTask_calm
        BatchSubmitTasks_def BatchPauseTasks_def BatchCancelTasks_def runTaskBatch_calm)
qed

lemma serve_users_calm: "calm (fst w) (fst (fold serve_user xs w))"
proof (induction xs arbitrary: w)
  case (Cons x xs)
  from calm_trans[OF Cons.IH[of "serve_user x w"] serve_user_calm] show ?case by simp
qed (simp add: calm_refl)


subsection \<open>What a batch deletion deletes\<close>

lemma set_unique_ids: "set (unique_ids seen ids) = set ids - set seen"
  by (induction seen ids rule: unique_ids.induct) auto

lemma distinct_unique_ids: "distinct (unique_ids seen ids)"
  by (induction seen ids rule: unique_ids.induct) (auto simp: set_unique_ids)

text \<open>A batch whose action does not depend on the state.\<close>
lemma run_batch_const:
  assumes "distinct ids" "\<And>i. i \<in> set ids \<Longrightarrow> tb_Failed b i = None"
  shows "snd (run_batch (\<lambda>_ i w'. (w', f i)) k ids (w, b))
    = \<lparr>tb_OKIDs = tb_OKIDs b @ filter (\<lambda>i. ok (f i)) ids,
       tb_Failed = (\<lambda>i. if i \<in> set ids then (case f i of Inl e \<Rightarrow> Some (batch_reason e) | Inr _ \<Rightarrow> None) else tb_Failed b i)\<rparr>"
  using assms
proof (induction ids arbitrary: k b)
  case Nil
  then show ?case by simp
next
  case (Cons i ids)
  show ?case
  proof (cases "f i")
    case (Inl e)
    have "tb_Failed (b\<lparr>tb_Failed := (tb_Failed b)(i \<mapsto> batch_reason e)\<rparr>) j = None" if "j \<in> set ids" for j
      using Cons.prems that by auto
    from Cons.IH[OF _ this, of "k + 1"] Cons.prems(1) Inl show ?thesis by (auto simp: fun_eq_iff)
  next
    case (Inr u)
    have "tb_Failed (b\<lparr>tb_OKIDs := tb_OKIDs b @ [i]\<rparr>) j = None" if "j \<in> set ids" for j
      using Cons.prems that by auto
    from Cons.IH[OF _ this, of "k + 1"] Cons.prems Inr show ?thesis by (auto simp: fun_eq_iff)
  qed
qed

lemma runTaskBatch_const:
  assumes "distinct ids"
  shows "runTaskBatch (\<lambda>_ i w'. (w', f i)) ids w
    = (w, \<lparr>tb_OKIDs = filter (\<lambda>i. ok (f i)) ids,
           tb_Failed = (\<lambda>i. if i \<in> set ids then (case f i of Inl e \<Rightarrow> Some (batch_reason e) | Inr _ \<Rightarrow> None) else None)\<rparr>)"
proof -
  have "fst (run_batch (\<lambda>_ i w'. (w', f i)) k is wb) = fst wb" for k "is" and wb :: "'a \<times> task_batch"
    by (induction "is" arbitrary: k wb) (auto split: sum.split)
  then show ?thesis
    using run_batch_const[OF assms, of "\<lparr>tb_OKIDs = [], tb_Failed = Map.empty\<rparr>" f 0 w]
    by (simp add: runTaskBatch_def prod_eq_iff cong: if_cong)
qed

text \<open>What becomes of one key.\<close>
definition delete_verdict :: "db \<Rightarrow> nat \<Rightarrow> string option" where
  "delete_verdict s i =
     (case task_by i s of
        None \<Rightarrow> Some ''task not found''
      | Some t \<Rightarrow> if task_Status t = TaskStatusRunning then Some ''running task must be canceled before deletion'' else None)"

lemma delete_verdict_rejection:
  "delete_verdict s i = map_option (batch_reason \<circ> taskDeleteError) (batch_rejection s i)"
  by (simp add: delete_verdict_def batch_rejection_def batch_reason_def NotFound_def Conflict_def split: option.split)

lemma DeleteMany_no_fault:
  assumes "distinct (map task_ID (tasks s))" "flt 0 = False" "flt 1 = False" "flt 2 = False"
  shows "DeleteMany flt ids s = (s\<lparr>tasks := filter (\<lambda>t. \<not> (task_ID t \<in> set ids \<and> task_Status t \<noteq> TaskStatusRunning)) (tasks s)\<rparr>,
     Inr (\<lambda>i. if i \<in> set ids then batch_rejection s i else None))"
proof -
  let ?deletable = "map task_ID (filter (\<lambda>t. task_Status t \<noteq> TaskStatusRunning) (filter (\<lambda>t. task_ID t \<in> set ids) (tasks s)))"
  have "delete_where (\<lambda>t. task_ID t \<in> set ?deletable \<and> task_Status t \<noteq> TaskStatusRunning) (tasks s)
      = filter (\<lambda>t. \<not> (task_ID t \<in> set ids \<and> task_Status t \<noteq> TaskStatusRunning)) (tasks s)"
    unfolding delete_where_def by (rule filter_cong) auto
  moreover have "filter (\<lambda>t. \<not> (task_ID t \<in> set ids \<and> task_Status t \<noteq> TaskStatusRunning)) (tasks s) = tasks s"
    if "?deletable = []" using that by (auto simp: filter_empty_conv filter_id_conv)
  moreover have "s\<lparr>tasks := tasks s\<rparr> = s" by simp
  ultimately show ?thesis
    using assms unfolding DeleteMany_def by (cases "ids = []") (auto simp: Let_def fun_eq_iff)
qed


subsection \<open>Properties\<close>

text \<open>
  C7: No sequence of user requests, single or in batches and with any faults of the database, takes a
  running task away from its worker: it stays running under the same lease; a cancellation only marks
  it, and a deletion, a pause or a retry of it is refused.
\<close>
theorem users_keep_leases:
  assumes "task_inv M (fst w)" "task_by i (fst w) = Some t" "task_Status t = TaskStatusRunning"
  shows "\<exists>t'. task_by i (fst (fold serve_user xs w)) = Some t' \<and> task_Status t' = TaskStatusRunning
    \<and> task_LeaseOwner t' = task_LeaseOwner t \<and> task_LeaseExpiresAt t' = task_LeaseExpiresAt t"
  by (rule calm_running[OF serve_users_calm assms])

text \<open>
  C26: A batch deletion that meets no fault deletes exactly the named tasks that are not running and
  reports every named key once, in the order of the request: as deleted, or with the reason why not.
\<close>
theorem batch_delete_outcome:
  assumes "keys_fresh s" "us_flt sv 0 = no_fault"
  shows "BatchDeleteTasks sv ids (s, q)
    = ((s\<lparr>tasks := filter (\<lambda>t. task_ID t \<notin> set ids \<or> task_Status t = TaskStatusRunning) (tasks s)\<rparr>, q),
       \<lparr>tb_OKIDs = filter (\<lambda>i. delete_verdict s i = None) (unique_ids [] ids),
        tb_Failed = (\<lambda>i. if i \<in> set ids then delete_verdict s i else None)\<rparr>)"
proof -
  let ?u = "unique_ids [] ids"
  let ?r = "Inr (\<lambda>i. if i \<in> set ?u then batch_rejection s i else None) :: (repo_error, nat \<Rightarrow> repo_error option) result"
  have "DeleteMany (us_flt sv 0) ?u s
      = (s\<lparr>tasks := filter (\<lambda>t. task_ID t \<notin> set ids \<or> task_Status t = TaskStatusRunning) (tasks s)\<rparr>, ?r)"
    using DeleteMany_no_fault[of s "us_flt sv 0" ?u] assms by (simp add: keys_fresh_def set_unique_ids)
  then have "BatchDeleteTasks sv ids (s, q)
      = runTaskBatch (\<lambda>_ i w'. (w', delete_answer ?r i)) ?u
          (s\<lparr>tasks := filter (\<lambda>t. task_ID t \<notin> set ids \<or> task_Status t = TaskStatusRunning) (tasks s)\<rparr>, q)"
    by (simp only: BatchDeleteTasks_def Let_def prod.case fst_conv snd_conv)
  moreover have "delete_answer ?r i = (case batch_rejection s i of None \<Rightarrow> Inr () | Some e \<Rightarrow> Inl (taskDeleteError e))"
    if "i \<in> set ?u" for i
    using that by (simp add: delete_answer_def)
  then have "ok (delete_answer ?r i) \<longleftrightarrow> delete_verdict s i = None"
    "(case delete_answer ?r i of Inl e \<Rightarrow> Some (batch_reason e) | Inr _ \<Rightarrow> None) = delete_verdict s i"
    if "i \<in> set ?u" for i
    using that by (simp_all add: delete_verdict_rejection split: option.split)
  then have "filter (\<lambda>i. ok (delete_answer ?r i)) ?u = filter (\<lambda>i. delete_verdict s i = None) ?u"
    "(\<lambda>i. if i \<in> set ?u then (case delete_answer ?r i of Inl e \<Rightarrow> Some (batch_reason e) | Inr _ \<Rightarrow> None) else None)
      = (\<lambda>i. if i \<in> set ids then delete_verdict s i else None)"
    by (auto intro!: filter_cong simp: fun_eq_iff set_unique_ids)
  ultimately show ?thesis by (simp only: runTaskBatch_const[OF distinct_unique_ids])
qed

lemma enqueue_outcome:
  assumes "keys_fresh s" "enqueue_upload sv task key (s, q) = (w', Inr t)" "task_IdempotencyKey task = Some key"
  shows "task_IdempotencyKey t = Some key \<and> t \<in> set (tasks (fst w'))
    \<and> (if Some key \<in> task_IdempotencyKey ` set (tasks s) then tasks (fst w') = tasks s \<and> snd w' = q
       else tasks (fst w') = tasks s @ [t]
         \<and> t = task\<lparr>task_ID := next_task s, task_CreatedAt := us_clock sv 3, task_UpdatedAt := us_clock sv 3\<rparr>)"
  using assms
  by (auto simp: enqueue_upload_def CreateIfAbsent_def insert_task_def key_taken_def GetByIdempotencyKey_def Let_def image_iff
      dest!: first_where_Some split: if_splits option.splits prod.splits sum.splits)


lemma keys_fresh_cong:
  "tasks s' = tasks s \<Longrightarrow> next_task s' = next_task s \<Longrightarrow> keys_fresh s' = keys_fresh s"
  by (simp add: keys_fresh_def)

lemma keys_fresh_unique:
  assumes "keys_fresh s" "x \<in> set (tasks s)" "y \<in> set (tasks s)"
    and "task_IdempotencyKey x = Some k" "task_IdempotencyKey y = Some k"
  shows "x = y"
proof -
  have "distinct (filter (\<lambda>k. k \<noteq> None) (map f ts)) \<Longrightarrow> x \<in> set ts \<Longrightarrow> y \<in> set ts \<Longrightarrow> f x = Some k \<Longrightarrow> f y = Some k
      \<Longrightarrow> x = y" for f :: "upload_task \<Rightarrow> string option" and ts
    by (induction ts) (force split: if_splits)+
  with assms show ?thesis unfolding keys_fresh_def by blast
qed

text \<open>
  C13: A created upload is the one stored task with its key, and the key is the one a scan of the folder
  computes for that file, version and destination.  If a task with the key is already there, that task
  is returned, nothing is added and no worker is woken; otherwise one pending task for the file with
  its size is added.
\<close>
theorem CreateTask_once:
  assumes "keys_fresh (fst w)" "checked_upload sv inp = Inr (localPath, remotePath, sz, modTime)"
    and "CreateTask sv inp w = (w', Inr t)"
  shows "task_IdempotencyKey t = Some (taskIdempotencyKey (us_sha sv) (cti_WatchFolderID inp) localPath
           (metadataFingerprint (us_sha sv) sz modTime) (cti_RemoteName inp) remotePath)
    \<and> {x \<in> set (tasks (fst w')). task_IdempotencyKey x = task_IdempotencyKey t} = {t}
    \<and> (if t \<in> set (tasks (fst w)) then tasks (fst w') = tasks (fst w) \<and> snd w' = snd w
       else tasks (fst w') = tasks (fst w) @ [t] \<and> task_Status t = TaskStatusPending
         \<and> task_LocalPath t = localPath \<and> task_RemotePath t = remotePath \<and> task_FileSize t = sz)"
proof -
  let ?fp = "uploadMetadataFingerprint (us_sha sv) sz modTime"
  let ?key = "uploadTaskIdempotencyKey (us_sha sv) (cti_WatchFolderID inp) localPath ?fp (cti_RemoteName inp) remotePath"
  have key: "taskIdempotencyKey (us_sha sv) (cti_WatchFolderID inp) localPath
           (metadataFingerprint (us_sha sv) sz modTime) (cti_RemoteName inp) remotePath = ?key"
    by (simp add: taskIdempotencyKey_def uploadTaskIdempotencyKey_def metadataFingerprint_def uploadMetadataFingerprint_def)
  obtain s1 r where snap: "snapshot_upload sv inp localPath remotePath sz modTime ?fp (fst w) = (s1, r)" by fastforce
  then have same: "tasks s1 = tasks (fst w)" "next_task s1 = next_task (fst w)"
    using snapshot_upload_tasks[of sv inp localPath remotePath sz modTime ?fp "fst w"] by simp_all
  from assms(2,3) snap obtain f where "r = Inr f"
    and e: "enqueue_upload sv (requested_task sv inp localPath remotePath sz ?fp (fr_ID f) ?key) ?key (s1, snd w) = (w', Inr t)"
    by (cases r) (auto simp: CreateTask_def Let_def)
  have fresh: "keys_fresh s1" using assms(1) same keys_fresh_cong by blast
  note out = enqueue_outcome[OF fresh e, simplified requested_task_def, simplified]
  from calm_trans[OF calm_refl] CreateTask_calm[of w sv inp] have "calm (fst w) (fst w')" using assms(3) by simp
  show ?thesis
  proof (cases "Some ?key \<in> task_IdempotencyKey ` set (tasks s1)")
    case True
    with out have t: "tasks (fst w') = tasks s1" "snd w' = snd w" "t \<in> set (tasks s1)" "task_IdempotencyKey t = Some ?key"
      by auto
    then have "{x \<in> set (tasks (fst w')). task_IdempotencyKey x = task_IdempotencyKey t} = {t}"
      using keys_fresh_unique[OF fresh] by auto
    with t same key show ?thesis by simp
  next
    case False
    with out have t: "tasks (fst w') = tasks s1 @ [t]" "task_IdempotencyKey t = Some ?key" "task_Status t = TaskStatusPending"
      "task_LocalPath t = localPath" "task_RemotePath t = remotePath" "task_FileSize t = sz" by simp_all
    have "t \<notin> set (tasks (fst w))" using False t(2) same by force
    moreover have "{x \<in> set (tasks (fst w')). task_IdempotencyKey x = task_IdempotencyKey t} = {t}"
      using False t by (auto simp: image_iff)
    ultimately show ?thesis using t same key by simp
  qed
qed


subsection \<open>Witnesses\<close>

definition sample_uploads :: upload_service where
  "sample_uploads = \<lparr>us_policy = None, us_os = demo_os, us_stat = (\<lambda>_. Some (True, 3, 7)), us_sha = (\<lambda>x. x),
     us_flt = (\<lambda>_. no_fault), us_clock = (\<lambda>_. 5), us_now = 5, us_done = False, us_race = []\<rparr>"

definition sample_upload :: create_task_input where
  "sample_upload = \<lparr>cti_WatchFolderID = 2, cti_WatchFolderName = ''docs'', cti_FileName = '''', cti_LocalPath = ''/data/f'',
     cti_RemoteName = ''r'', cti_RemotePath = ''b'', cti_FileSize = 0\<rparr>"

definition idle_queue :: queue where
  "idle_queue = \<lparr>q_cfg = \<lparr>qc_MaxConcurrent = 3, qc_MaxRetry = 3, qc_PollInterval = 1, qc_LeaseDuration = 90,
     qc_HeartbeatInterval = 30, qc_TaskTimeout = 1, qc_RetryBaseDelay = 1, qc_RetryMaxDelay = 1,
     qc_ProgressPersistInterval = 1, qc_InstanceID = ''a'', qc_ResourcePolicy = None\<rparr>, q_maxAttempts = 4,
     q_wake = 0, q_active = []\<rparr>"

lemma sample_upload_paths:
  "ValidateLocalFile demo_os None ''/data/f'' = Inr ''/data/f''" 
  by (simp add: ValidateLocalFile_def validateLocal_def demo_os_def filepath_Abs_def Let_def TrimSpace_printable printable_def)
    code_simp

lemma sample_upload_checked: "checked_upload sample_uploads sample_upload = Inr (''/data/f'', ''b'', 3, 7)"
  by (simp add: checked_upload_def sample_uploads_def sample_upload_def sample_upload_paths sample_paths)

lemma sample_upload_accepted:
  "\<exists>w' t. CreateTask sample_uploads sample_upload (empty_db, idle_queue) = (w', Inr t)"
  by (simp add: CreateTask_def sample_upload_checked snapshot_upload_def Let_def)
    (simp add: sample_uploads_def GetByLocalPath_def empty_db_def first_where_def CreateSnapshot_def insert_file_def
      path_taken_def enqueue_upload_def CreateIfAbsent_def insert_task_def key_taken_def Let_def)

theorem CreateTask_once_witness:
  "\<exists>w' t. CreateTask sample_uploads sample_upload (empty_db, idle_queue) = (w', Inr t)
     \<and> tasks (fst w') = [t] \<and> task_Status t = TaskStatusPending \<and> task_FileSize t = 3"
proof -
  from sample_upload_accepted obtain w' t where
    c: "CreateTask sample_uploads sample_upload (empty_db, idle_queue) = (w', Inr t)" by blast
  have "keys_fresh (fst (empty_db, idle_queue))" by (simp add: keys_fresh_def empty_db_def)
  from CreateTask_once[OF this sample_upload_checked c] c show ?thesis
    by (intro exI[of _ w'] exI[of _ t]) (simp add: empty_db_def)
qed

theorem users_keep_leases_witness:
  "\<exists>t'. task_by 4 (fst (fold serve_user [(\<lambda>_. sample_uploads, ReqCancel 4), (\<lambda>_. sample_uploads, ReqDeleteMany [4])]
      (queue_db [running_task 4 ''k''], idle_queue))) = Some t'
    \<and> task_Status t' = TaskStatusRunning \<and> task_LeaseOwner t' = task_LeaseOwner (running_task 4 ''k'')"
proof -
  have "task_inv 9 (fst (queue_db [running_task 4 ''k''], idle_queue))"
    by (simp add: inv_defs samples running_task_def claim_row_def)
  moreover have "task_by 4 (fst (queue_db [running_task 4 ''k''], idle_queue)) = Some (running_task 4 ''k'')"
    "task_Status (running_task 4 ''k'') = TaskStatusRunning"
    by (simp_all add: samples running_task_def claim_row_def task_by_def first_where_def)
  ultimately show ?thesis using users_keep_leases by blast
qed

theorem batch_delete_outcome_witness:
  "tb_OKIDs (snd (BatchDeleteTasks sample_uploads [5, 4, 5, 7] (queue_db [running_task 4 ''k'', pending_task 5 ''l''], idle_queue))) = [5]
   \<and> map task_ID (tasks (fst (fst (BatchDeleteTasks sample_uploads [5, 4, 5, 7]
        (queue_db [running_task 4 ''k'', pending_task 5 ''l''], idle_queue))))) = [4]"
proof -
  have "keys_fresh (queue_db [running_task 4 ''k'', pending_task 5 ''l''])" "us_flt sample_uploads 0 = no_fault"
    by (simp_all add: keys_fresh_def samples running_task_def claim_row_def sample_uploads_def)
  from batch_delete_outcome[OF this, of "[5, 4, 5, 7]" idle_queue] show ?thesis
    by (simp add: delete_verdict_def task_by_def first_where_def samples running_task_def claim_row_def)
qed

end
