(* ===== verification/Maintenance.thy ===== *)
theory Maintenance
  imports WatchRepo LogRepo
begin

section \<open>Maintenance, startup repair and audit records\<close>

text \<open>
  \<open>internal/service/maintenance_service.go\<close> (deletion of old rows in limited batches),
  \<open>internal/service/task_init_service.go\<close> (repair of scan states at startup),
  \<open>internal/repository/audit_log_repository.go\<close> and \<open>internal/service/operations_service.go\<close>.  The
  deletion loop runs until a batch is not full, so that it may run forever for the wrong batch size:
  it is a \<open>partial_function\<close>, and the properties say that the service always ends, with exactly the
  expired rows gone, and that a starting instance leaves the live scans of others alone.
\<close>

subsection \<open>Audit records\<close>

(* src/internal/model/audit_log.go 5-18 AuditLog *)
record audit_log =
  al_ID :: nat
  al_RequestID :: string
  al_Actor :: string
  al_Role :: string
  al_Action :: string
  al_Resource :: string
  al_Method :: string
  al_Path :: string
  al_StatusCode :: int
  al_ClientIP :: string
  al_CreatedAt :: time

text \<open>The table and its next key.\<close>
type_synonym audit_table = "audit_log list \<times> nat"

(* src/internal/repository/audit_log_repository.go 25-30 auditLogRepository.Create *)
definition Create_audit :: "fault \<Rightarrow> time \<Rightarrow> audit_log \<Rightarrow> audit_table \<Rightarrow> audit_table \<times> (repo_error, unit) result" where
  "Create_audit flt now entry a =
     (if flt 0 then (a, Inl (ErrDB 0))
      else ((fst a @ [entry\<lparr>al_ID := snd a, al_CreatedAt := now\<rparr>], snd a + 1), Inr ()))"

text \<open>Newest key first.\<close>
(* src/internal/repository/audit_log_repository.go 32-46 auditLogRepository.List *)
definition List_audit :: "fault \<Rightarrow> int \<Rightarrow> int \<Rightarrow> audit_table \<Rightarrow> (repo_error, audit_log list \<times> nat) result" where
  "List_audit flt offset limit0 a =
     (if flt 0 then Inl (ErrDB 0)
      else let limit = (if limit0 \<le> 0 \<or> limit0 > 200 then 50 else limit0) in
        if flt 1 then Inl (ErrDB 1)
        else Inr (take (nat limit) (drop (nat offset) (sort_key (\<lambda>e. - int (al_ID e)) (fst a))), length (fst a)))"

(* src/internal/service/operations_service.go 34-48 normalizePage *)
definition normalizePage :: "int \<Rightarrow> int \<Rightarrow> int \<times> int" where
  "normalizePage page pageSize =
     ((if page \<le> 0 then 1 else if page > 10000 then 10000 else page),
      (if pageSize \<le> 0 then 50 else if pageSize > 200 then 200 else pageSize))"

(* src/internal/service/operations_service.go 24-27 operationsService.ListScanRuns *)
definition ListScanRuns :: "fault \<Rightarrow> nat \<Rightarrow> int \<Rightarrow> int \<Rightarrow> db \<Rightarrow> (repo_error, scan_run list \<times> nat) result" where
  "ListScanRuns flt watchFolderID page0 size0 s =
     (case normalizePage page0 size0 of
        (page, pageSize) \<Rightarrow> ListByWatchFolder flt watchFolderID ((page - 1) * pageSize) pageSize s)"

(* src/internal/service/operations_service.go 29-32 operationsService.ListAuditLogs *)
definition ListAuditLogs :: "fault \<Rightarrow> int \<Rightarrow> int \<Rightarrow> audit_table \<Rightarrow> (repo_error, audit_log list \<times> nat) result" where
  "ListAuditLogs flt page0 size0 a =
     (case normalizePage page0 size0 of (page, pageSize) \<Rightarrow> List_audit flt ((page - 1) * pageSize) pageSize a)"

subsection \<open>Deletion in batches\<close>

text \<open>\<open>DELETE FROM t WHERE p LIMIT n\<close>, in table order.\<close>
fun delete_limit :: "('r \<Rightarrow> bool) \<Rightarrow> nat \<Rightarrow> 'r list \<Rightarrow> 'r list" where
  "delete_limit p 0 rs = rs"
| "delete_limit p (Suc n) [] = []"
| "delete_limit p (Suc n) (r # rs) = (if p r then delete_limit p n rs else r # delete_limit p (Suc n) rs)"

text \<open>The rows left and whether no statement failed; the \<open>k\<close>-th statement fails when \<open>flt k\<close>.\<close>
(* src/internal/service/maintenance_service.go 69-77 MaintenanceService.Cleanup *)
partial_function (option) cleanup_loop ::
    "fault \<Rightarrow> nat \<Rightarrow> ('r \<Rightarrow> bool) \<Rightarrow> int \<Rightarrow> 'r list \<Rightarrow> ('r list \<times> bool) option" where
  "cleanup_loop flt k p batchSize rs =
     (if flt k \<or> batchSize < 0 then Some (rs, False)
      else let rs' = delete_limit p (nat batchSize) rs in
        if int (length rs - length rs') < batchSize then Some (rs', True)
        else cleanup_loop flt (k + 1) p batchSize rs')"

(* src/internal/service/maintenance_service.go 15-22 MaintenanceConfig *)
record maintenance_config =
  mcf_Interval :: dur
  mcf_UploadLogRetention :: dur
  mcf_TaskRetention :: dur
  mcf_ScanRunRetention :: dur
  mcf_AuditLogRetention :: dur
  mcf_DeleteBatchSize :: int

(* src/internal/service/maintenance_service.go 29-37 NewMaintenanceService *)
definition NewMaintenanceService :: "maintenance_config \<Rightarrow> maintenance_config" where
  "NewMaintenanceService cfg =
     cfg\<lparr>mcf_Interval := (if mcf_Interval cfg \<le> 0 then 24 * hour else mcf_Interval cfg),
         mcf_DeleteBatchSize := (if mcf_DeleteBatchSize cfg \<le> 0 then 5000 else mcf_DeleteBatchSize cfg)\<rparr>"

text \<open>A retention that is not positive keeps the table.\<close>
definition cleanup_rows :: "fault \<Rightarrow> dur \<Rightarrow> ('r \<Rightarrow> bool) \<Rightarrow> int \<Rightarrow> 'r list \<Rightarrow> ('r list \<times> bool) option" where
  "cleanup_rows flt retention p batchSize rs =
     (if retention \<le> 0 then Some (rs, True) else cleanup_loop flt 0 p batchSize rs)"

definition expired_task :: "time \<Rightarrow> upload_task \<Rightarrow> bool" where
  "expired_task cutoff t \<longleftrightarrow> task_Status t \<in> {TaskStatusSuccess, TaskStatusFailed, TaskStatusCanceled}
     \<and> (case task_FinishedAt t of None \<Rightarrow> False | Some f \<Rightarrow> f < cutoff)"

text \<open>The name is that of the table whose deletion failed; each table has its own faults.\<close>
(* src/internal/service/maintenance_service.go 57-97 MaintenanceService.Cleanup *)
definition Cleanup ::
    "maintenance_config \<Rightarrow> (nat \<Rightarrow> fault) \<Rightarrow> time \<Rightarrow> db \<times> audit_table \<Rightarrow> ((db \<times> audit_table) \<times> string option) option" where
  "Cleanup cfg flt now w =
     (let n = mcf_DeleteBatchSize cfg in
      case w of (s, audits, next_audit) \<Rightarrow>
      Option.bind (cleanup_rows (flt 0) (mcf_UploadLogRetention cfg)
                     (\<lambda>l. log_CreatedAt l < now - mcf_UploadLogRetention cfg) n (upload_logs s)) (\<lambda>(ls, ok0).
      let s1 = s\<lparr>upload_logs := ls\<rparr> in
      if \<not> ok0 then Some ((s1, audits, next_audit), Some ''upload_logs'') else
      Option.bind (cleanup_rows (flt 1) (mcf_ScanRunRetention cfg)
                     (\<lambda>r. run_CreatedAt r < now - mcf_ScanRunRetention cfg) n (scan_runs s1)) (\<lambda>(rs, ok1).
      let s2 = s1\<lparr>scan_runs := rs\<rparr> in
      if \<not> ok1 then Some ((s2, audits, next_audit), Some ''scan_runs'') else
      Option.bind (cleanup_rows (flt 2) (mcf_AuditLogRetention cfg)
                     (\<lambda>e. al_CreatedAt e < now - mcf_AuditLogRetention cfg) n audits) (\<lambda>(as, ok2).
      if \<not> ok2 then Some ((s2, as, next_audit), Some ''audit_logs'') else
      Option.bind (cleanup_rows (flt 3) (mcf_TaskRetention cfg)
                     (expired_task (now - mcf_TaskRetention cfg)) n (tasks s2)) (\<lambda>(ts, ok3).
      Some ((s2\<lparr>tasks := ts\<rparr>, as, next_audit), if ok3 then None else Some ''upload_tasks''))))))"

subsection \<open>The loop ends\<close>

lemma delete_limit_keeps: "filter (\<lambda>r. \<not> p r) (delete_limit p n rs) = filter (\<lambda>r. \<not> p r) rs"
  by (induction p n rs rule: delete_limit.induct) auto

lemma set_delete_limit: "set (delete_limit p n rs) \<subseteq> set rs"
  by (induction p n rs rule: delete_limit.induct) auto

lemma delete_limit_all:
  assumes "length (filter p rs) \<le> n"
  shows "delete_limit p n rs = filter (\<lambda>r. \<not> p r) rs"
  using assms by (induction p n rs rule: delete_limit.induct) (auto simp: filter_empty_conv filter_id_conv)

lemma delete_limit_left: "length (filter p (delete_limit p n rs)) = length (filter p rs) - n"
  by (induction p n rs rule: delete_limit.induct) auto

lemma delete_limit_affected: "length rs - length (delete_limit p n rs) = min n (length (filter p rs))"
  using sum_length_filter_compl[of p rs] sum_length_filter_compl[of p "delete_limit p n rs"]
  by (simp add: delete_limit_left delete_limit_keeps)

text \<open>With a positive batch size the loop returns; when no statement failed, all matching rows are gone.\<close>
lemma cleanup_loop_ends:
  assumes "0 < batchSize"
  shows "\<exists>rs' success. cleanup_loop flt k p batchSize rs = Some (rs', success)
    \<and> filter (\<lambda>r. \<not> p r) rs' = filter (\<lambda>r. \<not> p r) rs \<and> set rs' \<subseteq> set rs
    \<and> (success \<longrightarrow> rs' = filter (\<lambda>r. \<not> p r) rs) \<and> ((\<forall>j. \<not> flt j) \<longrightarrow> success)"
proof (induction "length (filter p rs)" arbitrary: k rs rule: less_induct)
  case less
  let ?rs' = "delete_limit p (nat batchSize) rs"
  consider "flt k" | "\<not> flt k" "length (filter p rs) < nat batchSize" | "\<not> flt k" "nat batchSize \<le> length (filter p rs)"
    by linarith
  then show ?case
  proof cases
    case 1
    then show ?thesis by (subst cleanup_loop.simps) auto
  next
    case 2
    then have "cleanup_loop flt k p batchSize rs = Some (?rs', True)"
      using assms by (subst cleanup_loop.simps) (simp add: Let_def delete_limit_affected min_def nat_less_iff zless_nat_eq_int_zless)
    with delete_limit_all[of p rs "nat batchSize"] 2(2) show ?thesis by auto
  next
    case 3
    have "cleanup_loop flt k p batchSize rs = cleanup_loop flt (k + 1) p batchSize ?rs'"
      using assms 3 by (subst cleanup_loop.simps) (simp add: Let_def delete_limit_affected min_def)
    moreover have "length (filter p ?rs') < length (filter p rs)"
      using 3(2) assms by (simp add: delete_limit_left)
    from less.hyps[OF this, of "k + 1"] obtain rs' success where
      "cleanup_loop flt (k + 1) p batchSize ?rs' = Some (rs', success)"
      "filter (\<lambda>r. \<not> p r) rs' = filter (\<lambda>r. \<not> p r) ?rs'" "set rs' \<subseteq> set ?rs'"
      "success \<longrightarrow> rs' = filter (\<lambda>r. \<not> p r) ?rs'" "(\<forall>j. \<not> flt j) \<longrightarrow> success" by blast
    ultimately show ?thesis
      using set_delete_limit[of p "nat batchSize" rs] unfolding delete_limit_keeps
      by (intro exI[of _ rs'] exI[of _ success]) auto
  qed
qed


text \<open>The rows a successful cleanup leaves.\<close>
definition kept_rows :: "dur \<Rightarrow> ('r \<Rightarrow> bool) \<Rightarrow> 'r list \<Rightarrow> 'r list" where
  "kept_rows retention p rs = (if retention \<le> 0 then rs else filter (\<lambda>r. \<not> p r) rs)"

lemma cleanup_rows_ends:
  assumes "0 < n"
  obtains rs' success where "cleanup_rows flt retention p n rs = Some (rs', success)"
    "filter (\<lambda>r. \<not> p r) rs' = filter (\<lambda>r. \<not> p r) rs" "set rs' \<subseteq> set rs"
    "success \<longrightarrow> rs' = kept_rows retention p rs" "(\<forall>j. \<not> flt j) \<longrightarrow> success"
proof (cases "retention \<le> 0")
  case True
  with that[of rs True] show thesis by (simp add: cleanup_rows_def kept_rows_def)
next
  case False
  with cleanup_loop_ends[OF assms, of flt 0 p rs] that show thesis by (auto simp: cleanup_rows_def kept_rows_def)
qed

lemma NewMaintenanceService_batch: "0 < mcf_DeleteBatchSize (NewMaintenanceService cfg)"
  by (simp add: NewMaintenanceService_def)

text \<open>
  C23: Cleanup always ends, whatever configuration the service was given and whichever statements fail:
  it never removes a task that is not finished and expired, and when it reports no error exactly the
  expired rows of all four tables are gone.
\<close>
theorem Cleanup_ends:
  "\<exists>s' audits' r. Cleanup (NewMaintenanceService cfg) flt now (s, audits, nx) = Some ((s', audits', nx), r)
    \<and> filter (\<lambda>t. \<not> expired_task (now - mcf_TaskRetention cfg) t) (tasks s')
        = filter (\<lambda>t. \<not> expired_task (now - mcf_TaskRetention cfg) t) (tasks s)
    \<and> (r = None \<longrightarrow>
         s' = s\<lparr>upload_logs := kept_rows (mcf_UploadLogRetention cfg)
                    (\<lambda>l. log_CreatedAt l < now - mcf_UploadLogRetention cfg) (upload_logs s),
                scan_runs := kept_rows (mcf_ScanRunRetention cfg)
                    (\<lambda>x. run_CreatedAt x < now - mcf_ScanRunRetention cfg) (scan_runs s),
                tasks := kept_rows (mcf_TaskRetention cfg) (expired_task (now - mcf_TaskRetention cfg)) (tasks s)\<rparr>
         \<and> audits' = kept_rows (mcf_AuditLogRetention cfg)
                    (\<lambda>e. al_CreatedAt e < now - mcf_AuditLogRetention cfg) audits)
    \<and> ((\<forall>i j. \<not> flt i j) \<longrightarrow> r = None)"
proof -
  let ?cfg = "NewMaintenanceService cfg"
  let ?n = "mcf_DeleteBatchSize ?cfg"
  note n = NewMaintenanceService_batch[of cfg]
  have ret: "mcf_UploadLogRetention ?cfg = mcf_UploadLogRetention cfg" "mcf_ScanRunRetention ?cfg = mcf_ScanRunRetention cfg"
    "mcf_AuditLogRetention ?cfg = mcf_AuditLogRetention cfg" "mcf_TaskRetention ?cfg = mcf_TaskRetention cfg"
    by (simp_all add: NewMaintenanceService_def)
  obtain ls ok0 where ls: "cleanup_rows (flt 0) (mcf_UploadLogRetention cfg)
      (\<lambda>l. log_CreatedAt l < now - mcf_UploadLogRetention cfg) ?n (upload_logs s) = Some (ls, ok0)"
    "ok0 \<longrightarrow> ls = kept_rows (mcf_UploadLogRetention cfg) (\<lambda>l. log_CreatedAt l < now - mcf_UploadLogRetention cfg) (upload_logs s)"
    "(\<forall>j. \<not> flt 0 j) \<longrightarrow> ok0"
    by (rule cleanup_rows_ends[OF n, of "flt 0" "mcf_UploadLogRetention cfg"
          "\<lambda>l. log_CreatedAt l < now - mcf_UploadLogRetention cfg" "upload_logs s"]) blast
  obtain rs ok1 where rs: "cleanup_rows (flt 1) (mcf_ScanRunRetention cfg)
      (\<lambda>x. run_CreatedAt x < now - mcf_ScanRunRetention cfg) ?n (scan_runs s) = Some (rs, ok1)"
    "ok1 \<longrightarrow> rs = kept_rows (mcf_ScanRunRetention cfg) (\<lambda>x. run_CreatedAt x < now - mcf_ScanRunRetention cfg) (scan_runs s)"
    "(\<forall>j. \<not> flt 1 j) \<longrightarrow> ok1"
    by (rule cleanup_rows_ends[OF n, of "flt 1" "mcf_ScanRunRetention cfg"
          "\<lambda>x. run_CreatedAt x < now - mcf_ScanRunRetention cfg" "scan_runs s"]) blast
  obtain as' ok2 where as': "cleanup_rows (flt 2) (mcf_AuditLogRetention cfg)
      (\<lambda>e. al_CreatedAt e < now - mcf_AuditLogRetention cfg) ?n audits = Some (as', ok2)"
    "ok2 \<longrightarrow> as' = kept_rows (mcf_AuditLogRetention cfg) (\<lambda>e. al_CreatedAt e < now - mcf_AuditLogRetention cfg) audits"
    "(\<forall>j. \<not> flt 2 j) \<longrightarrow> ok2"
    by (rule cleanup_rows_ends[OF n, of "flt 2" "mcf_AuditLogRetention cfg"
          "\<lambda>e. al_CreatedAt e < now - mcf_AuditLogRetention cfg" "audits"]) blast
  obtain ts ok3 where ts: "cleanup_rows (flt 3) (mcf_TaskRetention cfg)
      (expired_task (now - mcf_TaskRetention cfg)) ?n (tasks s) = Some (ts, ok3)"
    "filter (\<lambda>t. \<not> expired_task (now - mcf_TaskRetention cfg) t) ts = filter (\<lambda>t. \<not> expired_task (now - mcf_TaskRetention cfg) t) (tasks s)"
    "ok3 \<longrightarrow> ts = kept_rows (mcf_TaskRetention cfg) (expired_task (now - mcf_TaskRetention cfg)) (tasks s)"
    "(\<forall>j. \<not> flt 3 j) \<longrightarrow> ok3"
    by (rule cleanup_rows_ends[OF n, of "flt 3" "mcf_TaskRetention cfg"
          "expired_task (now - mcf_TaskRetention cfg)" "tasks s"]) blast
  show ?thesis
    unfolding Cleanup_def Let_def prod.case ret
    by (cases ok0; cases ok1; cases ok2) (use ls rs as' ts in auto)
qed


subsection \<open>Repair at startup\<close>

text \<open>\<open>scan_lease_expires_at > now\<close>\<close>
definition live_scan :: "time \<Rightarrow> watch_folder \<Rightarrow> bool" where
  "live_scan now f \<longleftrightarrow> \<not> scan_lease_free now f"

definition interrupted_folder :: "time \<Rightarrow> time \<Rightarrow> watch_folder \<Rightarrow> watch_folder" where
  "interrupted_folder upd now f =
     f\<lparr>wf_Status := WatchFolderStatusError, wf_LastError := ''previous scan was interrupted by process shutdown'',
       wf_LastScanFinishedAt := Some now, wf_NextScanAt := None, wf_ScanLeaseOwner := '''',
       wf_ScanLeaseExpiresAt := None, wf_UpdatedAt := upd\<rparr>"

definition interrupted_run :: "time \<Rightarrow> scan_run \<Rightarrow> scan_run" where
  "interrupted_run now r =
     r\<lparr>run_Status := ScanRunStatusCanceled, run_FinishedAt := Some now,
       run_ErrorMessage := ''scan interrupted by process shutdown''\<rparr>"

text \<open>Two statements without a transaction; \<open>upd\<close> is the time the first one stamps on its rows.\<close>
(* src/internal/service/task_init_service.go 25-65 TaskInitService.FixStatusesOnStartup *)
definition FixStatusesOnStartup :: "fault \<Rightarrow> time \<Rightarrow> time \<Rightarrow> db \<Rightarrow> db \<times> (repo_error, unit) result" where
  "FixStatusesOnStartup flt upd now s =
     (if flt 0 then (s, Inl (ErrDB 0))
      else let s1 = update_folders (\<lambda>f. wf_Status f = WatchFolderStatusDetecting \<and> \<not> live_scan now f)
                      (interrupted_folder upd now) s in
        if flt 1 then (s1, Inl (ErrDB 1))
        else (s1\<lparr>scan_runs := update_where (\<lambda>r. run_Status r = ScanRunStatusRunning
                     \<and> \<not> (\<exists>f \<in> set (folders s1). wf_ID f = run_WatchFolderID r \<and> live_scan now f))
                   (interrupted_run now) (scan_runs s1)\<rparr>, Inr ()))"

text \<open>
  C24: The repair at the start of an instance touches nothing that is alive: a folder under a live scan
  lease is unchanged, with or without faults, and so are the tasks.  When it succeeds, every folder that
  is still being scanned has a live lease, every scan run that is still running belongs to such a
  folder, and every enabled folder whose scan was interrupted can be claimed for a new scan at once.
\<close>
theorem startup_repair:
  assumes "FixStatusesOnStartup flt upd now s = (s', r)" "f \<in> set (folders s)"
  shows "tasks s' = tasks s \<and> (live_scan now f \<longrightarrow> f \<in> set (folders s'))
    \<and> (r = Inr () \<longrightarrow>
         list_all (\<lambda>g. wf_Status g = WatchFolderStatusDetecting \<longrightarrow> live_scan now g) (folders s')
       \<and> list_all (\<lambda>x. run_Status x = ScanRunStatusRunning
             \<longrightarrow> (\<exists>g \<in> set (folders s'). wf_ID g = run_WatchFolderID x \<and> live_scan now g)) (scan_runs s')
       \<and> (wf_Status f = WatchFolderStatusDetecting \<and> \<not> live_scan now f \<and> wf_Enabled f
             \<longrightarrow> (\<exists>g \<in> set (folders s'). wf_ID g = wf_ID f \<and> scan_due now g)))"
proof -
  let ?fs = "update_where (\<lambda>f. wf_Status f = WatchFolderStatusDetecting \<and> \<not> live_scan now f)
      (interrupted_folder upd now) (folders s)"
  have row: "wf_Status (interrupted_folder upd now g) = WatchFolderStatusError" "wf_ID (interrupted_folder upd now g) = wf_ID g"
    "wf_Enabled g \<Longrightarrow> scan_due now (interrupted_folder upd now g)" for g
    by (simp_all add: interrupted_folder_def scan_due_def scan_lease_free_def scan_manual_def)
  have live: "live_scan now f \<Longrightarrow> f \<in> set ?fs" using assms(2) by (auto simp: set_update_where image_iff)
  have detecting: "list_all (\<lambda>g. wf_Status g = WatchFolderStatusDetecting \<longrightarrow> live_scan now g) ?fs"
    using row(1) by (auto simp: list_all_iff set_update_where)
  have again: "\<exists>g \<in> set ?fs. wf_ID g = wf_ID f \<and> scan_due now g"
    if "wf_Status f = WatchFolderStatusDetecting \<and> \<not> live_scan now f \<and> wf_Enabled f"
    using that assms(2) row(2,3) by (intro bexI[of _ "interrupted_folder upd now f"]) (auto simp: set_update_where)
  have runs: "list_all (\<lambda>x. run_Status x = ScanRunStatusRunning \<longrightarrow> (\<exists>g \<in> set fs. wf_ID g = run_WatchFolderID x \<and> live_scan now g))
      (update_where (\<lambda>r. run_Status r = ScanRunStatusRunning
                     \<and> \<not> (\<exists>f \<in> set fs. wf_ID f = run_WatchFolderID r \<and> live_scan now f)) (interrupted_run now) rs)" for fs rs
    by (auto simp: list_all_iff set_update_where interrupted_run_def)
  consider "flt 0" | "\<not> flt 0" "flt 1" | "\<not> flt 0" "\<not> flt 1" by blast
  then show ?thesis
  proof cases
    case 1
    with assms show ?thesis by (auto simp: FixStatusesOnStartup_def)
  next
    case 2
    with assms(1) live show ?thesis by (auto simp: FixStatusesOnStartup_def update_folders_def Let_def)
  next
    case 3
    with assms(1) have "s' = s\<lparr>folders := ?fs, scan_runs := update_where (\<lambda>r. run_Status r = ScanRunStatusRunning
        \<and> \<not> (\<exists>f \<in> set ?fs. wf_ID f = run_WatchFolderID r \<and> live_scan now f)) (interrupted_run now) (scan_runs s)\<rparr>"
      by (auto simp: FixStatusesOnStartup_def update_folders_def Let_def)
    then show ?thesis using live detecting again runs[of ?fs "scan_runs s"] by simp
  qed
qed


subsection \<open>Witnesses\<close>

definition sample_maintenance :: maintenance_config where
  "sample_maintenance = \<lparr>mcf_Interval = 0, mcf_UploadLogRetention = 0, mcf_TaskRetention = 10, mcf_ScanRunRetention = 0,
     mcf_AuditLogRetention = 5, mcf_DeleteBatchSize = 0\<rparr>"

definition stale_audit :: audit_log where
  "stale_audit = \<lparr>al_ID = 3, al_RequestID = ''q'', al_Actor = ''admin'', al_Role = ''admin'', al_Action = ''POST'',
     al_Resource = ''tasks'', al_Method = ''POST'', al_Path = ''/api/tasks'', al_StatusCode = 201, al_ClientIP = '''',
     al_CreatedAt = 40\<rparr>"

theorem Cleanup_ends_witness:
  "\<exists>s'. Cleanup (NewMaintenanceService sample_maintenance) (\<lambda>_. no_fault) 50 (empty_db, [stale_audit], 9)
      = Some ((s', [], 9), None)"
proof -
  from Cleanup_ends[of sample_maintenance "\<lambda>_. no_fault" 50 empty_db "[stale_audit]" 9] obtain s' audits' where
    "Cleanup (NewMaintenanceService sample_maintenance) (\<lambda>_. no_fault) 50 (empty_db, [stale_audit], 9)
       = Some ((s', audits', 9), None)"
    "audits' = kept_rows (mcf_AuditLogRetention sample_maintenance)
                    (\<lambda>e. al_CreatedAt e < 50 - mcf_AuditLogRetention sample_maintenance) [stale_audit]" by auto
  then show ?thesis by (simp add: kept_rows_def sample_maintenance_def stale_audit_def)
qed

definition interrupted_db :: db where
  "interrupted_db = folder_db [(scanning_folder 2 WatchFolderStatusDetecting)\<lparr>wf_ScanLeaseExpiresAt := Some 20\<rparr>]"

theorem startup_repair_witness:
  "\<exists>g \<in> set (folders (fst (FixStatusesOnStartup no_fault 30 30 interrupted_db))). wf_ID g = 2 \<and> scan_due 30 g"
proof -
  let ?f = "(scanning_folder 2 WatchFolderStatusDetecting)\<lparr>wf_ScanLeaseExpiresAt := Some 20\<rparr>"
  have f: "?f \<in> set (folders interrupted_db)" by (simp add: interrupted_db_def folder_db_def)
  have r: "FixStatusesOnStartup no_fault 30 30 interrupted_db = (fst (FixStatusesOnStartup no_fault 30 30 interrupted_db), Inr ())"
    by (simp add: FixStatusesOnStartup_def Let_def)
  have "wf_Status ?f = WatchFolderStatusDetecting" "\<not> live_scan 30 ?f" "wf_Enabled ?f" "wf_ID ?f = 2"
    by (simp_all add: live_scan_def scan_lease_free_def folder_samples)
  with startup_repair[OF r f] show ?thesis by auto
qed

end
