(* ===== verification/Config.thy ===== *)
theory Config
  imports ScannerProps QueueProps RouteScanner Auth Maintenance
begin

section \<open>Configuration\<close>

text \<open>
  \<open>internal/config/config.go\<close>: the configuration is read from a YAML file or, when there is none, from
  the environment alone; missing values get defaults, environment variables override the file, and
  \<open>Validate\<close> rejects what the program cannot run with.  An environment is the function
  \<open>os.Getenv\<close>: a variable that is not set reads as the empty string.  Decoding YAML is not code of the
  repository; a file is the outcome of reading and decoding it.  The last part is the wiring of
  \<open>cmd/server/main.go\<close>: the configuration each component is constructed with.
\<close>

subsection \<open>Data\<close>

(* src/internal/config/config.go 28-37 ServerConfig *)
record server_config =
  srv_Port :: int
  srv_Mode :: string
  srv_EmbedFrontend :: bool
  srv_WriteTimeoutSecs :: int
  srv_TrustedProxies :: "string list"
  srv_EnableSwagger :: bool

(* src/internal/config/config.go 39-55 DatabaseConfig *)
record database_config =
  dbc_Host :: string
  dbc_Port :: int
  dbc_User :: string
  dbc_Password :: string
  dbc_DBName :: string
  dbc_Charset :: string
  dbc_MaxOpenConns :: int
  dbc_MaxIdleConns :: int
  dbc_ConnMaxIdleTimeMins :: int
  dbc_ConnMaxLifetimeMins :: int
  dbc_ConnectTimeoutSecs :: int
  dbc_ReadTimeoutSecs :: int
  dbc_WriteTimeoutSecs :: int
  dbc_TLS :: string

(* src/internal/config/config.go 57-67 ScanConfig *)
record scan_config =
  scn_IntervalSeconds :: int
  scn_WatchPollIntervalSeconds :: int
  scn_FolderTimeoutSeconds :: int
  scn_FileStableSeconds :: int
  scn_MaxConcurrentFolders :: int
  scn_BatchSize :: int
  scn_LeaseSeconds :: int
  scn_HeartbeatSeconds :: int

(* src/internal/config/config.go 69-82 WorkerConfig *)
record worker_config =
  wrk_MaxConcurrent :: int
  wrk_MaxRetry :: int
  wrk_QueueSize :: int
  wrk_PollIntervalMilliseconds :: int
  wrk_LeaseSeconds :: int
  wrk_HeartbeatSeconds :: int
  wrk_TaskTimeoutSeconds :: int
  wrk_RetryBaseSeconds :: int
  wrk_RetryMaxSeconds :: int
  wrk_ProgressPersistSeconds :: int
  wrk_InstanceID :: string

(* src/internal/config/config.go 84-87 RcloneConfig *)
record rclone_config =
  rcl_BinPath :: string

(* src/internal/config/config.go 89-93 LogConfig *)
record log_config =
  lgc_Level :: string
  lgc_Format :: string

(* src/internal/config/config.go 95-109 SecurityConfig *)
record security_config =
  sec_Enabled :: bool
  sec_AdminUsername :: string
  sec_AdminPassword :: string
  sec_ViewerUsername :: string
  sec_ViewerPassword :: string
  sec_TokenSecret :: string
  sec_TokenTTLMinutes :: int
  sec_AllowedLocalRoots :: "string list"
  sec_AllowedRemotes :: "string list"
  sec_MaxRequestBodyBytes :: int
  sec_LoginAttemptsPerMinute :: int
  sec_MetricsToken :: string

(* src/internal/config/config.go 111-118 MaintenanceConfig *)
record maintenance_settings =
  mnt_IntervalHours :: int
  mnt_UploadLogRetentionDays :: int
  mnt_TaskRetentionDays :: int
  mnt_ScanRunRetentionDays :: int
  mnt_AuditLogRetentionDays :: int
  mnt_DeleteBatchSize :: int

(* src/internal/config/config.go 16-26 Config *)
record config =
  cfg_Server :: server_config
  cfg_Database :: database_config
  cfg_Scan :: scan_config
  cfg_Worker :: worker_config
  cfg_Rclone :: rclone_config
  cfg_Log :: log_config
  cfg_Security :: security_config
  cfg_Maintenance :: maintenance_settings

text \<open>A name or the message the configuration is refused with.\<close>
datatype config_error =
    NotBoolean string
  | NotInteger string
  | DecodeConfig string
  | ReadConfig string
  | InvalidConfig string

type_synonym environment = "string \<Rightarrow> string"

subsection \<open>Reading values\<close>

text \<open>Non-ASCII letters lower to no letter of the words compared with, so ASCII lowering is enough.\<close>
(* src/internal/config/config.go 545-548 parseBool *)
definition parseBool :: "string \<Rightarrow> bool" where
  "parseBool s = (let v = TrimSpace (ToLower s) in v = ''1'' \<or> v = ''true'' \<or> v = ''yes'')"

(* src/internal/config/config.go 550-559 splitCSV *)
definition splitCSV :: "string \<Rightarrow> string list" where
  "splitCSV value = filter (\<lambda>item. item \<noteq> '''') (map TrimSpace (Split value (CHR '','')))"

definition env_string :: "environment \<Rightarrow> string \<Rightarrow> string \<Rightarrow> string" where
  "env_string env name old = (if env name \<noteq> '''' then env name else old)"

definition env_int :: "environment \<Rightarrow> string \<Rightarrow> int \<Rightarrow> int" where
  "env_int env name old =
     (if env name \<noteq> '''' then (case ParseInt (env name) of Some n \<Rightarrow> n | None \<Rightarrow> old) else old)"

definition env_bool :: "environment \<Rightarrow> string \<Rightarrow> bool \<Rightarrow> bool" where
  "env_bool env name old = (if env name \<noteq> '''' then parseBool (env name) else old)"

definition env_list :: "environment \<Rightarrow> string \<Rightarrow> string list \<Rightarrow> string list" where
  "env_list env name old = (if env name \<noteq> '''' then splitCSV (env name) else old)"

subsection \<open>Environment overrides\<close>

(* src/internal/config/config.go 161-218 applyEnvOverrides *)
definition database_overrides :: "environment \<Rightarrow> database_config \<Rightarrow> database_config" where
  "database_overrides env c = c\<lparr>
     dbc_Host := env_string env ''DB_HOST'' (dbc_Host c),
     dbc_Port := env_int env ''DB_PORT'' (dbc_Port c),
     dbc_User := env_string env ''DB_USER'' (dbc_User c),
     dbc_Password := env_string env ''DB_PASSWORD'' (dbc_Password c),
     dbc_DBName := env_string env ''DB_NAME'' (dbc_DBName c),
     dbc_Charset := env_string env ''DB_CHARSET'' (dbc_Charset c),
     dbc_MaxOpenConns := env_int env ''DB_MAX_OPEN_CONNS'' (dbc_MaxOpenConns c),
     dbc_MaxIdleConns := env_int env ''DB_MAX_IDLE_CONNS'' (dbc_MaxIdleConns c),
     dbc_ConnMaxIdleTimeMins := env_int env ''DB_CONN_MAX_IDLE_TIME_MINS'' (dbc_ConnMaxIdleTimeMins c),
     dbc_ConnMaxLifetimeMins := env_int env ''DB_CONN_MAX_LIFETIME_MINS'' (dbc_ConnMaxLifetimeMins c),
     dbc_ConnectTimeoutSecs := env_int env ''DB_CONNECT_TIMEOUT_SECONDS'' (dbc_ConnectTimeoutSecs c),
     dbc_ReadTimeoutSecs := env_int env ''DB_READ_TIMEOUT_SECONDS'' (dbc_ReadTimeoutSecs c),
     dbc_WriteTimeoutSecs := env_int env ''DB_WRITE_TIMEOUT_SECONDS'' (dbc_WriteTimeoutSecs c),
     dbc_TLS := env_string env ''DB_TLS'' (dbc_TLS c)\<rparr>"

(* src/internal/config/config.go 220-241 applyEnvOverrides *)
definition server_overrides :: "environment \<Rightarrow> server_config \<Rightarrow> server_config" where
  "server_overrides env c = c\<lparr>
     srv_Port := env_int env ''SERVER_PORT'' (srv_Port c),
     srv_Mode := env_string env ''SERVER_MODE'' (srv_Mode c),
     srv_WriteTimeoutSecs := env_int env ''SERVER_WRITE_TIMEOUT_SECONDS'' (srv_WriteTimeoutSecs c),
     srv_EmbedFrontend := env_bool env ''EMBED_FRONTEND'' (srv_EmbedFrontend c),
     srv_EnableSwagger := env_bool env ''ENABLE_SWAGGER'' (srv_EnableSwagger c),
     srv_TrustedProxies := env_list env ''TRUSTED_PROXIES'' (srv_TrustedProxies c)\<rparr>"

(* src/internal/config/config.go 243-282 applyEnvOverrides *)
definition scan_overrides :: "environment \<Rightarrow> scan_config \<Rightarrow> scan_config" where
  "scan_overrides env c = c\<lparr>
     scn_IntervalSeconds := env_int env ''SCAN_INTERVAL_SECONDS'' (scn_IntervalSeconds c),
     scn_WatchPollIntervalSeconds := env_int env ''SCAN_WATCH_POLL_INTERVAL_SECONDS'' (scn_WatchPollIntervalSeconds c),
     scn_FolderTimeoutSeconds := env_int env ''SCAN_FOLDER_TIMEOUT_SECONDS'' (scn_FolderTimeoutSeconds c),
     scn_FileStableSeconds := env_int env ''SCAN_FILE_STABLE_SECONDS'' (scn_FileStableSeconds c),
     scn_MaxConcurrentFolders := env_int env ''SCAN_MAX_CONCURRENT_FOLDERS'' (scn_MaxConcurrentFolders c),
     scn_BatchSize := env_int env ''SCAN_BATCH_SIZE'' (scn_BatchSize c),
     scn_LeaseSeconds := env_int env ''SCAN_LEASE_SECONDS'' (scn_LeaseSeconds c),
     scn_HeartbeatSeconds := env_int env ''SCAN_HEARTBEAT_SECONDS'' (scn_HeartbeatSeconds c)\<rparr>"

(* src/internal/config/config.go 284-336 applyEnvOverrides *)
definition worker_overrides :: "environment \<Rightarrow> worker_config \<Rightarrow> worker_config" where
  "worker_overrides env c = c\<lparr>
     wrk_MaxConcurrent := env_int env ''WORKER_MAX_CONCURRENT'' (wrk_MaxConcurrent c),
     wrk_MaxRetry := env_int env ''WORKER_MAX_RETRY'' (wrk_MaxRetry c),
     wrk_QueueSize := env_int env ''WORKER_QUEUE_SIZE'' (wrk_QueueSize c),
     wrk_PollIntervalMilliseconds := env_int env ''WORKER_POLL_INTERVAL_MILLISECONDS'' (wrk_PollIntervalMilliseconds c),
     wrk_LeaseSeconds := env_int env ''WORKER_LEASE_SECONDS'' (wrk_LeaseSeconds c),
     wrk_HeartbeatSeconds := env_int env ''WORKER_HEARTBEAT_SECONDS'' (wrk_HeartbeatSeconds c),
     wrk_TaskTimeoutSeconds := env_int env ''WORKER_TASK_TIMEOUT_SECONDS'' (wrk_TaskTimeoutSeconds c),
     wrk_RetryBaseSeconds := env_int env ''WORKER_RETRY_BASE_SECONDS'' (wrk_RetryBaseSeconds c),
     wrk_RetryMaxSeconds := env_int env ''WORKER_RETRY_MAX_SECONDS'' (wrk_RetryMaxSeconds c),
     wrk_ProgressPersistSeconds := env_int env ''WORKER_PROGRESS_PERSIST_SECONDS'' (wrk_ProgressPersistSeconds c),
     wrk_InstanceID := env_string env ''WORKER_INSTANCE_ID'' (wrk_InstanceID c)\<rparr>"

(* src/internal/config/config.go 338-340 applyEnvOverrides *)
definition rclone_overrides :: "environment \<Rightarrow> rclone_config \<Rightarrow> rclone_config" where
  "rclone_overrides env c = c\<lparr>
     rcl_BinPath := env_string env ''RCLONE_BIN_PATH'' (rcl_BinPath c)\<rparr>"

(* src/internal/config/config.go 342-347 applyEnvOverrides *)
definition log_overrides :: "environment \<Rightarrow> log_config \<Rightarrow> log_config" where
  "log_overrides env c = c\<lparr>
     lgc_Level := env_string env ''LOG_LEVEL'' (lgc_Level c),
     lgc_Format := env_string env ''LOG_FORMAT'' (lgc_Format c)\<rparr>"

(* src/internal/config/config.go 349-390 applyEnvOverrides *)
definition security_overrides :: "environment \<Rightarrow> security_config \<Rightarrow> security_config" where
  "security_overrides env c = c\<lparr>
     sec_Enabled := env_bool env ''AUTH_ENABLED'' (sec_Enabled c),
     sec_AdminUsername := env_string env ''AUTH_ADMIN_USERNAME'' (sec_AdminUsername c),
     sec_AdminPassword := env_string env ''AUTH_ADMIN_PASSWORD'' (sec_AdminPassword c),
     sec_ViewerUsername := env_string env ''AUTH_VIEWER_USERNAME'' (sec_ViewerUsername c),
     sec_ViewerPassword := env_string env ''AUTH_VIEWER_PASSWORD'' (sec_ViewerPassword c),
     sec_TokenSecret := env_string env ''AUTH_TOKEN_SECRET'' (sec_TokenSecret c),
     sec_TokenTTLMinutes := env_int env ''AUTH_TOKEN_TTL_MINUTES'' (sec_TokenTTLMinutes c),
     sec_AllowedLocalRoots := env_list env ''ALLOWED_LOCAL_ROOTS'' (sec_AllowedLocalRoots c),
     sec_AllowedRemotes := env_list env ''ALLOWED_RCLONE_REMOTES'' (sec_AllowedRemotes c),
     sec_MaxRequestBodyBytes := env_int env ''MAX_REQUEST_BODY_BYTES'' (sec_MaxRequestBodyBytes c),
     sec_LoginAttemptsPerMinute := env_int env ''LOGIN_ATTEMPTS_PER_MINUTE'' (sec_LoginAttemptsPerMinute c),
     sec_MetricsToken := env_string env ''METRICS_BEARER_TOKEN'' (sec_MetricsToken c)\<rparr>"

(* src/internal/config/config.go 391-420 applyEnvOverrides *)
definition maintenance_overrides :: "environment \<Rightarrow> maintenance_settings \<Rightarrow> maintenance_settings" where
  "maintenance_overrides env c = c\<lparr>
     mnt_IntervalHours := env_int env ''MAINTENANCE_INTERVAL_HOURS'' (mnt_IntervalHours c),
     mnt_UploadLogRetentionDays := env_int env ''UPLOAD_LOG_RETENTION_DAYS'' (mnt_UploadLogRetentionDays c),
     mnt_TaskRetentionDays := env_int env ''TASK_RETENTION_DAYS'' (mnt_TaskRetentionDays c),
     mnt_ScanRunRetentionDays := env_int env ''SCAN_RUN_RETENTION_DAYS'' (mnt_ScanRunRetentionDays c),
     mnt_AuditLogRetentionDays := env_int env ''AUDIT_LOG_RETENTION_DAYS'' (mnt_AuditLogRetentionDays c),
     mnt_DeleteBatchSize := env_int env ''MAINTENANCE_DELETE_BATCH_SIZE'' (mnt_DeleteBatchSize c)\<rparr>"

(* src/internal/config/config.go 157-421 applyEnvOverrides *)
definition applyEnvOverrides :: "environment \<Rightarrow> config \<Rightarrow> config" where
  "applyEnvOverrides env c = c\<lparr>
     cfg_Database := database_overrides env (cfg_Database c),
     cfg_Server := server_overrides env (cfg_Server c),
     cfg_Scan := scan_overrides env (cfg_Scan c),
     cfg_Worker := worker_overrides env (cfg_Worker c),
     cfg_Rclone := rclone_overrides env (cfg_Rclone c),
     cfg_Log := log_overrides env (cfg_Log c),
     cfg_Security := security_overrides env (cfg_Security c),
     cfg_Maintenance := maintenance_overrides env (cfg_Maintenance c)\<rparr>"

subsection \<open>Defaults\<close>

text \<open>\<open>if x == "" { x = d }\<close>.\<close>
definition or_text :: "string \<Rightarrow> string \<Rightarrow> string" where
  "or_text d x = (if x = '''' then d else x)"

definition or_zero :: "int \<Rightarrow> int \<Rightarrow> int" where
  "or_zero d x = (if x = 0 then d else x)"

(* src/internal/config/config.go 562-570 applyDefaults *)
definition server_defaults :: "server_config \<Rightarrow> server_config" where
  "server_defaults c = c\<lparr>
     srv_Port := or_zero 8080 (srv_Port c),
     srv_Mode := or_text ''release'' (srv_Mode c),
     srv_WriteTimeoutSecs := or_zero 900 (srv_WriteTimeoutSecs c)\<rparr>"

(* src/internal/config/config.go 572-604 applyDefaults *)
definition worker_defaults :: "worker_config \<Rightarrow> worker_config" where
  "worker_defaults c =
     (let lease = or_default 90 (wrk_LeaseSeconds c) in c\<lparr>
     wrk_MaxConcurrent := or_default 3 (wrk_MaxConcurrent c),
     wrk_MaxRetry := or_default 3 (wrk_MaxRetry c),
     wrk_QueueSize := or_default 1000 (wrk_QueueSize c),
     wrk_PollIntervalMilliseconds := or_default 1000 (wrk_PollIntervalMilliseconds c),
     wrk_LeaseSeconds := lease,
     wrk_HeartbeatSeconds := or_default 1 (or_default (go_div lease 3) (wrk_HeartbeatSeconds c)),
     wrk_TaskTimeoutSeconds := or_default (4 * 60 * 60) (wrk_TaskTimeoutSeconds c),
     wrk_RetryBaseSeconds := or_default 30 (wrk_RetryBaseSeconds c),
     wrk_RetryMaxSeconds := or_default (30 * 60) (wrk_RetryMaxSeconds c),
     wrk_ProgressPersistSeconds := or_default 2 (wrk_ProgressPersistSeconds c)\<rparr>)"

(* src/internal/config/config.go 605-607 applyDefaults *)
definition rclone_defaults :: "rclone_config \<Rightarrow> rclone_config" where
  "rclone_defaults c = c\<lparr>rcl_BinPath := or_text ''rclone'' (rcl_BinPath c)\<rparr>"

(* src/internal/config/config.go 608-631 applyDefaults *)
definition scan_defaults :: "scan_config \<Rightarrow> scan_config" where
  "scan_defaults c =
     (let lease = or_default 90 (scn_LeaseSeconds c) in c\<lparr>
     scn_IntervalSeconds := or_default 300 (scn_IntervalSeconds c),
     scn_WatchPollIntervalSeconds := or_default 30 (scn_WatchPollIntervalSeconds c),
     scn_FolderTimeoutSeconds := or_default 1800 (scn_FolderTimeoutSeconds c),
     scn_FileStableSeconds := or_zero 30 (scn_FileStableSeconds c),
     scn_MaxConcurrentFolders := or_default 2 (scn_MaxConcurrentFolders c),
     scn_BatchSize := or_default 500 (scn_BatchSize c),
     scn_LeaseSeconds := lease,
     scn_HeartbeatSeconds := or_default (go_div lease 3) (scn_HeartbeatSeconds c)\<rparr>)"

(* src/internal/config/config.go 632-637 applyDefaults *)
definition log_defaults :: "log_config \<Rightarrow> log_config" where
  "log_defaults c = c\<lparr>lgc_Level := or_text ''info'' (lgc_Level c), lgc_Format := or_text ''json'' (lgc_Format c)\<rparr>"

(* src/internal/config/config.go 638-664 applyDefaults *)
definition database_defaults :: "database_config \<Rightarrow> database_config" where
  "database_defaults c = c\<lparr>
     dbc_Port := or_zero 3306 (dbc_Port c),
     dbc_Charset := or_text ''utf8mb4'' (dbc_Charset c),
     dbc_MaxOpenConns := or_default 25 (dbc_MaxOpenConns c),
     dbc_MaxIdleConns := or_default 10 (dbc_MaxIdleConns c),
     dbc_ConnMaxIdleTimeMins := or_default 10 (dbc_ConnMaxIdleTimeMins c),
     dbc_ConnMaxLifetimeMins := or_default 30 (dbc_ConnMaxLifetimeMins c),
     dbc_ConnectTimeoutSecs := or_default 10 (dbc_ConnectTimeoutSecs c),
     dbc_ReadTimeoutSecs := or_default 30 (dbc_ReadTimeoutSecs c),
     dbc_WriteTimeoutSecs := or_default 30 (dbc_WriteTimeoutSecs c)\<rparr>"

(* src/internal/config/config.go 665-676 applyDefaults *)
definition security_defaults :: "security_config \<Rightarrow> security_config" where
  "security_defaults c = c\<lparr>
     sec_AdminUsername := or_text ''admin'' (sec_AdminUsername c),
     sec_TokenTTLMinutes := or_default (12 * 60) (sec_TokenTTLMinutes c),
     sec_MaxRequestBodyBytes := or_default (1024 * 1024) (sec_MaxRequestBodyBytes c),
     sec_LoginAttemptsPerMinute := or_default 10 (sec_LoginAttemptsPerMinute c)\<rparr>"

(* src/internal/config/config.go 677-694 applyDefaults *)
definition maintenance_defaults :: "maintenance_settings \<Rightarrow> maintenance_settings" where
  "maintenance_defaults c = c\<lparr>
     mnt_IntervalHours := or_default 24 (mnt_IntervalHours c),
     mnt_UploadLogRetentionDays := or_default 30 (mnt_UploadLogRetentionDays c),
     mnt_TaskRetentionDays := or_default 365 (mnt_TaskRetentionDays c),
     mnt_ScanRunRetentionDays := or_default 90 (mnt_ScanRunRetentionDays c),
     mnt_AuditLogRetentionDays := or_default 180 (mnt_AuditLogRetentionDays c),
     mnt_DeleteBatchSize := or_default 5000 (mnt_DeleteBatchSize c)\<rparr>"

(* src/internal/config/config.go 561-695 applyDefaults *)
definition applyDefaults :: "config \<Rightarrow> config" where
  "applyDefaults c = c\<lparr>
     cfg_Server := server_defaults (cfg_Server c),
     cfg_Worker := worker_defaults (cfg_Worker c),
     cfg_Rclone := rclone_defaults (cfg_Rclone c),
     cfg_Scan := scan_defaults (cfg_Scan c),
     cfg_Log := log_defaults (cfg_Log c),
     cfg_Database := database_defaults (cfg_Database c),
     cfg_Security := security_defaults (cfg_Security c),
     cfg_Maintenance := maintenance_defaults (cfg_Maintenance c)\<rparr>"

subsection \<open>Validation\<close>

text \<open>The checks of a section, in order, each with the message of the error it returns.\<close>
(* src/internal/config/config.go 425-449 Config.Validate *)
definition server_database_checks :: "server_config \<Rightarrow> database_config \<Rightarrow> (bool \<times> string) list" where
  "server_database_checks s d =
     [(srv_Port s < 1 \<or> srv_Port s > 65535, ''server.port must be between 1 and 65535''),
      (srv_Mode s \<noteq> ''debug'' \<and> srv_Mode s \<noteq> ''release'' \<and> srv_Mode s \<noteq> ''test'',
       ''server.mode must be debug, release, or test''),
      (srv_WriteTimeoutSecs s < 1 \<or> srv_WriteTimeoutSecs s > 3600,
       ''server.write_timeout_seconds must be between 1 and 3600''),
      (TrimSpace (dbc_Host d) = '''' \<or> TrimSpace (dbc_User d) = '''' \<or> TrimSpace (dbc_DBName d) = '''',
       ''database host, user, and dbname are required''),
      (srv_Mode s = ''release'' \<and> dbc_Password d = '''', ''database.password is required in release mode''),
      (dbc_MaxIdleConns d > dbc_MaxOpenConns d, ''database.max_idle_conns cannot exceed max_open_conns''),
      (dbc_MaxOpenConns d < 2, ''database.max_open_conns must be at least 2 so initial table creation can hold a dedicated advisory-lock connection''),
      (dbc_MaxOpenConns d > 500, ''database.max_open_conns cannot exceed 500''),
      (dbc_ConnectTimeoutSecs d > 3600 \<or> dbc_ReadTimeoutSecs d > 3600 \<or> dbc_WriteTimeoutSecs d > 3600,
       ''database connect/read/write timeouts cannot exceed 3600 seconds'')]"

(* src/internal/config/config.go 450-455 Config.Validate *)
definition maintenance_checks :: "maintenance_settings \<Rightarrow> (bool \<times> string) list" where
  "maintenance_checks m =
     [(mnt_TaskRetentionDays m \<le> mnt_UploadLogRetentionDays m,
       ''maintenance.task_retention_days must be longer than upload_log_retention_days''),
      (mnt_IntervalHours m > 24 * 7 \<or> mnt_UploadLogRetentionDays m > 36500 \<or> mnt_TaskRetentionDays m > 36500 \<or>
       mnt_ScanRunRetentionDays m > 36500 \<or> mnt_AuditLogRetentionDays m > 36500 \<or> mnt_DeleteBatchSize m > 100000,
       ''maintenance interval, retention, or batch size exceeds the supported limit'')]"

(* src/internal/config/config.go 456-470 Config.Validate *)
definition worker_checks :: "worker_config \<Rightarrow> (bool \<times> string) list" where
  "worker_checks w =
     [(wrk_MaxConcurrent w > 128, ''worker.max_concurrent cannot exceed 128''),
      (wrk_LeaseSeconds w > 86400 \<or> wrk_HeartbeatSeconds w > 86400 \<or> wrk_TaskTimeoutSeconds w > 7 * 24 * 60 * 60 \<or>
       wrk_PollIntervalMilliseconds w > 60000 \<or> wrk_ProgressPersistSeconds w > 300,
       ''worker timing value exceeds the supported limit''),
      (wrk_HeartbeatSeconds w \<le> 0 \<or> wrap64 (wrk_HeartbeatSeconds w * 2) \<ge> wrk_LeaseSeconds w,
       ''worker.heartbeat_seconds must be less than half of lease_seconds''),
      (wrk_RetryMaxSeconds w < wrk_RetryBaseSeconds w,
       ''worker.retry_max_seconds cannot be less than retry_base_seconds''),
      (wrk_RetryMaxSeconds w > 86400 \<or> wrk_MaxRetry w > 100,
       ''worker retry configuration exceeds the supported limit'')]"

(* src/internal/config/config.go 471-485 Config.Validate *)
definition scan_checks :: "scan_config \<Rightarrow> (bool \<times> string) list" where
  "scan_checks s =
     [(scn_WatchPollIntervalSeconds s > scn_FolderTimeoutSeconds s,
       ''scan.watch_poll_interval_seconds cannot exceed folder_timeout_seconds''),
      (scn_IntervalSeconds s > 7 * 24 * 60 * 60 \<or> scn_WatchPollIntervalSeconds s > 3600 \<or>
       scn_FolderTimeoutSeconds s > 7 * 24 * 60 * 60 \<or> scn_FileStableSeconds s < 0 \<or> scn_FileStableSeconds s > 86400 \<or>
       scn_LeaseSeconds s > 86400 \<or> scn_HeartbeatSeconds s > 86400,
       ''scan timing value exceeds the supported limit''),
      (scn_HeartbeatSeconds s \<le> 0 \<or> wrap64 (scn_HeartbeatSeconds s * 2) \<ge> scn_LeaseSeconds s,
       ''scan.heartbeat_seconds must be less than half of lease_seconds''),
      (scn_MaxConcurrentFolders s > 16, ''scan.max_concurrent_folders cannot exceed 16''),
      (scn_BatchSize s > 5000, ''scan.batch_size cannot exceed 5000'')]"

(* src/internal/config/config.go 486-507 Config.Validate *)
definition log_security_checks :: "rune_count \<Rightarrow> string \<Rightarrow> log_config \<Rightarrow> security_config \<Rightarrow> (bool \<times> string) list" where
  "log_security_checks runes mode l s =
     [(lgc_Level l \<noteq> ''debug'' \<and> lgc_Level l \<noteq> ''info'' \<and> lgc_Level l \<noteq> ''warn'' \<and> lgc_Level l \<noteq> ''error'',
       ''log.level must be debug, info, warn, or error''),
      (lgc_Format l \<noteq> ''json'' \<and> lgc_Format l \<noteq> ''console'', ''log.format must be json or console''),
      (sec_MetricsToken s \<noteq> '''' \<and> length (sec_MetricsToken s) < 32,
       ''METRICS_BEARER_TOKEN must contain at least 32 characters when configured''),
      (sec_TokenTTLMinutes s > 30 * 24 * 60 \<or> sec_MaxRequestBodyBytes s > 10 * 1024 * 1024 \<or> sec_LoginAttemptsPerMinute s > 1000,
       ''security token TTL, request body limit, or login rate limit exceeds the supported maximum''),
      (mode = ''release'' \<and> \<not> sec_Enabled s, ''authentication must be enabled in release mode''),
      (mode = ''release'' \<and> (runes (sec_AdminPassword s) < 8 \<or> length (sec_TokenSecret s) < 32),
       ''release mode requires an admin password of at least 8 characters and a token secret of at least 32 characters'')]"

definition config_checks :: "rune_count \<Rightarrow> config \<Rightarrow> (bool \<times> string) list" where
  "config_checks runes c =
     server_database_checks (cfg_Server c) (cfg_Database c) @ maintenance_checks (cfg_Maintenance c)
   @ worker_checks (cfg_Worker c) @ scan_checks (cfg_Scan c)
   @ log_security_checks runes (srv_Mode (cfg_Server c)) (cfg_Log c) (cfg_Security c)"

(* src/internal/config/config.go 423-509 Config.Validate *)
definition Validate_config :: "rune_count \<Rightarrow> config \<Rightarrow> string option" where
  "Validate_config runes c = map_option snd (find fst (config_checks runes c))"

definition booleanNames :: "string list" where
  "booleanNames = [''EMBED_FRONTEND'', ''ENABLE_SWAGGER'', ''AUTH_ENABLED'']"

(* src/internal/config/config.go 525-534 validateEnvironment *)
definition integerNames :: "string list" where
  "integerNames =
     [''DB_PORT'', ''DB_MAX_OPEN_CONNS'', ''DB_MAX_IDLE_CONNS'', ''DB_CONN_MAX_IDLE_TIME_MINS'', ''DB_CONN_MAX_LIFETIME_MINS'',
      ''DB_CONNECT_TIMEOUT_SECONDS'', ''DB_READ_TIMEOUT_SECONDS'', ''DB_WRITE_TIMEOUT_SECONDS'', ''SERVER_PORT'', ''SERVER_WRITE_TIMEOUT_SECONDS'',
      ''SCAN_INTERVAL_SECONDS'', ''SCAN_WATCH_POLL_INTERVAL_SECONDS'', ''SCAN_FOLDER_TIMEOUT_SECONDS'', ''SCAN_FILE_STABLE_SECONDS'',
      ''SCAN_MAX_CONCURRENT_FOLDERS'', ''SCAN_BATCH_SIZE'', ''SCAN_LEASE_SECONDS'', ''SCAN_HEARTBEAT_SECONDS'',
      ''WORKER_MAX_CONCURRENT'', ''WORKER_MAX_RETRY'', ''WORKER_QUEUE_SIZE'', ''WORKER_POLL_INTERVAL_MILLISECONDS'',
      ''WORKER_LEASE_SECONDS'', ''WORKER_HEARTBEAT_SECONDS'', ''WORKER_TASK_TIMEOUT_SECONDS'', ''WORKER_RETRY_BASE_SECONDS'',
      ''WORKER_RETRY_MAX_SECONDS'', ''WORKER_PROGRESS_PERSIST_SECONDS'', ''AUTH_TOKEN_TTL_MINUTES'', ''MAX_REQUEST_BODY_BYTES'',
      ''LOGIN_ATTEMPTS_PER_MINUTE'', ''MAINTENANCE_INTERVAL_HOURS'', ''UPLOAD_LOG_RETENTION_DAYS'', ''TASK_RETENTION_DAYS'', ''SCAN_RUN_RETENTION_DAYS'',
      ''AUDIT_LOG_RETENTION_DAYS'', ''MAINTENANCE_DELETE_BATCH_SIZE'']"

definition boolean_value :: "string \<Rightarrow> bool" where
  "boolean_value v =
     (let value = TrimSpace (ToLower v)
      in value = '''' \<or> value \<in> {''1'', ''0'', ''true'', ''false'', ''yes'', ''no''})"

definition integer_value :: "string \<Rightarrow> bool" where
  "integer_value v = (let value = TrimSpace v in value = '''' \<or> ParseInt value \<noteq> None)"

(* src/internal/config/config.go 511-543 validateEnvironment *)
definition validateEnvironment :: "environment \<Rightarrow> config_error option" where
  "validateEnvironment env =
     (case find (\<lambda>name. \<not> boolean_value (env name)) booleanNames of
        Some name \<Rightarrow> Some (NotBoolean name)
      | None \<Rightarrow> map_option NotInteger (find (\<lambda>name. \<not> integer_value (env name)) integerNames))"

subsection \<open>Loading\<close>

definition empty_config :: config where
  "empty_config =
     \<lparr>cfg_Server = \<lparr>srv_Port = 0, srv_Mode = '''', srv_EmbedFrontend = False, srv_WriteTimeoutSecs = 0, srv_TrustedProxies = [], srv_EnableSwagger = False\<rparr>,
      cfg_Database = \<lparr>dbc_Host = '''', dbc_Port = 0, dbc_User = '''', dbc_Password = '''', dbc_DBName = '''', dbc_Charset = '''',
        dbc_MaxOpenConns = 0, dbc_MaxIdleConns = 0, dbc_ConnMaxIdleTimeMins = 0, dbc_ConnMaxLifetimeMins = 0,
        dbc_ConnectTimeoutSecs = 0, dbc_ReadTimeoutSecs = 0, dbc_WriteTimeoutSecs = 0, dbc_TLS = ''''\<rparr>,
      cfg_Scan = \<lparr>scn_IntervalSeconds = 0, scn_WatchPollIntervalSeconds = 0, scn_FolderTimeoutSeconds = 0, scn_FileStableSeconds = 0,
        scn_MaxConcurrentFolders = 0, scn_BatchSize = 0, scn_LeaseSeconds = 0, scn_HeartbeatSeconds = 0\<rparr>,
      cfg_Worker = \<lparr>wrk_MaxConcurrent = 0, wrk_MaxRetry = 0, wrk_QueueSize = 0, wrk_PollIntervalMilliseconds = 0, wrk_LeaseSeconds = 0,
        wrk_HeartbeatSeconds = 0, wrk_TaskTimeoutSeconds = 0, wrk_RetryBaseSeconds = 0, wrk_RetryMaxSeconds = 0,
        wrk_ProgressPersistSeconds = 0, wrk_InstanceID = ''''\<rparr>,
      cfg_Rclone = \<lparr>rcl_BinPath = ''''\<rparr>,
      cfg_Log = \<lparr>lgc_Level = '''', lgc_Format = ''''\<rparr>,
      cfg_Security = \<lparr>sec_Enabled = False, sec_AdminUsername = '''', sec_AdminPassword = '''', sec_ViewerUsername = '''',
        sec_ViewerPassword = '''', sec_TokenSecret = '''', sec_TokenTTLMinutes = 0, sec_AllowedLocalRoots = [], sec_AllowedRemotes = [],
        sec_MaxRequestBodyBytes = 0, sec_LoginAttemptsPerMinute = 0, sec_MetricsToken = ''''\<rparr>,
      cfg_Maintenance = \<lparr>mnt_IntervalHours = 0, mnt_UploadLogRetentionDays = 0, mnt_TaskRetentionDays = 0, mnt_ScanRunRetentionDays = 0,
        mnt_AuditLogRetentionDays = 0, mnt_DeleteBatchSize = 0\<rparr>\<rparr>"

text \<open>The code returns the configuration together with the error; its only caller stops on the error.\<close>
definition finish_config :: "rune_count \<Rightarrow> environment \<Rightarrow> config \<Rightarrow> (config_error, config) result" where
  "finish_config runes env c0 =
     (let c = applyEnvOverrides env (applyDefaults c0)
      in case Validate_config runes c of Some e \<Rightarrow> Inl (InvalidConfig e) | None \<Rightarrow> Inr c)"

(* src/internal/config/config.go 146-155 LoadFromEnv *)
definition LoadFromEnv :: "rune_count \<Rightarrow> environment \<Rightarrow> (config_error, config) result" where
  "LoadFromEnv runes env =
     (case validateEnvironment env of Some e \<Rightarrow> Inl e | None \<Rightarrow> finish_config runes env empty_config)"

text \<open>What reading the file and decoding it, unknown fields refused, gives.\<close>
datatype config_file = FileAbsent | FileUnreadable | FileMalformed | FileDecoded config

(* src/internal/config/config.go 120-144 Load *)
definition Load_config :: "rune_count \<Rightarrow> environment \<Rightarrow> (string \<Rightarrow> config_file) \<Rightarrow> string \<Rightarrow> (config_error, config) result" where
  "Load_config runes env disk path =
     (case validateEnvironment env of
        Some e \<Rightarrow> Inl e
      | None \<Rightarrow>
          (if path \<noteq> '''' then
             (case disk path of
                FileDecoded c \<Rightarrow> finish_config runes env c
              | FileMalformed \<Rightarrow> Inl (DecodeConfig path)
              | FileUnreadable \<Rightarrow> Inl (ReadConfig path)
              | FileAbsent \<Rightarrow> LoadFromEnv runes env)
           else LoadFromEnv runes env))"

subsection \<open>Wiring\<close>

(* src/cmd/server/main.go 83-91 main *)
definition auth_settings :: "config \<Rightarrow> auth_config" where
  "auth_settings c =
     (let s = cfg_Security c in
      \<lparr>ac_Enabled = sec_Enabled s,
       ac_AdminUsername = sec_AdminUsername s,
       ac_AdminPassword = sec_AdminPassword s,
       ac_ViewerUsername = sec_ViewerUsername s,
       ac_ViewerPassword = sec_ViewerPassword s,
       ac_TokenSecret = sec_TokenSecret s,
       ac_TokenTTL = wrap64 (sec_TokenTTLMinutes s * minute)\<rparr>)"

(* src/cmd/server/main.go 187-200 main *)
definition queue_settings :: "resource_policy option \<Rightarrow> config \<Rightarrow> queue_config" where
  "queue_settings policy c =
     (let w = cfg_Worker c in
      \<lparr>qc_MaxConcurrent = wrk_MaxConcurrent w,
       qc_MaxRetry = wrk_MaxRetry w,
       qc_PollInterval = wrap64 (wrk_PollIntervalMilliseconds w * 1000000),
       qc_LeaseDuration = wrap64 (wrk_LeaseSeconds w * second),
       qc_HeartbeatInterval = wrap64 (wrk_HeartbeatSeconds w * second),
       qc_TaskTimeout = wrap64 (wrk_TaskTimeoutSeconds w * second),
       qc_RetryBaseDelay = wrap64 (wrk_RetryBaseSeconds w * second),
       qc_RetryMaxDelay = wrap64 (wrk_RetryMaxSeconds w * second),
       qc_ProgressPersistInterval = wrap64 (wrk_ProgressPersistSeconds w * second),
       qc_InstanceID = wrk_InstanceID w,
       qc_ResourcePolicy = policy\<rparr>)"

(* src/cmd/server/main.go 206-218 main *)
definition watch_scanner_settings :: "resource_policy option \<Rightarrow> config \<Rightarrow> scanner_config" where
  "watch_scanner_settings policy c =
     (let s = cfg_Scan c in
      \<lparr>wc_PollInterval = wrap64 (scn_WatchPollIntervalSeconds s * second),
       wc_DefaultInterval = wrap64 (scn_IntervalSeconds s * second),
       wc_FolderTimeout = wrap64 (scn_FolderTimeoutSeconds s * second),
       wc_FileStablePeriod = wrap64 (scn_FileStableSeconds s * second),
       wc_MaxConcurrent = scn_MaxConcurrentFolders s,
       wc_BatchSize = scn_BatchSize s,
       wc_InstanceID = wrk_InstanceID (cfg_Worker c),
       wc_LeaseDuration = wrap64 (scn_LeaseSeconds s * second),
       wc_Heartbeat = wrap64 (scn_HeartbeatSeconds s * second),
       wc_ResourcePolicy = policy\<rparr>)"

(* src/cmd/server/main.go 219-228 main *)
definition route_scanner_settings :: "resource_policy option \<Rightarrow> config \<Rightarrow> route_config" where
  "route_scanner_settings policy c =
     (let s = cfg_Scan c in
      \<lparr>rg_PollInterval = wrap64 (scn_WatchPollIntervalSeconds s * second),
       rg_RouteTimeout = wrap64 (scn_FolderTimeoutSeconds s * second),
       rg_MaxConcurrent = scn_MaxConcurrentFolders s,
       rg_BatchSize = scn_BatchSize s,
       rg_InstanceID = wrk_InstanceID (cfg_Worker c),
       rg_LeaseDuration = wrap64 (scn_LeaseSeconds s * second),
       rg_Heartbeat = wrap64 (scn_HeartbeatSeconds s * second),
       rg_Policy = policy\<rparr>)"

(* src/cmd/server/main.go 247-254 main *)
definition maintenance_service_settings :: "config \<Rightarrow> maintenance_config" where
  "maintenance_service_settings c =
     (let m = cfg_Maintenance c in
      \<lparr>mcf_Interval = wrap64 (mnt_IntervalHours m * hour),
       mcf_UploadLogRetention = wrap64 (wrap64 (mnt_UploadLogRetentionDays m * 24) * hour),
       mcf_TaskRetention = wrap64 (wrap64 (mnt_TaskRetentionDays m * 24) * hour),
       mcf_ScanRunRetention = wrap64 (wrap64 (mnt_ScanRunRetentionDays m * 24) * hour),
       mcf_AuditLogRetention = wrap64 (wrap64 (mnt_AuditLogRetentionDays m * 24) * hour),
       mcf_DeleteBatchSize = mnt_DeleteBatchSize m\<rparr>)"

subsection \<open>A configuration as an environment\<close>

text \<open>The variables that set every field of a configuration.\<close>

definition show_bool :: "bool \<Rightarrow> string" where
  "show_bool b = (if b then ''true'' else ''false'')"

definition database_entries :: "database_config \<Rightarrow> (string \<times> string) list" where
  "database_entries c =
     [(''DB_HOST'', dbc_Host c),
      (''DB_PORT'', show_int (dbc_Port c)),
      (''DB_USER'', dbc_User c),
      (''DB_PASSWORD'', dbc_Password c),
      (''DB_NAME'', dbc_DBName c),
      (''DB_CHARSET'', dbc_Charset c),
      (''DB_MAX_OPEN_CONNS'', show_int (dbc_MaxOpenConns c)),
      (''DB_MAX_IDLE_CONNS'', show_int (dbc_MaxIdleConns c)),
      (''DB_CONN_MAX_IDLE_TIME_MINS'', show_int (dbc_ConnMaxIdleTimeMins c)),
      (''DB_CONN_MAX_LIFETIME_MINS'', show_int (dbc_ConnMaxLifetimeMins c)),
      (''DB_CONNECT_TIMEOUT_SECONDS'', show_int (dbc_ConnectTimeoutSecs c)),
      (''DB_READ_TIMEOUT_SECONDS'', show_int (dbc_ReadTimeoutSecs c)),
      (''DB_WRITE_TIMEOUT_SECONDS'', show_int (dbc_WriteTimeoutSecs c)),
      (''DB_TLS'', dbc_TLS c)]"

definition server_entries :: "server_config \<Rightarrow> (string \<times> string) list" where
  "server_entries c =
     [(''SERVER_PORT'', show_int (srv_Port c)),
      (''SERVER_MODE'', srv_Mode c),
      (''SERVER_WRITE_TIMEOUT_SECONDS'', show_int (srv_WriteTimeoutSecs c)),
      (''EMBED_FRONTEND'', show_bool (srv_EmbedFrontend c)),
      (''ENABLE_SWAGGER'', show_bool (srv_EnableSwagger c)),
      (''TRUSTED_PROXIES'', Join (srv_TrustedProxies c) (CHR '',''))]"

definition scan_entries :: "scan_config \<Rightarrow> (string \<times> string) list" where
  "scan_entries c =
     [(''SCAN_INTERVAL_SECONDS'', show_int (scn_IntervalSeconds c)),
      (''SCAN_WATCH_POLL_INTERVAL_SECONDS'', show_int (scn_WatchPollIntervalSeconds c)),
      (''SCAN_FOLDER_TIMEOUT_SECONDS'', show_int (scn_FolderTimeoutSeconds c)),
      (''SCAN_FILE_STABLE_SECONDS'', show_int (scn_FileStableSeconds c)),
      (''SCAN_MAX_CONCURRENT_FOLDERS'', show_int (scn_MaxConcurrentFolders c)),
      (''SCAN_BATCH_SIZE'', show_int (scn_BatchSize c)),
      (''SCAN_LEASE_SECONDS'', show_int (scn_LeaseSeconds c)),
      (''SCAN_HEARTBEAT_SECONDS'', show_int (scn_HeartbeatSeconds c))]"

definition worker_entries :: "worker_config \<Rightarrow> (string \<times> string) list" where
  "worker_entries c =
     [(''WORKER_MAX_CONCURRENT'', show_int (wrk_MaxConcurrent c)),
      (''WORKER_MAX_RETRY'', show_int (wrk_MaxRetry c)),
      (''WORKER_QUEUE_SIZE'', show_int (wrk_QueueSize c)),
      (''WORKER_POLL_INTERVAL_MILLISECONDS'', show_int (wrk_PollIntervalMilliseconds c)),
      (''WORKER_LEASE_SECONDS'', show_int (wrk_LeaseSeconds c)),
      (''WORKER_HEARTBEAT_SECONDS'', show_int (wrk_HeartbeatSeconds c)),
      (''WORKER_TASK_TIMEOUT_SECONDS'', show_int (wrk_TaskTimeoutSeconds c)),
      (''WORKER_RETRY_BASE_SECONDS'', show_int (wrk_RetryBaseSeconds c)),
      (''WORKER_RETRY_MAX_SECONDS'', show_int (wrk_RetryMaxSeconds c)),
      (''WORKER_PROGRESS_PERSIST_SECONDS'', show_int (wrk_ProgressPersistSeconds c)),
      (''WORKER_INSTANCE_ID'', wrk_InstanceID c)]"

definition rclone_entries :: "rclone_config \<Rightarrow> (string \<times> string) list" where
  "rclone_entries c =
     [(''RCLONE_BIN_PATH'', rcl_BinPath c)]"

definition log_entries :: "log_config \<Rightarrow> (string \<times> string) list" where
  "log_entries c =
     [(''LOG_LEVEL'', lgc_Level c),
      (''LOG_FORMAT'', lgc_Format c)]"

definition security_entries :: "security_config \<Rightarrow> (string \<times> string) list" where
  "security_entries c =
     [(''AUTH_ENABLED'', show_bool (sec_Enabled c)),
      (''AUTH_ADMIN_USERNAME'', sec_AdminUsername c),
      (''AUTH_ADMIN_PASSWORD'', sec_AdminPassword c),
      (''AUTH_VIEWER_USERNAME'', sec_ViewerUsername c),
      (''AUTH_VIEWER_PASSWORD'', sec_ViewerPassword c),
      (''AUTH_TOKEN_SECRET'', sec_TokenSecret c),
      (''AUTH_TOKEN_TTL_MINUTES'', show_int (sec_TokenTTLMinutes c)),
      (''ALLOWED_LOCAL_ROOTS'', Join (sec_AllowedLocalRoots c) (CHR '','')),
      (''ALLOWED_RCLONE_REMOTES'', Join (sec_AllowedRemotes c) (CHR '','')),
      (''MAX_REQUEST_BODY_BYTES'', show_int (sec_MaxRequestBodyBytes c)),
      (''LOGIN_ATTEMPTS_PER_MINUTE'', show_int (sec_LoginAttemptsPerMinute c)),
      (''METRICS_BEARER_TOKEN'', sec_MetricsToken c)]"

definition maintenance_entries :: "maintenance_settings \<Rightarrow> (string \<times> string) list" where
  "maintenance_entries c =
     [(''MAINTENANCE_INTERVAL_HOURS'', show_int (mnt_IntervalHours c)),
      (''UPLOAD_LOG_RETENTION_DAYS'', show_int (mnt_UploadLogRetentionDays c)),
      (''TASK_RETENTION_DAYS'', show_int (mnt_TaskRetentionDays c)),
      (''SCAN_RUN_RETENTION_DAYS'', show_int (mnt_ScanRunRetentionDays c)),
      (''AUDIT_LOG_RETENTION_DAYS'', show_int (mnt_AuditLogRetentionDays c)),
      (''MAINTENANCE_DELETE_BATCH_SIZE'', show_int (mnt_DeleteBatchSize c))]"

definition environment_of :: "config \<Rightarrow> (string \<times> string) list" where
  "environment_of c =
     database_entries (cfg_Database c) @ server_entries (cfg_Server c) @ scan_entries (cfg_Scan c)
   @ worker_entries (cfg_Worker c) @ rclone_entries (cfg_Rclone c) @ log_entries (cfg_Log c)
   @ security_entries (cfg_Security c) @ maintenance_entries (cfg_Maintenance c)"

definition getenv :: "(string \<times> string) list \<Rightarrow> environment" where
  "getenv es name = (case map_of es name of Some v \<Rightarrow> v | None \<Rightarrow> '''')"

text \<open>
  What variables can express: numbers of 64 bits, list items without commas and surrounding space, and
  no empty text where the empty text means the default.
\<close>

definition plain_items :: "string list \<Rightarrow> bool" where
  "plain_items xs \<longleftrightarrow> list_all (\<lambda>x. x \<noteq> '''' \<and> TrimSpace x = x \<and> CHR '','' \<notin> set x) xs"

definition expressible_database :: "database_config \<Rightarrow> bool" where
  "expressible_database c \<longleftrightarrow>
     list_all in_int64
       [dbc_Port c, dbc_MaxOpenConns c, dbc_MaxIdleConns c, dbc_ConnMaxIdleTimeMins c,
        dbc_ConnMaxLifetimeMins c, dbc_ConnectTimeoutSecs c, dbc_ReadTimeoutSecs c, dbc_WriteTimeoutSecs c] \<and>
     dbc_Charset c \<noteq> ''''"

definition expressible_server :: "server_config \<Rightarrow> bool" where
  "expressible_server c \<longleftrightarrow>
     list_all in_int64
       [srv_Port c, srv_WriteTimeoutSecs c] \<and>
     srv_Mode c \<noteq> '''' \<and>
     plain_items (srv_TrustedProxies c)"

definition expressible_scan :: "scan_config \<Rightarrow> bool" where
  "expressible_scan c \<longleftrightarrow>
     list_all in_int64
       [scn_IntervalSeconds c, scn_WatchPollIntervalSeconds c, scn_FolderTimeoutSeconds c,
        scn_FileStableSeconds c, scn_MaxConcurrentFolders c, scn_BatchSize c, scn_LeaseSeconds c,
        scn_HeartbeatSeconds c]"

definition expressible_worker :: "worker_config \<Rightarrow> bool" where
  "expressible_worker c \<longleftrightarrow>
     list_all in_int64
       [wrk_MaxConcurrent c, wrk_MaxRetry c, wrk_QueueSize c, wrk_PollIntervalMilliseconds c,
        wrk_LeaseSeconds c, wrk_HeartbeatSeconds c, wrk_TaskTimeoutSeconds c, wrk_RetryBaseSeconds c,
        wrk_RetryMaxSeconds c, wrk_ProgressPersistSeconds c]"

definition expressible_rclone :: "rclone_config \<Rightarrow> bool" where
  "expressible_rclone c \<longleftrightarrow>
     rcl_BinPath c \<noteq> ''''"

definition expressible_log :: "log_config \<Rightarrow> bool" where
  "expressible_log c \<longleftrightarrow>
     lgc_Level c \<noteq> '''' \<and>
     lgc_Format c \<noteq> ''''"

definition expressible_security :: "security_config \<Rightarrow> bool" where
  "expressible_security c \<longleftrightarrow>
     list_all in_int64
       [sec_TokenTTLMinutes c, sec_MaxRequestBodyBytes c, sec_LoginAttemptsPerMinute c] \<and>
     sec_AdminUsername c \<noteq> '''' \<and>
     plain_items (sec_AllowedLocalRoots c) \<and>
     plain_items (sec_AllowedRemotes c)"

definition expressible_maintenance :: "maintenance_settings \<Rightarrow> bool" where
  "expressible_maintenance c \<longleftrightarrow>
     list_all in_int64
       [mnt_IntervalHours c, mnt_UploadLogRetentionDays c, mnt_TaskRetentionDays c,
        mnt_ScanRunRetentionDays c, mnt_AuditLogRetentionDays c, mnt_DeleteBatchSize c]"

definition expressible :: "config \<Rightarrow> bool" where
  "expressible c \<longleftrightarrow>
     expressible_database (cfg_Database c) \<and>
     expressible_server (cfg_Server c) \<and>
     expressible_scan (cfg_Scan c) \<and>
     expressible_worker (cfg_Worker c) \<and>
     expressible_rclone (cfg_Rclone c) \<and>
     expressible_log (cfg_Log c) \<and>
     expressible_security (cfg_Security c) \<and>
     expressible_maintenance (cfg_Maintenance c)"

lemma splitCSV_Join: "plain_items xs \<Longrightarrow> xs \<noteq> [] \<Longrightarrow> splitCSV (Join xs (CHR '','')) = xs"
proof -
  assume p: "plain_items xs" and ne: "xs \<noteq> []"
  have "Split (Join xs (CHR '','')) (CHR '','') = xs"
    using p ne by (intro Split_Join) (auto simp: plain_items_def list_all_iff)
  moreover have "map TrimSpace xs = xs"
    using p by (intro map_idI) (auto simp: plain_items_def list_all_iff)
  moreover have "filter (\<lambda>x. x \<noteq> '''') xs = xs"
    using p by (intro filter_True) (auto simp: plain_items_def list_all_iff)
  ultimately show ?thesis by (simp add: splitCSV_def)
qed

lemma Join_plain_empty: "plain_items xs \<Longrightarrow> Join xs (CHR '','') = '''' \<longleftrightarrow> xs = []"
  by (cases xs rule: remdups_adj.cases) (auto simp: plain_items_def)

lemma env_value:
  "env n = v \<Longrightarrow> v \<noteq> '''' \<or> d = '''' \<Longrightarrow> env_string env n d = v"
  "env n = show_int i \<Longrightarrow> in_int64 i \<Longrightarrow> env_int env n e = i"
  "env n = show_bool b \<Longrightarrow> env_bool env n f = b"
  "env n = Join xs (CHR '','') \<Longrightarrow> plain_items xs \<Longrightarrow> env_list env n [] = xs"
proof -
  show "env n = v \<Longrightarrow> v \<noteq> '''' \<or> d = '''' \<Longrightarrow> env_string env n d = v" by (auto simp: env_string_def)
  show "env n = show_int i \<Longrightarrow> in_int64 i \<Longrightarrow> env_int env n e = i" by (simp add: env_int_def)
  have "parseBool ''true''" "\<not> parseBool ''false''"
    by (simp_all add: parseBool_def ToLower_def to_lower_byte_def TrimSpace_printable printable_def)
  then show "env n = show_bool b \<Longrightarrow> env_bool env n f = b" by (simp add: env_bool_def show_bool_def)
  show "env n = Join xs (CHR '','') \<Longrightarrow> plain_items xs \<Longrightarrow> env_list env n [] = xs"
    by (auto simp: env_list_def Join_plain_empty splitCSV_Join)
qed

lemma database_expressed:
  "list_all (\<lambda>(k, v). env k = v) (database_entries c) \<Longrightarrow> expressible_database c \<Longrightarrow>
   database_overrides env (database_defaults (cfg_Database empty_config)) = c"
  by (cases c) (simp add: database_entries_def expressible_database_def database_overrides_def database_defaults_def
    empty_config_def plain_items_def env_value Let_def or_text_def)

lemma server_expressed:
  "list_all (\<lambda>(k, v). env k = v) (server_entries c) \<Longrightarrow> expressible_server c \<Longrightarrow>
   server_overrides env (server_defaults (cfg_Server empty_config)) = c"
  by (cases c) (simp add: server_entries_def expressible_server_def server_overrides_def server_defaults_def
    empty_config_def plain_items_def env_value Let_def or_text_def)

lemma scan_expressed:
  "list_all (\<lambda>(k, v). env k = v) (scan_entries c) \<Longrightarrow> expressible_scan c \<Longrightarrow>
   scan_overrides env (scan_defaults (cfg_Scan empty_config)) = c"
  by (cases c) (simp add: scan_entries_def expressible_scan_def scan_overrides_def scan_defaults_def
    empty_config_def plain_items_def env_value Let_def or_text_def)

lemma worker_expressed:
  "list_all (\<lambda>(k, v). env k = v) (worker_entries c) \<Longrightarrow> expressible_worker c \<Longrightarrow>
   worker_overrides env (worker_defaults (cfg_Worker empty_config)) = c"
  by (cases c) (simp add: worker_entries_def expressible_worker_def worker_overrides_def worker_defaults_def
    empty_config_def plain_items_def env_value Let_def or_text_def)

lemma rclone_expressed:
  "list_all (\<lambda>(k, v). env k = v) (rclone_entries c) \<Longrightarrow> expressible_rclone c \<Longrightarrow>
   rclone_overrides env (rclone_defaults (cfg_Rclone empty_config)) = c"
  by (cases c) (simp add: rclone_entries_def expressible_rclone_def rclone_overrides_def rclone_defaults_def
    empty_config_def plain_items_def env_value Let_def or_text_def)

lemma log_expressed:
  "list_all (\<lambda>(k, v). env k = v) (log_entries c) \<Longrightarrow> expressible_log c \<Longrightarrow>
   log_overrides env (log_defaults (cfg_Log empty_config)) = c"
  by (cases c) (simp add: log_entries_def expressible_log_def log_overrides_def log_defaults_def
    empty_config_def plain_items_def env_value Let_def or_text_def)

lemma security_expressed:
  "list_all (\<lambda>(k, v). env k = v) (security_entries c) \<Longrightarrow> expressible_security c \<Longrightarrow>
   security_overrides env (security_defaults (cfg_Security empty_config)) = c"
  by (cases c) (simp add: security_entries_def expressible_security_def security_overrides_def security_defaults_def
    empty_config_def plain_items_def env_value Let_def or_text_def)

lemma maintenance_expressed:
  "list_all (\<lambda>(k, v). env k = v) (maintenance_entries c) \<Longrightarrow> expressible_maintenance c \<Longrightarrow>
   maintenance_overrides env (maintenance_defaults (cfg_Maintenance empty_config)) = c"
  by (cases c) (simp add: maintenance_entries_def expressible_maintenance_def maintenance_overrides_def maintenance_defaults_def
    empty_config_def plain_items_def env_value Let_def or_text_def)

lemma accepted_values: "boolean_value (show_bool b)" "in_int64 i \<Longrightarrow> integer_value (show_int i)"
proof -
  have "boolean_value ''true''" "boolean_value ''false''"
    by (simp_all add: boolean_value_def ToLower_def to_lower_byte_def TrimSpace_printable printable_def)
  then show "boolean_value (show_bool b)" by (simp add: show_bool_def)
qed (simp add: integer_value_def)

lemma environment_accepted:
  assumes "list_all (\<lambda>(k, v). env k = v) (environment_of c)" "expressible c"
  shows "validateEnvironment env = None"
proof -
  note e = assms(1)[unfolded environment_of_def database_entries_def server_entries_def scan_entries_def
      worker_entries_def security_entries_def maintenance_entries_def]
  note i = assms(2)[unfolded expressible_def expressible_database_def expressible_server_def expressible_scan_def
      expressible_worker_def expressible_security_def expressible_maintenance_def]
  have "list_all (\<lambda>n. boolean_value (env n)) booleanNames"
    using e by (simp add: booleanNames_def accepted_values)
  then have "find (\<lambda>name. \<not> boolean_value (env name)) booleanNames = None"
    by (auto simp: find_None_iff list_all_iff)
  moreover have "list_all (\<lambda>n. integer_value (env n)) integerNames"
    using e i by (simp add: integerNames_def accepted_values)
  then have "find (\<lambda>name. \<not> integer_value (env name)) integerNames = None"
    by (auto simp: find_None_iff list_all_iff)
  ultimately show ?thesis by (simp add: validateEnvironment_def)
qed

lemma finish_config_expressed:
  assumes "list_all (\<lambda>(k, v). env k = v) (environment_of c)" "expressible c" "Validate_config runes c = None"
  shows "finish_config runes env empty_config = Inr c"
proof -
  have "applyEnvOverrides env (applyDefaults empty_config) = c"
    using assms(1,2) unfolding environment_of_def expressible_def
    by (cases c) (simp add: applyEnvOverrides_def applyDefaults_def database_expressed server_expressed scan_expressed
      worker_expressed rclone_expressed log_expressed security_expressed maintenance_expressed)
  then show ?thesis using assms(3) by (simp add: finish_config_def Let_def)
qed

lemma expressed_loads:
  assumes "list_all (\<lambda>(k, v). env k = v) (environment_of c)" "expressible c" "Validate_config runes c = None"
  shows "Load_config runes env (\<lambda>_. FileAbsent) path = Inr c"
  by (simp add: Load_config_def LoadFromEnv_def environment_accepted[OF assms(1,2)] finish_config_expressed[OF assms])

text \<open>
  C22: Every configuration that validation accepts can be given by the environment alone: when each of
  its fields is written to the variable of that field, whatever else the environment holds, loading
  without a file, from any path, gives back exactly this configuration.
\<close>
theorem environment_roundtrip:
  assumes "\<And>k v. (k, v) \<in> set (environment_of c) \<Longrightarrow> env k = v"
    and "expressible c" "Validate_config runes c = None"
  shows "Load_config runes env (\<lambda>_. FileAbsent) path = Inr c"
  using assms by (intro expressed_loads) (auto simp: list_all_iff)

definition sample_settings :: config where
  "sample_settings =
     \<lparr>cfg_Server = \<lparr>srv_Port = 8080, srv_Mode = ''release'', srv_EmbedFrontend = True, srv_WriteTimeoutSecs = 900,
        srv_TrustedProxies = [''10.0.0.0/8'', ''::1''], srv_EnableSwagger = False\<rparr>,
      cfg_Database = \<lparr>dbc_Host = ''db'', dbc_Port = 3306, dbc_User = ''hub'', dbc_Password = ''pw'', dbc_DBName = ''hub'',
        dbc_Charset = ''utf8mb4'', dbc_MaxOpenConns = 25, dbc_MaxIdleConns = 10, dbc_ConnMaxIdleTimeMins = 10,
        dbc_ConnMaxLifetimeMins = 30, dbc_ConnectTimeoutSecs = 10, dbc_ReadTimeoutSecs = 30, dbc_WriteTimeoutSecs = 30,
        dbc_TLS = ''''\<rparr>,
      cfg_Scan = \<lparr>scn_IntervalSeconds = 300, scn_WatchPollIntervalSeconds = 30, scn_FolderTimeoutSeconds = 1800,
        scn_FileStableSeconds = 0, scn_MaxConcurrentFolders = 2, scn_BatchSize = 500, scn_LeaseSeconds = 90,
        scn_HeartbeatSeconds = 30\<rparr>,
      cfg_Worker = \<lparr>wrk_MaxConcurrent = 3, wrk_MaxRetry = 0, wrk_QueueSize = 1000, wrk_PollIntervalMilliseconds = 1000,
        wrk_LeaseSeconds = 90, wrk_HeartbeatSeconds = 44, wrk_TaskTimeoutSeconds = 14400, wrk_RetryBaseSeconds = 30,
        wrk_RetryMaxSeconds = 1800, wrk_ProgressPersistSeconds = 2, wrk_InstanceID = ''''\<rparr>,
      cfg_Rclone = \<lparr>rcl_BinPath = ''rclone''\<rparr>,
      cfg_Log = \<lparr>lgc_Level = ''warn'', lgc_Format = ''json''\<rparr>,
      cfg_Security = \<lparr>sec_Enabled = True, sec_AdminUsername = ''admin'', sec_AdminPassword = ''password'',
        sec_ViewerUsername = '''', sec_ViewerPassword = '''', sec_TokenSecret = ''0123456789abcdef0123456789abcdef'',
        sec_TokenTTLMinutes = 720, sec_AllowedLocalRoots = [''/data''], sec_AllowedRemotes = [],
        sec_MaxRequestBodyBytes = 1048576, sec_LoginAttemptsPerMinute = 10, sec_MetricsToken = ''''\<rparr>,
      cfg_Maintenance = \<lparr>mnt_IntervalHours = 24, mnt_UploadLogRetentionDays = 30, mnt_TaskRetentionDays = 365,
        mnt_ScanRunRetentionDays = 90, mnt_AuditLogRetentionDays = 180, mnt_DeleteBatchSize = 5000\<rparr>\<rparr>"

lemma sample_settings_expressible: "expressible sample_settings"
  by (simp add: expressible_def expressible_database_def expressible_server_def expressible_scan_def
      expressible_worker_def expressible_rclone_def expressible_log_def expressible_security_def
      expressible_maintenance_def sample_settings_def plain_items_def in_int64_def TrimSpace_printable printable_def)

lemma sample_settings_valid: "Validate_config length sample_settings = None"
  by (simp add: Validate_config_def config_checks_def server_database_checks_def maintenance_checks_def worker_checks_def
      scan_checks_def log_security_checks_def sample_settings_def TrimSpace_printable printable_def wrap64_id in_int64_def)

lemma sample_settings_names: "distinct (map fst (environment_of sample_settings))"
  by (simp add: environment_of_def database_entries_def server_entries_def scan_entries_def worker_entries_def
      rclone_entries_def log_entries_def security_entries_def maintenance_entries_def)

lemma sample_environment: "(k, v) \<in> set (environment_of sample_settings) \<Longrightarrow> getenv (environment_of sample_settings) k = v"
  using sample_settings_names by (simp add: getenv_def map_of_is_SomeI)

theorem environment_roundtrip_witness:
  "Load_config length (getenv (environment_of sample_settings)) (\<lambda>_. FileAbsent) ''config.yaml'' = Inr sample_settings"
  by (rule environment_roundtrip[OF sample_environment sample_settings_expressible sample_settings_valid])

text \<open>
  Validation reads numbers and Booleans with the surrounding space cut off, the overrides read them as
  they are: a number with a space is accepted and ignored, a blank Boolean is accepted and is false.
\<close>
theorem spaced_values:
  "integer_value '' 5'' \<and> env_int (\<lambda>_. '' 5'') name 3 = 3 \<and> boolean_value '' '' \<and> \<not> env_bool (\<lambda>_. '' '') name True"
proof -
  have "integer_value '' 5'' \<and> ParseInt '' 5'' = None \<and> boolean_value '' '' \<and> \<not> parseBool '' ''" by code_simp
  then show ?thesis by (simp add: env_int_def env_bool_def)
qed

subsection \<open>What an accepted configuration guarantees\<close>

lemma Load_config_valid:
  assumes "Load_config runes env disk path = Inr c"
  shows "Validate_config runes c = None"
  using assms by (auto simp: Load_config_def LoadFromEnv_def finish_config_def Let_def split: option.splits if_splits config_file.splits)

lemma Validate_config_checks: "Validate_config runes c = None \<Longrightarrow> x \<in> set (config_checks runes c) \<Longrightarrow> \<not> fst x"
  by (cases x) (auto simp: Validate_config_def find_None_iff)

lemma seconds_exact: "0 < n \<Longrightarrow> n \<le> 86400 \<Longrightarrow> wrap64 (n * second) = n * second"
  by (rule wrap64_id) (simp add: in_int64_def second_def)

lemma valid_lease:
  assumes "\<not> (h \<le> 0 \<or> wrap64 (h * 2) \<ge> l)" "\<not> l > 86400" "\<not> h > 86400"
  shows "0 < h" "2 * h < l" "wrap64 (l * second) = l * second" "wrap64 (h * second) = h * second"
    "wrap64 (h * second * 2) = 2 * h * second" "\<not> 2 * h * second \<ge> l * second"
proof -
  show h: "0 < h" using assms by simp
  have "wrap64 (h * 2) = h * 2" using assms h by (intro wrap64_id) (simp add: in_int64_def)
  with assms show l: "2 * h < l" by simp
  show "wrap64 (l * second) = l * second" "wrap64 (h * second) = h * second"
    using assms h l by (intro seconds_exact; simp)+
  show "wrap64 (h * second * 2) = 2 * h * second"
    using assms h by (subst wrap64_id) (simp_all add: in_int64_def second_def)
  show "\<not> 2 * h * second \<ge> l * second" using l by (simp add: second_def)
qed

definition short_errors :: "(auth_error, 'a) result set" where
  "short_errors = {Inl AdminPasswordShort, Inl TokenSecretShort}"

lemma other_results: "Inl ViewerIncomplete \<notin> short_errors" "Inr s \<notin> short_errors"
  by (simp_all add: short_errors_def)

lemma bind_res_short: "bind_res r f \<in> short_errors \<Longrightarrow> r \<in> short_errors \<or> (\<exists>v. f v \<in> short_errors)"
  by (cases r) (auto simp: short_errors_def)

lemma addCredential_short: "addCredential cr u p r s \<notin> short_errors"
  by (auto simp: addCredential_def Let_def short_errors_def split: option.splits)

lemma NewAuthService_short:
  assumes "\<not> runes (ac_AdminPassword a) < 8" "\<not> length (ac_TokenSecret a) < 32"
  shows "NewAuthService cr runes a \<notin> short_errors"
proof (cases "ac_Enabled a")
  case False
  then show ?thesis by (simp add: NewAuthService_def short_errors_def)
next
  case True
  with True assms show ?thesis
    unfolding NewAuthService_def Let_def
    by (auto dest!: bind_res_short simp: addCredential_short other_results simp del: bind_res_simps split: if_splits)
qed



end
